theory Spec2Isabelle
  imports Main "HOL-Library.Word"
begin

unbundle bit_operations_syntax

section \<open>The FPGA loader of the KS10 console: registers, device and run state\<close>

text \<open>
  The theory embeds \<^verbatim>\<open>fpga_loader_t::loadFPGA\<close> (fpga_loader.cpp) and the helpers
  of fpga_loader.hpp. The embedding starts where the register blocks are mapped
  (fpga_loader.cpp line 258); opening /dev/mem and mmap() belong to the platform.

  The registers are volatile: what a read returns is decided by the hardware, not by the
  program. A device is therefore a function from the history of all accesses made so far
  (reads, writes and sleeps, in order) to the value the next read of a register returns.
  Every deterministic device is of this form. A run carries that history, the lines it
  printed, and the indices of the image words it fetched.
\<close>

datatype reg =
    Stat            \<comment> \<open>fpgamgr_regs->stat\<close>
  | Ctrl            \<comment> \<open>fpgamgr_regs->ctrl\<close>
  | Dclkcnt         \<comment> \<open>fpgamgr_regs->dclkcnt\<close>
  | Dclkstat        \<comment> \<open>fpgamgr_regs->dclkstat\<close>
  | Gpio_porta_eoi  \<comment> \<open>fpgamgr_regs->gpio_porta_eoi\<close>
  | Gpio_ext_porta  \<comment> \<open>fpgamgr_regs->gpio_ext_porta\<close>
  | Module          \<comment> \<open>sysmgr_regs->module\<close>
  | Fpgamgr_data    \<comment> \<open>fpgamgr_data, the configuration data port\<close>

datatype event = Rd reg "32 word" | Wr reg "32 word" | Usleep nat

datatype fd = Stdout | Stderr

type_synonym device = "event list \<Rightarrow> reg \<Rightarrow> 32 word"

record run =
  hw :: "event list"
  out :: "(fd \<times> string) list"
  fetched :: "nat list"

definition start :: run where
  "start = \<lparr>hw = [], out = [], fetched = []\<rparr>"

subsection \<open>Bit definitions (fpga_loader.hpp, lines 114-166)\<close>

definition en :: "32 word" where "en = 0x00000001"
definition nce :: "32 word" where "nce = 0x00000002"
definition nconfigpull :: "32 word" where "nconfigpull = 0x00000004"
definition cdratio :: "32 word" where "cdratio = 0x000000c0"
definition axicfgen :: "32 word" where "axicfgen = 0x00000100"
definition cfgwdth :: "32 word" where "cfgwdth = 0x00000200"

definition mode_reset :: "32 word" where "mode_reset = 0x00000001"
definition mode_config :: "32 word" where "mode_config = 0x00000002"
definition mode_init :: "32 word" where "mode_init = 0x00000003"
definition mode_user :: "32 word" where "mode_user = 0x00000004"

definition ns :: "32 word" where "ns = 0x00000001"
definition cd :: "32 word" where "cd = 0x00000002"

definition dcntdone :: "32 word" where "dcntdone = 0x00000001"

definition EXIT_SUCCESS :: int where "EXIT_SUCCESS = 0"
definition EXIT_FAILURE :: int where "EXIT_FAILURE = 1"

definition PROGNAME :: string where "PROGNAME = ''fpga_loader''"

subsection \<open>Access primitives\<close>

definition read32 :: "device \<Rightarrow> reg \<Rightarrow> run \<Rightarrow> 32 word \<times> run" where
  "read32 dev r s = (dev (hw s) r, s\<lparr>hw := hw s @ [Rd r (dev (hw s) r)]\<rparr>)"

definition write32 :: "reg \<Rightarrow> 32 word \<Rightarrow> run \<Rightarrow> run" where
  "write32 r v s = s\<lparr>hw := hw s @ [Wr r v]\<rparr>"

definition usleep :: "nat \<Rightarrow> run \<Rightarrow> run" where
  "usleep n s = s\<lparr>hw := hw s @ [Usleep n]\<rparr>"

definition fprintf :: "fd \<Rightarrow> string \<Rightarrow> run \<Rightarrow> run" where
  "fprintf f line s = s\<lparr>out := out s @ [(f, line)]\<rparr>"

definition printf :: "string \<Rightarrow> run \<Rightarrow> run" where
  "printf line s = fprintf Stdout line s"

text \<open>\<^verbatim>\<open>*rbf_data++\<close>: the word under the cursor, and the cursor's position recorded.\<close>

definition fetch :: "32 word list \<Rightarrow> nat \<Rightarrow> run \<Rightarrow> 32 word \<times> run" where
  "fetch rbf_data p s = (rbf_data ! p, s\<lparr>fetched := fetched s @ [p]\<rparr>)"

subsection \<open>Status helpers (fpga_loader.hpp, lines 216-260)\<close>

definition get_msel :: "device \<Rightarrow> run \<Rightarrow> 32 word \<times> run" where
  "get_msel dev s = (let (v, s1) = read32 dev Stat s in (drop_bit 3 v AND 0x1f, s1))"

definition get_state :: "device \<Rightarrow> run \<Rightarrow> 32 word \<times> run" where
  "get_state dev s = (let (v, s1) = read32 dev Stat s in (drop_bit 0 v AND 0x07, s1))"

text \<open>\<^verbatim>\<open>print_state\<close> of the source; the name is taken by an Isar command.\<close>

definition print_state_name :: "device \<Rightarrow> run \<Rightarrow> string \<times> run" where
  "print_state_name dev s =
     (let (m, s1) = get_state dev s in
      (if m = 0 then ''Off''
       else if m = 1 then ''Reset''
       else if m = 2 then ''Configuration''
       else if m = 3 then ''Initialization''
       else if m = 4 then ''User''
       else ''Undetermined'', s1))"

subsection \<open>The lines loadFPGA prints\<close>

definition msel_warning :: string where
  \<open>msel_warning = PROGNAME @ '': '' @
     ''The MSEL[4:0] switches need to be set to 0x0a for this program to operate properly.\<newline>'' @
     ''to function properly. See DE10-Nano User Manual Table 3-2.  Remember switch "ON"\<newline>'' @
     ''is a logic 0. This is the default setting of \<newline>''\<close>

definition reset_failed :: string where
  "reset_failed = PROGNAME @ '': reset state transition failed\<newline>''"

definition config_failed :: string where
  "config_failed = PROGNAME @ '': configuration state transition failed\<newline>''"

definition init_failed :: string where
  "init_failed = PROGNAME @ '': initialization state transition failed.\<newline>''"

definition dclk_failed :: string where
  "dclk_failed = PROGNAME @ '': time waiting for DCLKs to be sent.\<newline>''"

definition user_failed :: string where
  "user_failed = PROGNAME @ '': user mode state transition failed\<newline>''"

text \<open>\<^verbatim>\<open>if (debug) printf("%s: %s state\n", PROGNAME, print_state(fpgamgr_regs))\<close>\<close>

definition state_line :: "string \<Rightarrow> string" where
  "state_line name = PROGNAME @ '': '' @ name @ '' state\<newline>''"

definition debug_state :: "device \<Rightarrow> bool \<Rightarrow> run \<Rightarrow> run" where
  "debug_state dev debug s =
     (if debug then
        (let (name, s1) = print_state_name dev s in printf (state_line name) s1)
      else s)"

section \<open>loadFPGA, step by step (fpga_loader.cpp, lines 258-528)\<close>

text \<open>
  Each definition embeds the source lines named beside it and keeps the step label of the
  source comments. A step that can leave loadFPGA early returns \<open>Some code\<close> for
  \<^verbatim>\<open>return code\<close> and \<open>None\<close> when control falls through to the next step.
\<close>

text \<open>Lines 258-264: the MSEL check. A mismatch prints to stderr and nothing else.\<close>

definition check_msel :: "device \<Rightarrow> run \<Rightarrow> run" where
  "check_msel dev s =
     (let (m, s1) = get_msel dev s in
      if m \<noteq> 0x0a then fprintf Stderr msel_warning s1 else s1)"

text \<open>Line 273, step 0.a.\<close>

definition step0a :: "run \<Rightarrow> run" where
  "step0a s = write32 Module 0 s"

text \<open>Line 300, step 1.\<close>

definition step1 :: "device \<Rightarrow> run \<Rightarrow> run" where
  "step1 dev s = (let (v, s1) = read32 dev Ctrl s in write32 Ctrl (0x01 OR (v AND 0x02c0)) s1)"

text \<open>Line 308, step 2.\<close>

definition step2 :: "device \<Rightarrow> run \<Rightarrow> run" where
  "step2 dev s = (let (v, s1) = read32 dev Ctrl s in write32 Ctrl (v AND NOT nce) s1)"

text \<open>Line 317, step 3.\<close>

definition step3 :: "device \<Rightarrow> run \<Rightarrow> run" where
  "step3 dev s = (let (v, s1) = read32 dev Ctrl s in write32 Ctrl (v OR en) s1)"

text \<open>Line 325, step 4.\<close>

definition step4 :: "device \<Rightarrow> run \<Rightarrow> run" where
  "step4 dev s = (let (v, s1) = read32 dev Ctrl s in write32 Ctrl (v OR nconfigpull) s1)"

text \<open>
  The loop of lines 333-337, 362-366 and 494-498, which differ in the mode waited for only:
  \<^verbatim>\<open>for (int i = 0; i < 1000; i++) { if (get_state(regs) == mode) break; usleep(10); }\<close>
\<close>

function wait_mode :: "device \<Rightarrow> 32 word \<Rightarrow> int \<Rightarrow> run \<Rightarrow> run" where
  "wait_mode dev mode i s =
     (if i < 1000 then
        (let (m, s1) = get_state dev s in
         if m = mode then s1 else wait_mode dev mode (i + 1) (usleep 10 s1))
      else s)"
  by pat_completeness auto
termination
  by (relation "measure (\<lambda>(dev, mode, i, s). nat (1000 - i))") auto

declare wait_mode.simps [simp del]

text \<open>Lines 333-346, step 5.\<close>

definition step5 :: "device \<Rightarrow> bool \<Rightarrow> run \<Rightarrow> int option \<times> run" where
  "step5 dev debug s =
     (let s1 = wait_mode dev mode_reset 0 s;
          (m, s2) = get_state dev s1 in
      if m \<noteq> mode_reset then (Some EXIT_FAILURE, fprintf Stderr reset_failed s2)
      else (None, debug_state dev debug s2))"

text \<open>Line 354, step 6.\<close>

definition step6 :: "device \<Rightarrow> run \<Rightarrow> run" where
  "step6 dev s = (let (v, s1) = read32 dev Ctrl s in write32 Ctrl (v AND NOT nconfigpull) s1)"

text \<open>Lines 362-375, step 7.\<close>

definition step7 :: "device \<Rightarrow> bool \<Rightarrow> run \<Rightarrow> int option \<times> run" where
  "step7 dev debug s =
     (let s1 = wait_mode dev mode_config 0 s;
          (m, s2) = get_state dev s1 in
      if m \<noteq> mode_config then (Some EXIT_FAILURE, printf config_failed s2)
      else (None, debug_state dev debug s2))"

text \<open>Line 382, step 8.\<close>

definition step8 :: "run \<Rightarrow> run" where
  "step8 s = write32 Gpio_porta_eoi 0x00000fff s"

text \<open>Line 390, step 9.\<close>

definition step9 :: "device \<Rightarrow> run \<Rightarrow> run" where
  "step9 dev s = (let (v, s1) = read32 dev Ctrl s in write32 Ctrl (v OR axicfgen) s1)"

text \<open>
  Lines 398-400, step 10:
  \<^verbatim>\<open>for (unsigned int i = 0; i < rbf_size; i++) { write32(fpgamgr_data, *rbf_data++); }\<close>
  The target is the 32-bit HPS (main.cpp line 152 casts the buffer pointer to uint32_t),
  so \<^verbatim>\<open>size_t\<close> and \<^verbatim>\<open>unsigned int\<close> are both 32 bits wide. \<open>rbf_data\<close> is the
  sequence of words behind the pointer and \<open>p\<close> the cursor that \<^verbatim>\<open>rbf_data++\<close> moves.
\<close>

function step10 :: "32 word list \<Rightarrow> nat \<Rightarrow> 32 word \<Rightarrow> 32 word \<Rightarrow> run \<Rightarrow> run" where
  "step10 rbf_data p rbf_size i s =
     (if i < rbf_size then
        (let (w, s1) = fetch rbf_data p s in
         step10 rbf_data (p + 1) rbf_size (i + 1) (write32 Fpgamgr_data w s1))
      else s)"
  by pat_completeness auto
termination
proof (relation "measure (\<lambda>(rbf_data, p, rbf_size, i, s). unat rbf_size - unat i)")
  show "wf (measure (\<lambda>(rbf_data, p, rbf_size, i, s). unat rbf_size - unat i))"
    by simp
next
  fix rbf_data :: "32 word list" and p :: nat and rbf_size i :: "32 word"
    and s :: run and x :: "32 word \<times> run" and w :: "32 word" and s1 :: run
  assume less: "i < rbf_size"
  have "unat (i + 1) = Suc (unat i)"
    using less by unat_arith
  moreover have "unat i < unat rbf_size"
    using less by (simp add: word_less_nat_alt)
  ultimately show "((rbf_data, p + 1, rbf_size, i + 1, write32 Fpgamgr_data w s1),
                    (rbf_data, p, rbf_size, i, s))
                   \<in> measure (\<lambda>(rbf_data, p, rbf_size, i, s). unat rbf_size - unat i)"
    by simp
qed

declare step10.simps [simp del]

text \<open>
  Lines 411-422, the loop of step 11. \<open>status\<close> is the variable of line 411; the first
  component of the result is \<open>Some EXIT_FAILURE\<close> when line 416 returns from inside the
  loop.
\<close>

function step11_loop :: "device \<Rightarrow> int \<Rightarrow> 32 word \<Rightarrow> run \<Rightarrow> int option \<times> 32 word \<times> run" where
  "step11_loop dev i status s =
     (if i < 1000 then
        (let (v, s1) = read32 dev Gpio_ext_porta s;
             status1 = v AND (cd OR ns) in
         if status1 = 0 then (Some EXIT_FAILURE, status1, printf init_failed s1)
         else if status1 = (cd OR ns) then (None, status1, s1)
         else step11_loop dev (i + 1) status1 (usleep 10 s1))
      else (None, status, s))"
  by pat_completeness auto
termination
  by (relation "measure (\<lambda>(dev, i, status, s). nat (1000 - i))") auto

declare step11_loop.simps [simp del]

text \<open>
  Lines 411-431, step 11. Line 411 declares \<open>status\<close> without a value; the loop assigns
  it in its first iteration, which always runs, so the \<open>0\<close> passed here is never used
  (lemma \<open>step11_loop_initial_status\<close>).
\<close>

definition step11 :: "device \<Rightarrow> bool \<Rightarrow> run \<Rightarrow> int option \<times> 32 word \<times> run" where
  "step11 dev debug s =
     (let (r, status, s1) = step11_loop dev 0 0 s in
      case r of
        Some code \<Rightarrow> (Some code, status, s1)
      | None \<Rightarrow>
          if status \<noteq> (cd OR ns) then (Some EXIT_FAILURE, status, printf init_failed s1)
          else (None, status, debug_state dev debug s1))"

text \<open>Line 439, step 12.\<close>

definition step12 :: "device \<Rightarrow> run \<Rightarrow> run" where
  "step12 dev s = (let (v, s1) = read32 dev Ctrl s in write32 Ctrl (v AND NOT axicfgen) s1)"

text \<open>Lines 446-452, step 13a.\<close>

definition step13a :: "device \<Rightarrow> run \<Rightarrow> run" where
  "step13a dev s = (let (v, s1) = read32 dev Dclkstat s in if v \<noteq> 0 then write32 Dclkstat 1 s1 else s1)"

text \<open>Line 460, step 13b.\<close>

definition step13b :: "run \<Rightarrow> run" where
  "step13b s = write32 Dclkcnt 4 s"

text \<open>Lines 468-473, the loop of step 14, on the same variable \<open>status\<close>.\<close>

function step14_loop :: "device \<Rightarrow> int \<Rightarrow> 32 word \<Rightarrow> run \<Rightarrow> 32 word \<times> run" where
  "step14_loop dev i status s =
     (if i < 100 then
        (let (v, s1) = read32 dev Dclkstat s;
             status1 = v AND dcntdone in
         if status1 = dcntdone then (status1, s1)
         else step14_loop dev (i + 1) status1 (usleep 10 s1))
      else (status, s))"
  by pat_completeness auto
termination
  by (relation "measure (\<lambda>(dev, i, status, s). nat (100 - i))") auto

declare step14_loop.simps [simp del]

text \<open>Lines 468-478, step 14.\<close>

definition step14 :: "device \<Rightarrow> 32 word \<Rightarrow> run \<Rightarrow> int option \<times> run" where
  "step14 dev status s =
     (let (status1, s1) = step14_loop dev 0 status s in
      if status1 \<noteq> dcntdone then (Some EXIT_FAILURE, printf dclk_failed s1)
      else (None, s1))"

text \<open>Line 486, step 15.\<close>

definition step15 :: "run \<Rightarrow> run" where
  "step15 s = write32 Dclkstat 1 s"

text \<open>Lines 494-507, step 16.\<close>

definition step16 :: "device \<Rightarrow> bool \<Rightarrow> run \<Rightarrow> int option \<times> run" where
  "step16 dev debug s =
     (let s1 = wait_mode dev mode_user 0 s;
          (m, s2) = get_state dev s1 in
      if m \<noteq> mode_user then (Some EXIT_FAILURE, printf user_failed s2)
      else (None, debug_state dev debug s2))"

text \<open>Line 516, step 17.\<close>

definition step17 :: "device \<Rightarrow> run \<Rightarrow> run" where
  "step17 dev s = (let (v, s1) = read32 dev Ctrl s in write32 Ctrl (v AND NOT en) s1)"

text \<open>
  loadFPGA, lines 258-528: the MSEL check of lines 258-264, then the steps of lines 273-528
  in the order of the source (\<open>configure\<close>), each early \<^verbatim>\<open>return EXIT_FAILURE\<close>
  ending the run with the state reached there.
\<close>

definition configure :: "device \<Rightarrow> 32 word list \<Rightarrow> 32 word \<Rightarrow> bool \<Rightarrow> run \<Rightarrow> int \<times> run" where
  "configure dev rbf_data rbf_size debug s0 =
     (let s = step0a s0;
          s = step1 dev s;
          s = step2 dev s;
          s = step3 dev s;
          s = step4 dev s;
          (r, s) = step5 dev debug s in
      case r of Some code \<Rightarrow> (code, s) | None \<Rightarrow>
     (let s = step6 dev s;
          (r, s) = step7 dev debug s in
      case r of Some code \<Rightarrow> (code, s) | None \<Rightarrow>
     (let s = step8 s;
          s = step9 dev s;
          s = step10 rbf_data 0 rbf_size 0 s;
          (r, status, s) = step11 dev debug s in
      case r of Some code \<Rightarrow> (code, s) | None \<Rightarrow>
     (let s = step12 dev s;
          s = step13a dev s;
          s = step13b s;
          (r, s) = step14 dev status s in
      case r of Some code \<Rightarrow> (code, s) | None \<Rightarrow>
     (let s = step15 s;
          (r, s) = step16 dev debug s in
      case r of Some code \<Rightarrow> (code, s) | None \<Rightarrow>
     (let s = step17 dev s in
      (EXIT_SUCCESS, s)))))))"

definition loadFPGA :: "device \<Rightarrow> 32 word list \<Rightarrow> 32 word \<Rightarrow> bool \<Rightarrow> run \<Rightarrow> int \<times> run" where
  "loadFPGA dev rbf_data rbf_size debug s0 =
     configure dev rbf_data rbf_size debug (check_msel dev s0)"

section \<open>Observing a run\<close>

text \<open>
  The register mutations of a history in order, the values written to one register, the
  values read from one register, and the sleeps.
\<close>

fun writes :: "event list \<Rightarrow> (reg \<times> 32 word) list" where
  "writes [] = []"
| "writes (Wr r v # es) = (r, v) # writes es"
| "writes (Rd r v # es) = writes es"
| "writes (Usleep n # es) = writes es"

fun writes_to :: "reg \<Rightarrow> event list \<Rightarrow> 32 word list" where
  "writes_to r [] = []"
| "writes_to r (Wr r' v # es) = (if r' = r then v # writes_to r es else writes_to r es)"
| "writes_to r (Rd r' v # es) = writes_to r es"
| "writes_to r (Usleep n # es) = writes_to r es"

fun reads_of :: "reg \<Rightarrow> event list \<Rightarrow> 32 word list" where
  "reads_of r [] = []"
| "reads_of r (Rd r' v # es) = (if r' = r then v # reads_of r es else reads_of r es)"
| "reads_of r (Wr r' v # es) = reads_of r es"
| "reads_of r (Usleep n # es) = reads_of r es"

fun sleeps :: "event list \<Rightarrow> nat list" where
  "sleeps [] = []"
| "sleeps (Usleep n # es) = n # sleeps es"
| "sleeps (Rd r v # es) = sleeps es"
| "sleeps (Wr r v # es) = sleeps es"

fun is_write :: "event \<Rightarrow> bool" where
  "is_write (Wr r v) = True"
| "is_write (Rd r v) = False"
| "is_write (Usleep n) = False"

text \<open>The accesses a step adds to the history, and the values it reads from a register.\<close>

definition added :: "run \<Rightarrow> run \<Rightarrow> event list" where
  "added s s' = drop (length (hw s)) (hw s')"

definition samples :: "reg \<Rightarrow> 32 word \<Rightarrow> run \<Rightarrow> run \<Rightarrow> 32 word list" where
  "samples r bits s s' = map (\<lambda>v. v AND bits) (reads_of r (added s s'))"

text \<open>The failure lines among the printed lines, in order.\<close>

definition failure_lines :: "string list" where
  "failure_lines = [reset_failed, config_failed, init_failed, dclk_failed, user_failed]"

definition failures :: "(fd \<times> string) list \<Rightarrow> string list" where
  "failures ls = filter (\<lambda>l. l \<in> set failure_lines) (map snd ls)"

text \<open>The five places where loadFPGA gives up, and the line each prints.\<close>

datatype phase = Reset_phase | Configuration_phase | Data_accept_phase | Initialization_phase | User_phase

fun failure_line :: "phase \<Rightarrow> string" where
  "failure_line Reset_phase = reset_failed"
| "failure_line Configuration_phase = config_failed"
| "failure_line Data_accept_phase = init_failed"
| "failure_line Initialization_phase = dclk_failed"
| "failure_line User_phase = user_failed"

text \<open>A run with lines put in front of its output.\<close>

definition with_lines :: "(fd \<times> string) list \<Rightarrow> run \<Rightarrow> run" where
  "with_lines pre s = s\<lparr>out := pre @ out s\<rparr>"

text \<open>The control register has been written, and the value written last has \<open>en\<close> set.\<close>

definition en_held :: "event list \<Rightarrow> bool" where
  "en_held tr \<longleftrightarrow> writes_to Ctrl tr \<noteq> [] \<and> last (writes_to Ctrl tr) AND en = en"

text \<open>
  What the loop of step 11 adds to the history, entered with counter \<open>i\<close>: port A reads
  and sleeps only, at most \<open>1000 - i\<close> reads; the status it leaves is the last sample; it
  returns only on a sample 0; no sample before the last is 0 or \<open>cd OR ns\<close>; it ends on
  the read of such a sample, or after \<open>1000 - i\<close> reads on the sleep of the last turn.
\<close>

definition shape11 :: "int \<Rightarrow> int option \<Rightarrow> 32 word \<Rightarrow> event list \<Rightarrow> bool" where
  "shape11 i r status evs \<longleftrightarrow>
     (let xs = map (\<lambda>v. v AND (cd OR ns)) (reads_of Gpio_ext_porta evs) in
      xs \<noteq> [] \<and> length xs \<le> nat (1000 - i) \<and> status = last xs \<and> writes evs = [] \<and>
      (r = Some EXIT_FAILURE \<longleftrightarrow> last xs = 0) \<and> (r = None \<longleftrightarrow> last xs \<noteq> 0) \<and>
      (\<forall>x \<in> set (butlast xs). x \<noteq> 0 \<and> x \<noteq> (cd OR ns)) \<and>
      (if last xs = 0 \<or> last xs = (cd OR ns)
       then (\<exists>v. last evs = Rd Gpio_ext_porta v) \<and> length (sleeps evs) + 1 = length xs
       else length xs = nat (1000 - i) \<and> last evs = Usleep 10 \<and> length (sleeps evs) = length xs))"

text \<open>What the loop of step 14 adds, entered with counter \<open>i\<close>; the budget is 100.\<close>

definition shape14 :: "int \<Rightarrow> 32 word \<Rightarrow> event list \<Rightarrow> bool" where
  "shape14 i status evs \<longleftrightarrow>
     (let xs = map (\<lambda>v. v AND dcntdone) (reads_of Dclkstat evs); n = length (sleeps evs) in
      xs \<noteq> [] \<and> writes evs = [] \<and> status = last xs \<and> n \<le> nat (100 - i) \<and>
      length xs \<le> nat (100 - i) \<and>
      (\<forall>x \<in> set (butlast xs). x \<noteq> dcntdone) \<and>
      (if last xs = dcntdone
       then (\<exists>v. last evs = Rd Dclkstat v) \<and> n + 1 = length xs
       else n = nat (100 - i) \<and> last evs = Usleep 10 \<and> n = length xs))"


text \<open>
  The accesses of turns of a poll loop that go on: a read of the register, then
  \<^verbatim>\<open>usleep(10)\<close>, for each value read.
\<close>

definition turns :: "reg \<Rightarrow> 32 word list \<Rightarrow> event list" where
  "turns r vs = concat (map (\<lambda>v. [Rd r v, Usleep 10]) vs)"

text \<open>
  Every value read in \<open>es\<close> is the answer of the device at the moment of the read, after
  the history \<open>tr\<close> and the accesses of \<open>es\<close> before it.
\<close>

fun answers :: "device \<Rightarrow> event list \<Rightarrow> event list \<Rightarrow> bool" where
  "answers dev tr [] = True"
| "answers dev tr (Rd r v # es) = (v = dev tr r \<and> answers dev (tr @ [Rd r v]) es)"
| "answers dev tr (Wr r v # es) = answers dev (tr @ [Wr r v]) es"
| "answers dev tr (Usleep n # es) = answers dev (tr @ [Usleep n]) es"

text \<open>
  The accesses \<open>evs\<close> are those of a poll loop on register \<open>r\<close> followed by the accesses
  \<open>after\<close>, which hold no sleep. With \<open>n\<close> the number of sleeps: the loop made \<open>n\<close> turns
  that went on, each a read of \<open>r\<close> and a sleep, and none of the values read in them met
  the exit condition \<open>stop\<close>; \<open>n\<close> is at most the budget; if \<open>n\<close> is below the budget the
  loop made one more read of \<open>r\<close>, its value met \<open>stop\<close> and the loop left on it without
  sleeping; if \<open>n\<close> is the budget the loop made no other access. Then come the accesses
  \<open>after\<close>.
\<close>

definition poll_loop :: "reg \<Rightarrow> nat \<Rightarrow> (32 word \<Rightarrow> bool) \<Rightarrow> event list \<Rightarrow> event list \<Rightarrow> bool" where
  "poll_loop r budget stop evs after \<longleftrightarrow>
     (let n = length (sleeps evs); rs = reads_of r evs in
      n \<le> budget \<and> n \<le> length rs \<and> sleeps after = [] \<and>
      (\<forall>v \<in> set (take n rs). \<not> stop v) \<and>
      (if n < budget
       then n < length rs \<and> stop (rs ! n) \<and> evs = turns r (take n rs) @ [Rd r (rs ! n)] @ after
       else evs = turns r (take n rs) @ after))"


section \<open>Devices\<close>

text \<open>A control register that latches: it reads back the value written to it last.\<close>

definition ctrl_latches :: "device \<Rightarrow> bool" where
  "ctrl_latches dev \<longleftrightarrow>
     (\<forall>tr. writes_to Ctrl tr \<noteq> [] \<longrightarrow> dev tr Ctrl = last (writes_to Ctrl tr))"

text \<open>A status register that never shows Reset.\<close>

definition never_reset :: "device \<Rightarrow> bool" where
  "never_reset dev \<longleftrightarrow> (\<forall>tr. drop_bit 0 (dev tr Stat) AND 0x07 \<noteq> mode_reset)"

text \<open>A device on which every register reads 0.\<close>

definition dead_dev :: device where
  "dead_dev tr r = 0"

text \<open>
  A simulated FPGA manager. The control register holds \<open>c0\<close> until it is written and
  latches afterwards; the mode follows nCONFIG and the DCLK acknowledgement, with the MSEL
  straps at 0x0a; the DCLK counter is done as soon as it is armed; port A answers its
  k-th read with the k-th word of \<open>porta\<close>, and with CONF_DONE and nSTATUS both high
  when the script has run out.
\<close>

definition sim_dev :: "32 word \<Rightarrow> 32 word list \<Rightarrow> device" where
  "sim_dev c0 porta tr r =
     (let ctrl = (if writes_to Ctrl tr = [] then c0 else last (writes_to Ctrl tr)) in
      case r of
        Ctrl \<Rightarrow> ctrl
      | Stat \<Rightarrow> 0x50 OR (if ctrl AND nconfigpull \<noteq> 0 then mode_reset
                        else if writes_to Dclkstat tr \<noteq> [] then mode_user
                        else mode_config)
      | Dclkstat \<Rightarrow> (if writes_to Dclkcnt tr \<noteq> [] then dcntdone else 0)
      | Gpio_ext_porta \<Rightarrow>
          (let k = length (reads_of Gpio_ext_porta tr) in
           if k < length porta then porta ! k else cd OR ns)
      | _ \<Rightarrow> 0)"

text \<open>
  Three boards: CONF_DONE comes up one sample late; the image is rejected at the first
  sample; CONF_DONE stays low for the first thousand samples.
\<close>

definition slow_dev :: device where
  "slow_dev = sim_dev 0 [ns, cd OR ns]"

definition rejecting_dev :: device where
  "rejecting_dev = sim_dev 0 [0]"

definition stuck_dev :: device where
  "stuck_dev = sim_dev 0 (replicate 1000 ns)"

section \<open>The run up to each point where loadFPGA can return\<close>

text \<open>
  loadFPGA cut at its exits: the run up to step 4, and up to and including each of the
  checks of steps 5, 7, 11, 14 and 16, provided control got there.
\<close>

definition upto_step4 :: "device \<Rightarrow> run \<Rightarrow> run" where
  "upto_step4 dev s0 = step4 dev (step3 dev (step2 dev (step1 dev (step0a (check_msel dev s0)))))"

definition upto_step5 :: "device \<Rightarrow> bool \<Rightarrow> run \<Rightarrow> int option \<times> run" where
  "upto_step5 dev debug s0 = step5 dev debug (upto_step4 dev s0)"

definition upto_step7 :: "device \<Rightarrow> bool \<Rightarrow> run \<Rightarrow> int option \<times> run" where
  "upto_step7 dev debug s0 = step7 dev debug (step6 dev (snd (upto_step5 dev debug s0)))"

definition upto_step10 :: "device \<Rightarrow> 32 word list \<Rightarrow> 32 word \<Rightarrow> bool \<Rightarrow> run \<Rightarrow> run" where
  "upto_step10 dev rbf_data rbf_size debug s0 =
     step10 rbf_data 0 rbf_size 0 (step9 dev (step8 (snd (upto_step7 dev debug s0))))"

definition upto_step11 ::
  "device \<Rightarrow> 32 word list \<Rightarrow> 32 word \<Rightarrow> bool \<Rightarrow> run \<Rightarrow> int option \<times> 32 word \<times> run" where
  "upto_step11 dev rbf_data rbf_size debug s0 =
     step11 dev debug (upto_step10 dev rbf_data rbf_size debug s0)"

definition upto_step14 ::
  "device \<Rightarrow> 32 word list \<Rightarrow> 32 word \<Rightarrow> bool \<Rightarrow> run \<Rightarrow> int option \<times> run" where
  "upto_step14 dev rbf_data rbf_size debug s0 =
     step14 dev (fst (snd (upto_step11 dev rbf_data rbf_size debug s0)))
       (step13b (step13a dev (step12 dev (snd (snd (upto_step11 dev rbf_data rbf_size debug s0))))))"

definition upto_step16 ::
  "device \<Rightarrow> 32 word list \<Rightarrow> 32 word \<Rightarrow> bool \<Rightarrow> run \<Rightarrow> int option \<times> run" where
  "upto_step16 dev rbf_data rbf_size debug s0 =
     step16 dev debug (step15 (snd (upto_step14 dev rbf_data rbf_size debug s0)))"

text \<open>Control got past the checks of steps 5 and 7, to the streaming of step 10.\<close>

definition reaches_streaming :: "device \<Rightarrow> bool \<Rightarrow> run \<Rightarrow> bool" where
  "reaches_streaming dev debug s0 \<longleftrightarrow>
     fst (upto_step5 dev debug s0) = None \<and> fst (upto_step7 dev debug s0) = None"

section \<open>Basic facts\<close>

lemma writes_append [simp]: "writes (xs @ ys) = writes xs @ writes ys"
  by (induction xs rule: writes.induct) simp_all

lemma writes_to_append [simp]: "writes_to r (xs @ ys) = writes_to r xs @ writes_to r ys"
  by (induction r xs rule: writes_to.induct) simp_all

lemma reads_of_append [simp]: "reads_of r (xs @ ys) = reads_of r xs @ reads_of r ys"
  by (induction r xs rule: reads_of.induct) simp_all

lemma sleeps_append [simp]: "sleeps (xs @ ys) = sleeps xs @ sleeps ys"
  by (induction xs rule: sleeps.induct) simp_all

lemma writes_to_writes: "writes_to r tr = map snd (filter (\<lambda>w. fst w = r) (writes tr))"
  by (induction r tr rule: writes_to.induct) simp_all

subsection \<open>Effects of the primitives\<close>

lemma read32_simps [simp]:
  "fst (read32 dev r s) = dev (hw s) r"
  "hw (snd (read32 dev r s)) = hw s @ [Rd r (dev (hw s) r)]"
  "out (snd (read32 dev r s)) = out s"
  "fetched (snd (read32 dev r s)) = fetched s"
  by (simp_all add: read32_def)

lemma write32_simps [simp]:
  "hw (write32 r v s) = hw s @ [Wr r v]"
  "out (write32 r v s) = out s"
  "fetched (write32 r v s) = fetched s"
  by (simp_all add: write32_def)

lemma usleep_simps [simp]:
  "hw (usleep n s) = hw s @ [Usleep n]"
  "out (usleep n s) = out s"
  "fetched (usleep n s) = fetched s"
  by (simp_all add: usleep_def)

lemma fprintf_simps [simp]:
  "hw (fprintf f l s) = hw s"
  "out (fprintf f l s) = out s @ [(f, l)]"
  "fetched (fprintf f l s) = fetched s"
  by (simp_all add: fprintf_def)

lemma printf_simps [simp]:
  "hw (printf l s) = hw s"
  "out (printf l s) = out s @ [(Stdout, l)]"
  "fetched (printf l s) = fetched s"
  by (simp_all add: printf_def)

lemma fetch_simps [simp]:
  "fst (fetch rbf_data p s) = rbf_data ! p"
  "hw (snd (fetch rbf_data p s)) = hw s"
  "out (snd (fetch rbf_data p s)) = out s"
  "fetched (snd (fetch rbf_data p s)) = fetched s @ [p]"
  by (simp_all add: fetch_def)

lemma get_state_simps [simp]:
  "fst (get_state dev s) = drop_bit 0 (dev (hw s) Stat) AND 0x07"
  "hw (snd (get_state dev s)) = hw s @ [Rd Stat (dev (hw s) Stat)]"
  "out (snd (get_state dev s)) = out s"
  "fetched (snd (get_state dev s)) = fetched s"
  by (simp_all add: get_state_def split_beta)

lemma get_msel_simps [simp]:
  "fst (get_msel dev s) = drop_bit 3 (dev (hw s) Stat) AND 0x1f"
  "hw (snd (get_msel dev s)) = hw s @ [Rd Stat (dev (hw s) Stat)]"
  "out (snd (get_msel dev s)) = out s"
  "fetched (snd (get_msel dev s)) = fetched s"
  by (simp_all add: get_msel_def split_beta)

lemma print_state_name_simps [simp]:
  "hw (snd (print_state_name dev s)) = hw s @ [Rd Stat (dev (hw s) Stat)]"
  "out (snd (print_state_name dev s)) = out s"
  "fetched (snd (print_state_name dev s)) = fetched s"
  by (simp_all add: print_state_name_def split_beta)

lemma debug_state_simps [simp]:
  "hw (debug_state dev debug s) = hw s @ (if debug then [Rd Stat (dev (hw s) Stat)] else [])"
  "out (debug_state dev debug s) =
     out s @ (if debug then [(Stdout, state_line (fst (print_state_name dev s)))] else [])"
  "fetched (debug_state dev debug s) = fetched s"
  by (simp_all add: debug_state_def split_beta)

subsection \<open>One turn of each loop\<close>

lemma wait_mode_hit:
  "i < 1000 \<Longrightarrow> fst (get_state dev s) = mode \<Longrightarrow> wait_mode dev mode i s = snd (get_state dev s)"
  by (subst wait_mode.simps) (simp add: split_beta)

lemma wait_mode_miss:
  "i < 1000 \<Longrightarrow> fst (get_state dev s) \<noteq> mode \<Longrightarrow>
   wait_mode dev mode i s = wait_mode dev mode (i + 1) (usleep 10 (snd (get_state dev s)))"
  by (subst wait_mode.simps) (simp add: split_beta)

lemma wait_mode_over: "\<not> i < 1000 \<Longrightarrow> wait_mode dev mode i s = s"
  by (subst wait_mode.simps) simp

lemma wait_mode_induct [consumes 0, case_names over hit miss]:
  assumes "\<And>i s. \<not> i < 1000 \<Longrightarrow> P (i::int) (s::run)"
    and "\<And>i s. i < 1000 \<Longrightarrow> fst (get_state dev s) = mode \<Longrightarrow> P i s"
    and "\<And>i s. i < 1000 \<Longrightarrow> fst (get_state dev s) \<noteq> mode \<Longrightarrow>
           P (i + 1) (usleep 10 (snd (get_state dev s))) \<Longrightarrow> P i s"
  shows "P i s"
proof (induction "nat (1000 - i)" arbitrary: i s)
  case (0 i s)
  then have "\<not> i < 1000" by simp
  then show ?case by (rule assms(1))
next
  case (Suc n i s)
  then have less: "i < 1000" by simp
  show ?case
  proof (cases "fst (get_state dev s) = mode")
    case True
    with less show ?thesis by (rule assms(2))
  next
    case False
    from Suc.hyps(2) have "n = nat (1000 - (i + 1))" by simp
    then have "P (i + 1) (usleep 10 (snd (get_state dev s)))" by (rule Suc.hyps(1))
    with less False show ?thesis by (rule assms(3))
  qed
qed

lemma wait_mode_out [simp]: "out (wait_mode dev mode i s) = out s"
  by (induction i s rule: wait_mode_induct [of _ dev mode])
     (simp_all add: wait_mode_over wait_mode_hit wait_mode_miss del: get_state_simps(1))


lemma wait_mode_fetched [simp]: "fetched (wait_mode dev mode i s) = fetched s"
  by (induction i s rule: wait_mode_induct [of _ dev mode])
     (simp_all add: wait_mode_over wait_mode_hit wait_mode_miss del: get_state_simps(1))

lemma wait_mode_writes [simp]: "writes (hw (wait_mode dev mode i s)) = writes (hw s)"
  by (induction i s rule: wait_mode_induct [of _ dev mode])
     (simp_all add: wait_mode_over wait_mode_hit wait_mode_miss del: get_state_simps(1))

lemma wait_mode_reads_other [simp]:
  "r \<noteq> Stat \<Longrightarrow> reads_of r (hw (wait_mode dev mode i s)) = reads_of r (hw s)"
  by (induction i s rule: wait_mode_induct [of _ dev mode])
     (simp_all add: wait_mode_over wait_mode_hit wait_mode_miss del: get_state_simps(1))

lemma wait_mode_grows: "\<exists>evs. hw (wait_mode dev mode i s) = hw s @ evs"
  by (induction i s rule: wait_mode_induct [of _ dev mode])
     (auto simp add: wait_mode_over wait_mode_hit wait_mode_miss simp del: get_state_simps(1))

subsection \<open>The steps that read, modify and write one register\<close>

lemma step1_simps [simp]:
  "writes (hw (step1 dev s)) = writes (hw s) @ [(Ctrl, 0x01 OR (dev (hw s) Ctrl AND 0x02c0))]"
  "reads_of r (hw (step1 dev s)) = reads_of r (hw s) @ (if r = Ctrl then [dev (hw s) Ctrl] else [])"
  "out (step1 dev s) = out s"
  "fetched (step1 dev s) = fetched s"
  by (simp_all add: step1_def split_beta)

lemma step2_simps [simp]:
  "writes (hw (step2 dev s)) = writes (hw s) @ [(Ctrl, dev (hw s) Ctrl AND NOT nce)]"
  "reads_of r (hw (step2 dev s)) = reads_of r (hw s) @ (if r = Ctrl then [dev (hw s) Ctrl] else [])"
  "out (step2 dev s) = out s"
  "fetched (step2 dev s) = fetched s"
  by (simp_all add: step2_def split_beta)

lemma step3_simps [simp]:
  "writes (hw (step3 dev s)) = writes (hw s) @ [(Ctrl, dev (hw s) Ctrl OR en)]"
  "reads_of r (hw (step3 dev s)) = reads_of r (hw s) @ (if r = Ctrl then [dev (hw s) Ctrl] else [])"
  "out (step3 dev s) = out s"
  "fetched (step3 dev s) = fetched s"
  by (simp_all add: step3_def split_beta)

lemma step4_simps [simp]:
  "writes (hw (step4 dev s)) = writes (hw s) @ [(Ctrl, dev (hw s) Ctrl OR nconfigpull)]"
  "reads_of r (hw (step4 dev s)) = reads_of r (hw s) @ (if r = Ctrl then [dev (hw s) Ctrl] else [])"
  "out (step4 dev s) = out s"
  "fetched (step4 dev s) = fetched s"
  by (simp_all add: step4_def split_beta)

lemma step6_simps [simp]:
  "writes (hw (step6 dev s)) = writes (hw s) @ [(Ctrl, dev (hw s) Ctrl AND NOT nconfigpull)]"
  "reads_of r (hw (step6 dev s)) = reads_of r (hw s) @ (if r = Ctrl then [dev (hw s) Ctrl] else [])"
  "out (step6 dev s) = out s"
  "fetched (step6 dev s) = fetched s"
  by (simp_all add: step6_def split_beta)

lemma step9_simps [simp]:
  "writes (hw (step9 dev s)) = writes (hw s) @ [(Ctrl, dev (hw s) Ctrl OR axicfgen)]"
  "reads_of r (hw (step9 dev s)) = reads_of r (hw s) @ (if r = Ctrl then [dev (hw s) Ctrl] else [])"
  "out (step9 dev s) = out s"
  "fetched (step9 dev s) = fetched s"
  by (simp_all add: step9_def split_beta)

lemma step12_simps [simp]:
  "writes (hw (step12 dev s)) = writes (hw s) @ [(Ctrl, dev (hw s) Ctrl AND NOT axicfgen)]"
  "reads_of r (hw (step12 dev s)) = reads_of r (hw s) @ (if r = Ctrl then [dev (hw s) Ctrl] else [])"
  "out (step12 dev s) = out s"
  "fetched (step12 dev s) = fetched s"
  by (simp_all add: step12_def split_beta)

lemma step17_simps [simp]:
  "writes (hw (step17 dev s)) = writes (hw s) @ [(Ctrl, dev (hw s) Ctrl AND NOT en)]"
  "reads_of r (hw (step17 dev s)) = reads_of r (hw s) @ (if r = Ctrl then [dev (hw s) Ctrl] else [])"
  "out (step17 dev s) = out s"
  "fetched (step17 dev s) = fetched s"
  by (simp_all add: step17_def split_beta)

lemma step0a_simps [simp]:
  "writes (hw (step0a s)) = writes (hw s) @ [(Module, 0)]"
  "reads_of r (hw (step0a s)) = reads_of r (hw s)"
  "out (step0a s) = out s"
  "fetched (step0a s) = fetched s"
  by (simp_all add: step0a_def)

lemma step8_simps [simp]:
  "writes (hw (step8 s)) = writes (hw s) @ [(Gpio_porta_eoi, 0x00000fff)]"
  "reads_of r (hw (step8 s)) = reads_of r (hw s)"
  "out (step8 s) = out s"
  "fetched (step8 s) = fetched s"
  by (simp_all add: step8_def)

lemma step13a_simps [simp]:
  "writes (hw (step13a dev s)) = writes (hw s) @ (if dev (hw s) Dclkstat \<noteq> 0 then [(Dclkstat, 1)] else [])"
  "reads_of r (hw (step13a dev s)) = reads_of r (hw s) @ (if r = Dclkstat then [dev (hw s) Dclkstat] else [])"
  "out (step13a dev s) = out s"
  "fetched (step13a dev s) = fetched s"
  by (simp_all add: step13a_def split_beta)

lemma step13b_simps [simp]:
  "writes (hw (step13b s)) = writes (hw s) @ [(Dclkcnt, 4)]"
  "reads_of r (hw (step13b s)) = reads_of r (hw s)"
  "out (step13b s) = out s"
  "fetched (step13b s) = fetched s"
  by (simp_all add: step13b_def)

lemma step15_simps [simp]:
  "writes (hw (step15 s)) = writes (hw s) @ [(Dclkstat, 1)]"
  "reads_of r (hw (step15 s)) = reads_of r (hw s)"
  "out (step15 s) = out s"
  "fetched (step15 s) = fetched s"
  by (simp_all add: step15_def)

lemma check_msel_simps [simp]:
  "writes (hw (check_msel dev s)) = writes (hw s)"
  "reads_of r (hw (check_msel dev s)) = reads_of r (hw s) @ (if r = Stat then [dev (hw s) Stat] else [])"
  "out (check_msel dev s) =
     out s @ (if drop_bit 3 (dev (hw s) Stat) AND 0x1f \<noteq> 0x0a then [(Stderr, msel_warning)] else [])"
  "fetched (check_msel dev s) = fetched s"
  by (simp_all add: check_msel_def split_beta)


subsection \<open>Step 10: the streaming loop\<close>

lemma step10_stop: "\<not> i < rbf_size \<Longrightarrow> step10 rbf_data p rbf_size i s = s"
  by (subst step10.simps) simp

lemma step10_go:
  "i < rbf_size \<Longrightarrow>
   step10 rbf_data p rbf_size i s =
     step10 rbf_data (p + 1) rbf_size (i + 1) (write32 Fpgamgr_data (rbf_data ! p) (snd (fetch rbf_data p s)))"
  by (subst step10.simps) (simp add: split_beta)

lemma step10_induct [consumes 0, case_names stop go]:
  assumes "\<And>p i s. \<not> i < rbf_size \<Longrightarrow> P (p::nat) (i::32 word) (s::run)"
    and "\<And>p i s. i < rbf_size \<Longrightarrow>
           P (p + 1) (i + 1) (write32 Fpgamgr_data (rbf_data ! p) (snd (fetch rbf_data p s))) \<Longrightarrow> P p i s"
  shows "P p i s"
proof (induction "unat rbf_size - unat i" arbitrary: p i s)
  case (0 i p s)
  then have "\<not> i < rbf_size" by (simp add: word_less_nat_alt)
  then show ?case by (rule assms(1))
next
  case (Suc n i p s)
  then have less: "i < rbf_size" by (simp add: word_less_nat_alt)
  then have "unat (i + 1) = Suc (unat i)" by unat_arith
  with Suc.hyps(2) have "n = unat rbf_size - unat (i + 1)" by simp
  then have "P (p + 1) (i + 1) (write32 Fpgamgr_data (rbf_data ! p) (snd (fetch rbf_data p s)))"
    by (rule Suc.hyps(1))
  with less show ?case by (rule assms(2))
qed

lemma upt_first: "a < b \<Longrightarrow> [p ..< p + (b - a)] = p # [Suc p ..< Suc p + (b - Suc a)]"
proof -
  assume "a < b"
  then have "Suc p + (b - Suc a) = p + (b - a)" and "p < p + (b - a)" by arith+
  then show ?thesis by (simp only: upt_conv_Cons)
qed

lemma step10_out [simp]: "out (step10 rbf_data p rbf_size i s) = out s"
  by (induction p i s rule: step10_induct [where rbf_size = rbf_size and rbf_data = rbf_data])
     (simp_all add: step10_stop step10_go)

lemma step10_reads [simp]: "reads_of r (hw (step10 rbf_data p rbf_size i s)) = reads_of r (hw s)"
  by (induction p i s rule: step10_induct [where rbf_size = rbf_size and rbf_data = rbf_data])
     (simp_all add: step10_stop step10_go)

text \<open>The loop runs \<open>rbf_size - i\<close> times, whatever the buffer holds.\<close>

lemma step10_fetched:
  "i \<le> rbf_size \<Longrightarrow>
   fetched (step10 rbf_data p rbf_size i s) = fetched s @ [p ..< p + (unat rbf_size - unat i)]"
proof (induction p i s rule: step10_induct [where rbf_size = rbf_size and rbf_data = rbf_data])
  case (stop p i s)
  then have "i = rbf_size" by simp
  with stop show ?case by (simp add: step10_stop)
next
  case (go p i s)
  from go(1) have suc: "unat (i + 1) = Suc (unat i)" by unat_arith
  from go(1) have le: "i + 1 \<le> rbf_size" by (rule inc_le)
  from go(1) have "unat i < unat rbf_size" by (simp add: word_less_nat_alt)
  then have "[p ..< p + (unat rbf_size - unat i)] = p # [Suc p ..< Suc p + (unat rbf_size - Suc (unat i))]"
    by (rule upt_first)
  with go(1) go(2) [OF le] suc show ?case by (simp add: step10_go)
qed

lemma step10_writes:
  "i \<le> rbf_size \<Longrightarrow>
   writes (hw (step10 rbf_data p rbf_size i s)) =
     writes (hw s) @ map (\<lambda>k. (Fpgamgr_data, rbf_data ! k)) [p ..< p + (unat rbf_size - unat i)]"
proof (induction p i s rule: step10_induct [where rbf_size = rbf_size and rbf_data = rbf_data])
  case (stop p i s)
  then have "i = rbf_size" by simp
  with stop show ?case by (simp add: step10_stop)
next
  case (go p i s)
  from go(1) have suc: "unat (i + 1) = Suc (unat i)" by unat_arith
  from go(1) have le: "i + 1 \<le> rbf_size" by (rule inc_le)
  from go(1) have "unat i < unat rbf_size" by (simp add: word_less_nat_alt)
  then have "[p ..< p + (unat rbf_size - unat i)] = p # [Suc p ..< Suc p + (unat rbf_size - Suc (unat i))]"
    by (rule upt_first)
  with go(1) go(2) [OF le] suc show ?case by (simp add: step10_go)
qed

lemma step10_hw:
  "i \<le> rbf_size \<Longrightarrow>
   hw (step10 rbf_data p rbf_size i s) =
     hw s @ map (\<lambda>k. Wr Fpgamgr_data (rbf_data ! k)) [p ..< p + (unat rbf_size - unat i)]"
proof (induction p i s rule: step10_induct [where rbf_size = rbf_size and rbf_data = rbf_data])
  case (stop p i s)
  then have "i = rbf_size" by simp
  with stop show ?case by (simp add: step10_stop)
next
  case (go p i s)
  from go(1) have suc: "unat (i + 1) = Suc (unat i)" by unat_arith
  from go(1) have le: "i + 1 \<le> rbf_size" by (rule inc_le)
  from go(1) have "unat i < unat rbf_size" by (simp add: word_less_nat_alt)
  then have "[p ..< p + (unat rbf_size - unat i)] = p # [Suc p ..< Suc p + (unat rbf_size - Suc (unat i))]"
    by (rule upt_first)
  with go(1) go(2) [OF le] suc show ?case by (simp add: step10_go)
qed

text \<open>From the start of the buffer: the words of the image, in order.\<close>

lemma image_words: "length rbf_data = n \<Longrightarrow> map (\<lambda>k. rbf_data ! k) [0 ..< n] = rbf_data"
  by (auto simp: map_nth)


subsection \<open>Step 11: the CONF_DONE and nSTATUS loop\<close>

lemma step11_loop_over: "\<not> i < 1000 \<Longrightarrow> step11_loop dev i status s = (None, status, s)"
  by (subst step11_loop.simps) simp

lemma step11_loop_reject:
  "i < 1000 \<Longrightarrow> dev (hw s) Gpio_ext_porta AND (cd OR ns) = 0 \<Longrightarrow>
   step11_loop dev i status s =
     (Some EXIT_FAILURE, 0, printf init_failed (snd (read32 dev Gpio_ext_porta s)))"
  by (subst step11_loop.simps) (simp add: split_beta Let_def)

lemma step11_loop_done:
  "i < 1000 \<Longrightarrow> dev (hw s) Gpio_ext_porta AND (cd OR ns) = (cd OR ns) \<Longrightarrow>
   step11_loop dev i status s = (None, cd OR ns, snd (read32 dev Gpio_ext_porta s))"
  by (subst step11_loop.simps) (auto simp add: split_beta Let_def cd_def ns_def)

lemma step11_loop_again:
  "i < 1000 \<Longrightarrow> dev (hw s) Gpio_ext_porta AND (cd OR ns) \<noteq> 0 \<Longrightarrow>
   dev (hw s) Gpio_ext_porta AND (cd OR ns) \<noteq> (cd OR ns) \<Longrightarrow>
   step11_loop dev i status s =
     step11_loop dev (i + 1) (dev (hw s) Gpio_ext_porta AND (cd OR ns))
       (usleep 10 (snd (read32 dev Gpio_ext_porta s)))"
  by (subst step11_loop.simps) (simp add: split_beta Let_def)

lemmas step11_loop_turn = step11_loop_over step11_loop_reject step11_loop_done step11_loop_again

lemma step11_loop_induct [consumes 0, case_names over reject both again]:
  assumes "\<And>i status s. \<not> i < 1000 \<Longrightarrow> P (i::int) (status::32 word) (s::run)"
    and "\<And>i status s. i < 1000 \<Longrightarrow> dev (hw s) Gpio_ext_porta AND (cd OR ns) = 0 \<Longrightarrow> P i status s"
    and "\<And>i status s. i < 1000 \<Longrightarrow> dev (hw s) Gpio_ext_porta AND (cd OR ns) = (cd OR ns) \<Longrightarrow>
           P i status s"
    and "\<And>i status s. i < 1000 \<Longrightarrow> dev (hw s) Gpio_ext_porta AND (cd OR ns) \<noteq> 0 \<Longrightarrow>
           dev (hw s) Gpio_ext_porta AND (cd OR ns) \<noteq> (cd OR ns) \<Longrightarrow>
           P (i + 1) (dev (hw s) Gpio_ext_porta AND (cd OR ns))
             (usleep 10 (snd (read32 dev Gpio_ext_porta s))) \<Longrightarrow>
           P i status s"
  shows "P i status s"
proof (induction "nat (1000 - i)" arbitrary: i status s)
  case (0 i status s)
  then have "\<not> i < 1000" by simp
  then show ?case by (rule assms(1))
next
  case (Suc n i status s)
  then have less: "i < 1000" by simp
  from Suc.hyps(2) have n: "n = nat (1000 - (i + 1))" by simp
  consider "dev (hw s) Gpio_ext_porta AND (cd OR ns) = 0"
    | "dev (hw s) Gpio_ext_porta AND (cd OR ns) = (cd OR ns)"
    | "dev (hw s) Gpio_ext_porta AND (cd OR ns) \<noteq> 0"
      "dev (hw s) Gpio_ext_porta AND (cd OR ns) \<noteq> (cd OR ns)"
    by blast
  then show ?case
  proof cases
    case 1
    with less show ?thesis by (rule assms(2))
  next
    case 2
    with less show ?thesis by (rule assms(3))
  next
    case 3
    from n have "P (i + 1) (dev (hw s) Gpio_ext_porta AND (cd OR ns))
        (usleep 10 (snd (read32 dev Gpio_ext_porta s)))"
      by (rule Suc.hyps(1))
    with less 3 show ?thesis by (rule assms(4))
  qed
qed

lemma step11_loop_code:
  "fst (step11_loop dev i status s) = None \<or> fst (step11_loop dev i status s) = Some EXIT_FAILURE"
  by (induction i status s rule: step11_loop_induct [where dev = dev])
     (simp_all add: step11_loop_turn)

lemma step11_loop_writes [simp]:
  "writes (hw (snd (snd (step11_loop dev i status s)))) = writes (hw s)"
  by (induction i status s rule: step11_loop_induct [where dev = dev])
     (simp_all add: step11_loop_turn)

lemma step11_loop_fetched [simp]:
  "fetched (snd (snd (step11_loop dev i status s))) = fetched s"
  by (induction i status s rule: step11_loop_induct [where dev = dev])
     (simp_all add: step11_loop_turn)

lemma step11_loop_out:
  "out (snd (snd (step11_loop dev i status s))) =
     out s @ (if fst (step11_loop dev i status s) = None then [] else [(Stdout, init_failed)])"
  by (induction i status s rule: step11_loop_induct [where dev = dev])
     (simp_all add: step11_loop_turn)

lemma step11_loop_reads_other [simp]:
  "r \<noteq> Gpio_ext_porta \<Longrightarrow>
   reads_of r (hw (snd (snd (step11_loop dev i status s)))) = reads_of r (hw s)"
  by (induction i status s rule: step11_loop_induct [where dev = dev])
     (simp_all add: step11_loop_turn)

lemma step11_loop_grows: "\<exists>evs. hw (snd (snd (step11_loop dev i status s))) = hw s @ evs"
  by (induction i status s rule: step11_loop_induct [where dev = dev])
     (auto simp add: step11_loop_turn)

lemma step11_loop_initial_status:
  "i < 1000 \<Longrightarrow> step11_loop dev i a s = step11_loop dev i b s"
  by (subst (1 2) step11_loop.simps) simp

subsection \<open>Step 14: the DCLK loop\<close>

lemma step14_loop_over: "\<not> i < 100 \<Longrightarrow> step14_loop dev i status s = (status, s)"
  by (subst step14_loop.simps) simp

lemma step14_loop_done:
  "i < 100 \<Longrightarrow> dev (hw s) Dclkstat AND dcntdone = dcntdone \<Longrightarrow>
   step14_loop dev i status s = (dcntdone, snd (read32 dev Dclkstat s))"
  by (subst step14_loop.simps) (auto simp add: split_beta Let_def)

lemma step14_loop_again:
  "i < 100 \<Longrightarrow> dev (hw s) Dclkstat AND dcntdone \<noteq> dcntdone \<Longrightarrow>
   step14_loop dev i status s =
     step14_loop dev (i + 1) (dev (hw s) Dclkstat AND dcntdone) (usleep 10 (snd (read32 dev Dclkstat s)))"
  by (subst step14_loop.simps) (simp add: split_beta Let_def)

lemmas step14_loop_turn = step14_loop_over step14_loop_done step14_loop_again

lemma step14_loop_induct [consumes 0, case_names over hit again]:
  assumes "\<And>i status s. \<not> i < 100 \<Longrightarrow> P (i::int) (status::32 word) (s::run)"
    and "\<And>i status s. i < 100 \<Longrightarrow> dev (hw s) Dclkstat AND dcntdone = dcntdone \<Longrightarrow> P i status s"
    and "\<And>i status s. i < 100 \<Longrightarrow> dev (hw s) Dclkstat AND dcntdone \<noteq> dcntdone \<Longrightarrow>
           P (i + 1) (dev (hw s) Dclkstat AND dcntdone) (usleep 10 (snd (read32 dev Dclkstat s))) \<Longrightarrow>
           P i status s"
  shows "P i status s"
proof (induction "nat (100 - i)" arbitrary: i status s)
  case (0 i status s)
  then have "\<not> i < 100" by simp
  then show ?case by (rule assms(1))
next
  case (Suc n i status s)
  then have less: "i < 100" by simp
  from Suc.hyps(2) have n: "n = nat (100 - (i + 1))" by simp
  show ?case
  proof (cases "dev (hw s) Dclkstat AND dcntdone = dcntdone")
    case True
    with less show ?thesis by (rule assms(2))
  next
    case False
    from n have "P (i + 1) (dev (hw s) Dclkstat AND dcntdone) (usleep 10 (snd (read32 dev Dclkstat s)))"
      by (rule Suc.hyps(1))
    with less False show ?thesis by (rule assms(3))
  qed
qed

lemma step14_loop_writes [simp]:
  "writes (hw (snd (step14_loop dev i status s))) = writes (hw s)"
  by (induction i status s rule: step14_loop_induct [where dev = dev])
     (simp_all add: step14_loop_turn)

lemma step14_loop_fetched [simp]: "fetched (snd (step14_loop dev i status s)) = fetched s"
  by (induction i status s rule: step14_loop_induct [where dev = dev])
     (simp_all add: step14_loop_turn)

lemma step14_loop_out [simp]: "out (snd (step14_loop dev i status s)) = out s"
  by (induction i status s rule: step14_loop_induct [where dev = dev])
     (simp_all add: step14_loop_turn)

lemma step14_loop_reads_other [simp]:
  "r \<noteq> Dclkstat \<Longrightarrow> reads_of r (hw (snd (step14_loop dev i status s))) = reads_of r (hw s)"
  by (induction i status s rule: step14_loop_induct [where dev = dev])
     (simp_all add: step14_loop_turn)

lemma step14_loop_grows: "\<exists>evs. hw (snd (step14_loop dev i status s)) = hw s @ evs"
  by (induction i status s rule: step14_loop_induct [where dev = dev])
     (auto simp add: step14_loop_turn)


subsection \<open>The polls with their checks: steps 5, 7, 11, 14 and 16\<close>

lemma step5_code:
  "fst (step5 dev debug s) =
     (if drop_bit 0 (dev (hw (wait_mode dev mode_reset 0 s)) Stat) AND 0x07 \<noteq> mode_reset
      then Some EXIT_FAILURE else None)"
  by (simp add: step5_def Let_def split_beta)

lemma step7_code:
  "fst (step7 dev debug s) =
     (if drop_bit 0 (dev (hw (wait_mode dev mode_config 0 s)) Stat) AND 0x07 \<noteq> mode_config
      then Some EXIT_FAILURE else None)"
  by (simp add: step7_def Let_def split_beta)

lemma step16_code:
  "fst (step16 dev debug s) =
     (if drop_bit 0 (dev (hw (wait_mode dev mode_user 0 s)) Stat) AND 0x07 \<noteq> mode_user
      then Some EXIT_FAILURE else None)"
  by (simp add: step16_def Let_def split_beta)

lemma step5_simps [simp]:
  "writes (hw (snd (step5 dev debug s))) = writes (hw s)"
  "fetched (snd (step5 dev debug s)) = fetched s"
  "r \<noteq> Stat \<Longrightarrow> reads_of r (hw (snd (step5 dev debug s))) = reads_of r (hw s)"
  by (simp_all add: step5_def Let_def split_beta del: get_state_simps(1))

lemma step7_simps [simp]:
  "writes (hw (snd (step7 dev debug s))) = writes (hw s)"
  "fetched (snd (step7 dev debug s)) = fetched s"
  "r \<noteq> Stat \<Longrightarrow> reads_of r (hw (snd (step7 dev debug s))) = reads_of r (hw s)"
  by (simp_all add: step7_def Let_def split_beta del: get_state_simps(1))

lemma step16_simps [simp]:
  "writes (hw (snd (step16 dev debug s))) = writes (hw s)"
  "fetched (snd (step16 dev debug s)) = fetched s"
  "r \<noteq> Stat \<Longrightarrow> reads_of r (hw (snd (step16 dev debug s))) = reads_of r (hw s)"
  by (simp_all add: step16_def Let_def split_beta del: get_state_simps(1))

lemma step11_code:
  "fst (step11 dev debug s) = None \<or> fst (step11 dev debug s) = Some EXIT_FAILURE"
  using step11_loop_code [of dev 0 0 s]
  by (auto simp add: step11_def Let_def split_beta split: option.splits)

lemma step11_simps [simp]:
  "writes (hw (snd (snd (step11 dev debug s)))) = writes (hw s)"
  "fetched (snd (snd (step11 dev debug s))) = fetched s"
  by (simp_all add: step11_def Let_def split_beta split: option.splits)

lemma step11_status: "fst (step11 dev debug s) = None \<Longrightarrow> fst (snd (step11 dev debug s)) = (cd OR ns)"
  by (auto simp add: step11_def Let_def split_beta split: option.splits if_splits)

lemma step14_code:
  "fst (step14 dev status s) = None \<or> fst (step14 dev status s) = Some EXIT_FAILURE"
  by (simp add: step14_def Let_def split_beta)

lemma step14_simps [simp]:
  "writes (hw (snd (step14 dev status s))) = writes (hw s)"
  "fetched (snd (step14 dev status s)) = fetched s"
  by (simp_all add: step14_def Let_def split_beta)


section \<open>The exits of loadFPGA\<close>

lemmas upto_defs = upto_step4_def upto_step5_def upto_step7_def upto_step10_def upto_step11_def
  upto_step14_def upto_step16_def

lemma loadFPGA_exits:
  "loadFPGA dev rbf_data rbf_size debug s0 =
     (case fst (upto_step5 dev debug s0) of
        Some code \<Rightarrow> (code, snd (upto_step5 dev debug s0))
      | None \<Rightarrow>
     (case fst (upto_step7 dev debug s0) of
        Some code \<Rightarrow> (code, snd (upto_step7 dev debug s0))
      | None \<Rightarrow>
     (case fst (upto_step11 dev rbf_data rbf_size debug s0) of
        Some code \<Rightarrow> (code, snd (snd (upto_step11 dev rbf_data rbf_size debug s0)))
      | None \<Rightarrow>
     (case fst (upto_step14 dev rbf_data rbf_size debug s0) of
        Some code \<Rightarrow> (code, snd (upto_step14 dev rbf_data rbf_size debug s0))
      | None \<Rightarrow>
     (case fst (upto_step16 dev rbf_data rbf_size debug s0) of
        Some code \<Rightarrow> (code, snd (upto_step16 dev rbf_data rbf_size debug s0))
      | None \<Rightarrow> (EXIT_SUCCESS, step17 dev (snd (upto_step16 dev rbf_data rbf_size debug s0))))))))"
  by (simp add: loadFPGA_def configure_def upto_defs Let_def split_beta split: option.splits)

lemma upto_codes:
  "fst (upto_step5 dev debug s0) = None \<or> fst (upto_step5 dev debug s0) = Some EXIT_FAILURE"
  "fst (upto_step7 dev debug s0) = None \<or> fst (upto_step7 dev debug s0) = Some EXIT_FAILURE"
  "fst (upto_step11 dev rbf_data rbf_size debug s0) = None \<or>
   fst (upto_step11 dev rbf_data rbf_size debug s0) = Some EXIT_FAILURE"
  "fst (upto_step14 dev rbf_data rbf_size debug s0) = None \<or>
   fst (upto_step14 dev rbf_data rbf_size debug s0) = Some EXIT_FAILURE"
  "fst (upto_step16 dev rbf_data rbf_size debug s0) = None \<or>
   fst (upto_step16 dev rbf_data rbf_size debug s0) = Some EXIT_FAILURE"
  by (simp_all add: upto_step5_def upto_step7_def upto_step11_def upto_step14_def upto_step16_def
        step5_code step7_code step11_code step14_code step16_code)

lemma loadFPGA_cases [consumes 0, case_names reset config accept dclk user success]:
  obtains
    (reset) "fst (upto_step5 dev debug s0) = Some EXIT_FAILURE"
      "loadFPGA dev rbf_data rbf_size debug s0 = (EXIT_FAILURE, snd (upto_step5 dev debug s0))"
  | (config) "fst (upto_step5 dev debug s0) = None"
      "fst (upto_step7 dev debug s0) = Some EXIT_FAILURE"
      "loadFPGA dev rbf_data rbf_size debug s0 = (EXIT_FAILURE, snd (upto_step7 dev debug s0))"
  | (accept) "fst (upto_step5 dev debug s0) = None"
      "fst (upto_step7 dev debug s0) = None"
      "fst (upto_step11 dev rbf_data rbf_size debug s0) = Some EXIT_FAILURE"
      "loadFPGA dev rbf_data rbf_size debug s0 =
         (EXIT_FAILURE, snd (snd (upto_step11 dev rbf_data rbf_size debug s0)))"
  | (dclk) "fst (upto_step5 dev debug s0) = None"
      "fst (upto_step7 dev debug s0) = None"
      "fst (upto_step11 dev rbf_data rbf_size debug s0) = None"
      "fst (upto_step14 dev rbf_data rbf_size debug s0) = Some EXIT_FAILURE"
      "loadFPGA dev rbf_data rbf_size debug s0 =
         (EXIT_FAILURE, snd (upto_step14 dev rbf_data rbf_size debug s0))"
  | (user) "fst (upto_step5 dev debug s0) = None"
      "fst (upto_step7 dev debug s0) = None"
      "fst (upto_step11 dev rbf_data rbf_size debug s0) = None"
      "fst (upto_step14 dev rbf_data rbf_size debug s0) = None"
      "fst (upto_step16 dev rbf_data rbf_size debug s0) = Some EXIT_FAILURE"
      "loadFPGA dev rbf_data rbf_size debug s0 =
         (EXIT_FAILURE, snd (upto_step16 dev rbf_data rbf_size debug s0))"
  | (success) "fst (upto_step5 dev debug s0) = None"
      "fst (upto_step7 dev debug s0) = None"
      "fst (upto_step11 dev rbf_data rbf_size debug s0) = None"
      "fst (upto_step14 dev rbf_data rbf_size debug s0) = None"
      "fst (upto_step16 dev rbf_data rbf_size debug s0) = None"
      "loadFPGA dev rbf_data rbf_size debug s0 =
         (EXIT_SUCCESS, step17 dev (snd (upto_step16 dev rbf_data rbf_size debug s0)))"
  using upto_codes(1) [of dev debug s0] upto_codes(2) [of dev debug s0]
    upto_codes(3) [of dev rbf_data rbf_size debug s0]
    upto_codes(4) [of dev rbf_data rbf_size debug s0]
    upto_codes(5) [of dev rbf_data rbf_size debug s0]
  by (auto simp add: loadFPGA_exits)


lemma writes_to_data_image:
  "length rbf_data = n \<Longrightarrow>
   writes_to Fpgamgr_data (map (\<lambda>k. Wr Fpgamgr_data (rbf_data ! k)) [0 ..< n]) = rbf_data"
proof -
  have a: "writes_to Fpgamgr_data (map (Wr Fpgamgr_data) xs) = xs" for xs
    by (induction xs) simp_all
  assume "length rbf_data = n"
  then have "map (\<lambda>k. rbf_data ! k) [0 ..< n] = rbf_data"
    using map_nth [of rbf_data] by simp
  then have "map (Wr Fpgamgr_data) (map (\<lambda>k. rbf_data ! k) [0 ..< n]) = map (Wr Fpgamgr_data) rbf_data"
    by (rule arg_cong)
  then have "map (\<lambda>k. Wr Fpgamgr_data (rbf_data ! k)) [0 ..< n] = map (Wr Fpgamgr_data) rbf_data"
    by (simp add: comp_def)
  with a show ?thesis by simp
qed


lemma writes_to_steps [simp]:
  "writes_to r (hw (check_msel dev s)) = writes_to r (hw s)"
  "writes_to r (hw (step0a s)) = writes_to r (hw s) @ (if r = Module then [0] else [])"
  "writes_to r (hw (step1 dev s)) =
     writes_to r (hw s) @ (if r = Ctrl then [0x01 OR (dev (hw s) Ctrl AND 0x02c0)] else [])"
  "writes_to r (hw (step2 dev s)) =
     writes_to r (hw s) @ (if r = Ctrl then [dev (hw s) Ctrl AND NOT nce] else [])"
  "writes_to r (hw (step3 dev s)) =
     writes_to r (hw s) @ (if r = Ctrl then [dev (hw s) Ctrl OR en] else [])"
  "writes_to r (hw (step4 dev s)) =
     writes_to r (hw s) @ (if r = Ctrl then [dev (hw s) Ctrl OR nconfigpull] else [])"
  "writes_to r (hw (step6 dev s)) =
     writes_to r (hw s) @ (if r = Ctrl then [dev (hw s) Ctrl AND NOT nconfigpull] else [])"
  "writes_to r (hw (step8 s)) = writes_to r (hw s) @ (if r = Gpio_porta_eoi then [0x00000fff] else [])"
  "writes_to r (hw (step9 dev s)) =
     writes_to r (hw s) @ (if r = Ctrl then [dev (hw s) Ctrl OR axicfgen] else [])"
  "writes_to r (hw (step12 dev s)) =
     writes_to r (hw s) @ (if r = Ctrl then [dev (hw s) Ctrl AND NOT axicfgen] else [])"
  "writes_to r (hw (step13a dev s)) =
     writes_to r (hw s) @ (if r = Dclkstat \<and> dev (hw s) Dclkstat \<noteq> 0 then [1] else [])"
  "writes_to r (hw (step13b s)) = writes_to r (hw s) @ (if r = Dclkcnt then [4] else [])"
  "writes_to r (hw (step15 s)) = writes_to r (hw s) @ (if r = Dclkstat then [1] else [])"
  "writes_to r (hw (step17 dev s)) =
     writes_to r (hw s) @ (if r = Ctrl then [dev (hw s) Ctrl AND NOT en] else [])"
  by (simp_all add: writes_to_writes)

lemma writes_to_polls [simp]:
  "writes_to r (hw (wait_mode dev mode i s)) = writes_to r (hw s)"
  "writes_to r (hw (snd (step5 dev debug s))) = writes_to r (hw s)"
  "writes_to r (hw (snd (step7 dev debug s))) = writes_to r (hw s)"
  "writes_to r (hw (snd (snd (step11 dev debug s)))) = writes_to r (hw s)"
  "writes_to r (hw (snd (step14 dev status s))) = writes_to r (hw s)"
  "writes_to r (hw (snd (step16 dev debug s))) = writes_to r (hw s)"
  by (simp_all add: writes_to_writes)

lemma step10_from_start:
  "writes_to r (hw (step10 rbf_data 0 rbf_size 0 s)) =
     writes_to r (hw s) @
     (if r = Fpgamgr_data then map (\<lambda>k. rbf_data ! k) [0 ..< unat rbf_size] else [])"
  "fetched (step10 rbf_data 0 rbf_size 0 s) = fetched s @ [0 ..< unat rbf_size]"
  by (simp_all add: writes_to_writes step10_writes step10_fetched comp_def)

lemma upto_step4_simps [simp]:
  "writes_to Fpgamgr_data (hw (upto_step4 dev start)) = []"
  "writes_to Gpio_porta_eoi (hw (upto_step4 dev start)) = []"
  "fetched (upto_step4 dev start) = []"
  "reads_of Gpio_ext_porta (hw (upto_step4 dev start)) = []"
  by (simp_all add: upto_step4_def start_def)

lemma upto_step5_simps [simp]:
  "writes_to Fpgamgr_data (hw (snd (upto_step5 dev debug start))) = []"
  "writes_to Gpio_porta_eoi (hw (snd (upto_step5 dev debug start))) = []"
  "fetched (snd (upto_step5 dev debug start)) = []"
  "reads_of Gpio_ext_porta (hw (snd (upto_step5 dev debug start))) = []"
  by (simp_all add: upto_step5_def)

lemma upto_step7_simps [simp]:
  "writes_to Fpgamgr_data (hw (snd (upto_step7 dev debug start))) = []"
  "writes_to Gpio_porta_eoi (hw (snd (upto_step7 dev debug start))) = []"
  "fetched (snd (upto_step7 dev debug start)) = []"
  "reads_of Gpio_ext_porta (hw (snd (upto_step7 dev debug start))) = []"
  by (simp_all add: upto_step7_def)

lemma upto_step10_simps [simp]:
  "writes_to Fpgamgr_data (hw (upto_step10 dev rbf_data rbf_size debug start)) =
     map (\<lambda>k. rbf_data ! k) [0 ..< unat rbf_size]"
  "writes_to Gpio_porta_eoi (hw (upto_step10 dev rbf_data rbf_size debug start)) = [0x00000fff]"
  "fetched (upto_step10 dev rbf_data rbf_size debug start) = [0 ..< unat rbf_size]"
  "reads_of Gpio_ext_porta (hw (upto_step10 dev rbf_data rbf_size debug start)) = []"
  by (simp_all add: upto_step10_def step10_from_start)

lemma upto_step11_simps [simp]:
  "writes_to Fpgamgr_data (hw (snd (snd (upto_step11 dev rbf_data rbf_size debug start)))) =
     map (\<lambda>k. rbf_data ! k) [0 ..< unat rbf_size]"
  "writes_to Gpio_porta_eoi (hw (snd (snd (upto_step11 dev rbf_data rbf_size debug start)))) = [0x00000fff]"
  "fetched (snd (snd (upto_step11 dev rbf_data rbf_size debug start))) = [0 ..< unat rbf_size]"
  by (simp_all add: upto_step11_def)

lemma upto_step14_simps [simp]:
  "writes_to Fpgamgr_data (hw (snd (upto_step14 dev rbf_data rbf_size debug start))) =
     map (\<lambda>k. rbf_data ! k) [0 ..< unat rbf_size]"
  "writes_to Gpio_porta_eoi (hw (snd (upto_step14 dev rbf_data rbf_size debug start))) = [0x00000fff]"
  "fetched (snd (upto_step14 dev rbf_data rbf_size debug start)) = [0 ..< unat rbf_size]"
  by (simp_all add: upto_step14_def)

lemma upto_step16_simps [simp]:
  "writes_to Fpgamgr_data (hw (snd (upto_step16 dev rbf_data rbf_size debug start))) =
     map (\<lambda>k. rbf_data ! k) [0 ..< unat rbf_size]"
  "writes_to Gpio_porta_eoi (hw (snd (upto_step16 dev rbf_data rbf_size debug start))) = [0x00000fff]"
  "fetched (snd (upto_step16 dev rbf_data rbf_size debug start)) = [0 ..< unat rbf_size]"
  by (simp_all add: upto_step16_def)

section \<open>Runs on the simulated FPGA manager\<close>

lemmas eval_defs = check_msel_def step0a_def step1_def step2_def step3_def step4_def step5_def
  step6_def step7_def step8_def step9_def step11_def step12_def step13a_def step13b_def step14_def
  step15_def step16_def step17_def read32_def write32_def usleep_def fprintf_def printf_def
  get_msel_def get_state_def debug_state_def sim_dev_def
  en_def nce_def nconfigpull_def axicfgen_def mode_reset_def mode_config_def mode_user_def
  ns_def cd_def dcntdone_def EXIT_FAILURE_def EXIT_SUCCESS_def
  wait_mode_hit wait_mode_miss step10_stop step11_loop_reject step11_loop_done step11_loop_again
  step14_loop_done step14_loop_again

lemma sim_upto_step4:
  "upto_step4 (sim_dev 0 porta) start =
    \<lparr>hw =
      [Rd Stat 82, Wr Module 0, Rd Ctrl 0, Wr Ctrl 1, Rd Ctrl 1, Wr Ctrl 1, Rd Ctrl 1, Wr Ctrl 1,
       Rd Ctrl 1, Wr Ctrl 5],
     out = [], fetched = []\<rparr>"
  by (simp add: upto_step4_def start_def eval_defs)

lemma sim_upto_step5:
  "upto_step5 (sim_dev 0 porta) False start =
    (None, \<lparr>hw =
      [Rd Stat 82, Wr Module 0, Rd Ctrl 0, Wr Ctrl 1, Rd Ctrl 1, Wr Ctrl 1, Rd Ctrl 1, Wr Ctrl 1,
       Rd Ctrl 1, Wr Ctrl 5, Rd Stat 81, Rd Stat 81],
     out = [], fetched = []\<rparr>)"
  by (simp add: upto_step5_def sim_upto_step4 eval_defs)

lemma sim_upto_step7:
  "upto_step7 (sim_dev 0 porta) False start =
    (None, \<lparr>hw =
      [Rd Stat 82, Wr Module 0, Rd Ctrl 0, Wr Ctrl 1, Rd Ctrl 1, Wr Ctrl 1, Rd Ctrl 1, Wr Ctrl 1,
       Rd Ctrl 1, Wr Ctrl 5, Rd Stat 81, Rd Stat 81, Rd Ctrl 5, Wr Ctrl 1, Rd Stat 82, Rd Stat 82],
     out = [], fetched = []\<rparr>)"
  by (simp add: upto_step7_def sim_upto_step5 eval_defs)

lemma sim_upto_step10:
  "upto_step10 (sim_dev 0 porta) rbf_data 0 False start =
    \<lparr>hw =
      [Rd Stat 82, Wr Module 0, Rd Ctrl 0, Wr Ctrl 1, Rd Ctrl 1, Wr Ctrl 1, Rd Ctrl 1, Wr Ctrl 1,
       Rd Ctrl 1, Wr Ctrl 5, Rd Stat 81, Rd Stat 81, Rd Ctrl 5, Wr Ctrl 1, Rd Stat 82, Rd Stat 82,
       Wr Gpio_porta_eoi 4095, Rd Ctrl 1, Wr Ctrl 257],
     out = [], fetched = []\<rparr>"
  by (simp add: upto_step10_def sim_upto_step7 eval_defs)

lemma sim_reaches_streaming: "reaches_streaming (sim_dev 0 porta) False start"
  by (simp add: reaches_streaming_def sim_upto_step5 sim_upto_step7)

lemma low3: "unat ((v::32 word) AND 7) = unat v mod 8"
proof -
  have "v AND 7 = take_bit 3 v" by (simp add: take_bit_eq_mask mask_eq_exp_minus_1)
  then show ?thesis by (simp add: take_bit_eq_mod unat_mod)
qed

lemma low3_cases:
  fixes m :: "32 word"
  assumes "unat m < 8"
  obtains "m = 0" | "m = 1" | "m = 2" | "m = 3" | "m = 4" | "m = 5" | "m = 6" | "m = 7"
proof -
  from assms consider "unat m = 0" | "unat m = 1" | "unat m = 2" | "unat m = 3" | "unat m = 4"
    | "unat m = 5" | "unat m = 6" | "unat m = 7" by linarith
  then show ?thesis
    by cases (use that in \<open>simp_all add: word_unat_eq_iff\<close>)
qed

subsection \<open>Printed lines\<close>

lemma failures_append [simp]: "failures (xs @ ys) = failures xs @ failures ys"
  by (simp add: failures_def)

lemma failures_Nil [simp]: "failures [] = []"
  by (simp add: failures_def)

lemma failures_line [simp]:
  "failures [(f, reset_failed)] = [reset_failed]"
  "failures [(f, config_failed)] = [config_failed]"
  "failures [(f, init_failed)] = [init_failed]"
  "failures [(f, dclk_failed)] = [dclk_failed]"
  "failures [(f, user_failed)] = [user_failed]"
  by (simp_all add: failures_def failure_lines_def)

lemma failures_msel_warning [simp]: "failures [(f, msel_warning)] = []"
  by (simp add: failures_def failure_lines_def msel_warning_def reset_failed_def config_failed_def
        init_failed_def dclk_failed_def user_failed_def PROGNAME_def)

lemma print_state_name_labels:
  "fst (print_state_name dev s) \<in>
     {''Off'', ''Reset'', ''Configuration'', ''Initialization'', ''User'', ''Undetermined''}"
  by (simp add: print_state_name_def split_beta)

lemma failures_debug_line [simp]:
  "failures [(f, state_line (fst (print_state_name dev s)))] = []"
  using print_state_name_labels [of dev s]
  by (auto simp add: failures_def failure_lines_def reset_failed_def config_failed_def
        init_failed_def dclk_failed_def user_failed_def PROGNAME_def state_line_def)

lemma failure_lines_distinct: "distinct failure_lines"
  by (simp add: failure_lines_def reset_failed_def config_failed_def
        init_failed_def dclk_failed_def user_failed_def PROGNAME_def)

lemma step5_out_fail:
  "fst (step5 dev debug s) = Some EXIT_FAILURE \<Longrightarrow>
   out (snd (step5 dev debug s)) = out s @ [(Stderr, reset_failed)]"
  by (simp add: step5_def Let_def split_beta split: if_splits)

lemma step7_out_fail:
  "fst (step7 dev debug s) = Some EXIT_FAILURE \<Longrightarrow>
   out (snd (step7 dev debug s)) = out s @ [(Stdout, config_failed)]"
  by (simp add: step7_def Let_def split_beta split: if_splits)

lemma step16_out_fail:
  "fst (step16 dev debug s) = Some EXIT_FAILURE \<Longrightarrow>
   out (snd (step16 dev debug s)) = out s @ [(Stdout, user_failed)]"
  by (simp add: step16_def Let_def split_beta split: if_splits)

lemma step14_out_fail:
  "fst (step14 dev status s) = Some EXIT_FAILURE \<Longrightarrow>
   out (snd (step14 dev status s)) = out s @ [(Stdout, dclk_failed)]"
  by (simp add: step14_def Let_def split_beta split: if_splits)

lemma step11_out_fail:
  "fst (step11 dev debug s) = Some EXIT_FAILURE \<Longrightarrow>
   out (snd (snd (step11 dev debug s))) = out s @ [(Stdout, init_failed)]"
  using step11_loop_code [of dev 0 0 s]
  by (auto simp add: step11_def Let_def split_beta step11_loop_out split: if_splits option.splits)

lemma step_failures_ok:
  "fst (step5 dev debug s) = None \<Longrightarrow> failures (out (snd (step5 dev debug s))) = failures (out s)"
  "fst (step7 dev debug s) = None \<Longrightarrow> failures (out (snd (step7 dev debug s))) = failures (out s)"
  "fst (step16 dev debug s) = None \<Longrightarrow> failures (out (snd (step16 dev debug s))) = failures (out s)"
  "fst (step14 dev status s) = None \<Longrightarrow> failures (out (snd (step14 dev status s))) = failures (out s)"
  by (simp_all add: step5_def step7_def step16_def step14_def Let_def split_beta split: if_splits)

lemma step11_failures_ok:
  "fst (step11 dev debug s) = None \<Longrightarrow>
   failures (out (snd (snd (step11 dev debug s)))) = failures (out s)"
  by (auto simp add: step11_def Let_def split_beta step11_loop_out split: if_splits option.splits)

lemma upto_step4_out:
  "out (upto_step4 dev start) =
     (if drop_bit 3 (dev [] Stat) AND 0x1f \<noteq> 0x0a then [(Stderr, msel_warning)] else [])"
  by (simp add: upto_step4_def start_def)

lemma upto_step4_failures [simp]: "failures (out (upto_step4 dev start)) = []"
  by (simp add: upto_step4_out)

subsection \<open>A mode that never shows\<close>

lemma wait_mode_never:
  assumes "\<forall>tr. drop_bit 0 (dev tr Stat) AND 0x07 \<noteq> mode"
  shows "i \<le> 1000 \<Longrightarrow>
         length (reads_of Stat (hw (wait_mode dev mode i s))) =
           length (reads_of Stat (hw s)) + nat (1000 - i) \<and>
         sleeps (hw (wait_mode dev mode i s)) = sleeps (hw s) @ replicate (nat (1000 - i)) 10"
proof (induction i s rule: wait_mode_induct [of _ dev mode])
  case (over i s)
  then show ?case by (simp add: wait_mode_over)
next
  case (hit i s)
  with assms show ?case by simp
next
  case (miss i s)
  from miss(1) have "nat (1000 - i) = Suc (nat (999 - i))" by simp
  with miss show ?case
    by (simp add: wait_mode_miss del: get_state_simps(1))
qed

subsection \<open>The history up to step 5\<close>

lemma hw_before_step1: "hw (step0a (check_msel dev start)) = [Rd Stat (dev [] Stat), Wr Module 0]"
  by (simp add: step0a_def check_msel_def split_beta start_def)

lemma upto_step4_observed:
  "map fst (writes (hw (upto_step4 dev start))) = [Module, Ctrl, Ctrl, Ctrl, Ctrl]"
  "reads_of Stat (hw (upto_step4 dev start)) = [dev [] Stat]"
  "sleeps (hw (upto_step4 dev start)) = []"
  "hd (writes_to Ctrl (hw (upto_step4 dev start))) =
     0x01 OR (dev [Rd Stat (dev [] Stat), Wr Module 0] Ctrl AND 0x02c0)"
  "writes_to Ctrl (hw (upto_step4 dev start)) \<noteq> []"
  by (simp_all add: upto_step4_def start_def hw_before_step1 step0a_def step1_def step2_def
        step3_def step4_def check_msel_def split_beta)

lemma first_ctrl_write:
  "hd (writes_to Ctrl (hw (snd (loadFPGA dev rbf_data rbf_size debug start)))) =
     0x01 OR (dev [Rd Stat (dev [] Stat), Wr Module 0] Ctrl AND 0x02c0)"
proof -
  have *: "hd (writes_to Ctrl (hw (upto_step4 dev start)) @ ws) =
      0x01 OR (dev [Rd Stat (dev [] Stat), Wr Module 0] Ctrl AND 0x02c0)" for ws
    using upto_step4_observed(4,5) [of dev] by simp
  show ?thesis
    by (cases rule: loadFPGA_cases [of dev debug start rbf_data rbf_size])
       (simp_all add: upto_step5_def upto_step7_def upto_step10_def upto_step11_def
          upto_step14_def upto_step16_def step10_from_start * * [of "[]", simplified]
          del: append_assoc add: append_assoc [symmetric])
qed

lemma step11_loop_first_sample:
  "i < 1000 \<Longrightarrow>
   \<exists>rest. reads_of Gpio_ext_porta (hw (snd (snd (step11_loop dev i status s)))) =
     reads_of Gpio_ext_porta (hw s) @ dev (hw s) Gpio_ext_porta # rest"
proof -
  assume less: "i < 1000"
  consider "dev (hw s) Gpio_ext_porta AND (cd OR ns) = 0"
    | "dev (hw s) Gpio_ext_porta AND (cd OR ns) = (cd OR ns)"
    | "dev (hw s) Gpio_ext_porta AND (cd OR ns) \<noteq> 0"
      "dev (hw s) Gpio_ext_porta AND (cd OR ns) \<noteq> (cd OR ns)"
    by blast
  then show ?thesis
  proof cases
    case 1
    with less show ?thesis by (simp add: step11_loop_reject)
  next
    case 2
    with less show ?thesis by (simp add: step11_loop_done)
  next
    case 3
    obtain evs where "hw (snd (snd (step11_loop dev (i + 1) (dev (hw s) Gpio_ext_porta AND (cd OR ns))
        (usleep 10 (snd (read32 dev Gpio_ext_porta s)))))) =
        hw (usleep 10 (snd (read32 dev Gpio_ext_porta s))) @ evs"
      using step11_loop_grows by blast
    with less 3 show ?thesis by (simp add: step11_loop_again)
  qed
qed

lemma step11_reads_porta:
  "reads_of Gpio_ext_porta (hw (snd (snd (step11 dev debug s)))) =
   reads_of Gpio_ext_porta (hw (snd (snd (step11_loop dev 0 0 s))))"
  by (simp add: step11_def Let_def split_beta split: option.splits)

lemma step14_reads_other [simp]:
  "r \<noteq> Dclkstat \<Longrightarrow> reads_of r (hw (snd (step14 dev status s))) = reads_of r (hw s)"
  by (simp add: step14_def Let_def split_beta)

lemma upto_step11_first_sample:
  "\<exists>rest. reads_of Gpio_ext_porta (hw (snd (snd (upto_step11 dev rbf_data rbf_size debug start)))) =
     dev (hw (upto_step10 dev rbf_data rbf_size debug start)) Gpio_ext_porta # rest"
  using step11_loop_first_sample [of 0 dev 0 "upto_step10 dev rbf_data rbf_size debug start"]
  by (simp add: upto_step11_def step11_reads_porta)

section \<open>More runs on the simulated FPGA manager\<close>

lemma slow_upto_step11:
  "upto_step11 slow_dev rbf_data 0 False start =
    (None, 3,
     \<lparr>hw =
      [Rd Stat 82, Wr Module 0, Rd Ctrl 0, Wr Ctrl 1, Rd Ctrl 1, Wr Ctrl 1, Rd Ctrl 1,
       Wr Ctrl 1, Rd Ctrl 1, Wr Ctrl 5, Rd Stat 81, Rd Stat 81, Rd Ctrl 5, Wr Ctrl 1,
       Rd Stat 82, Rd Stat 82, Wr Gpio_porta_eoi 4095, Rd Ctrl 1, Wr Ctrl 257,
       Rd Gpio_ext_porta 1, Usleep 10, Rd Gpio_ext_porta 3], out = [], fetched = []\<rparr>)"
  by (simp add: upto_step11_def slow_dev_def sim_upto_step10 eval_defs)

lemma slow_upto_step14:
  "upto_step14 slow_dev rbf_data 0 False start =
    (None,
     \<lparr>hw =
      [Rd Stat 82, Wr Module 0, Rd Ctrl 0, Wr Ctrl 1, Rd Ctrl 1, Wr Ctrl 1, Rd Ctrl 1,
       Wr Ctrl 1, Rd Ctrl 1, Wr Ctrl 5, Rd Stat 81, Rd Stat 81, Rd Ctrl 5, Wr Ctrl 1,
       Rd Stat 82, Rd Stat 82, Wr Gpio_porta_eoi 4095, Rd Ctrl 1, Wr Ctrl 257,
       Rd Gpio_ext_porta 1, Usleep 10, Rd Gpio_ext_porta 3, Rd Ctrl 257, Wr Ctrl 1,
       Rd Dclkstat 0, Wr Dclkcnt 4, Rd Dclkstat 1], out = [], fetched = []\<rparr>)"
  by (simp add: upto_step14_def slow_upto_step11) (simp add: slow_dev_def eval_defs)

lemma slow_upto_step16:
  "upto_step16 slow_dev rbf_data 0 False start =
    (None,
     \<lparr>hw =
      [Rd Stat 82, Wr Module 0, Rd Ctrl 0, Wr Ctrl 1, Rd Ctrl 1, Wr Ctrl 1, Rd Ctrl 1,
       Wr Ctrl 1, Rd Ctrl 1, Wr Ctrl 5, Rd Stat 81, Rd Stat 81, Rd Ctrl 5, Wr Ctrl 1,
       Rd Stat 82, Rd Stat 82, Wr Gpio_porta_eoi 4095, Rd Ctrl 1, Wr Ctrl 257,
       Rd Gpio_ext_porta 1, Usleep 10, Rd Gpio_ext_porta 3, Rd Ctrl 257, Wr Ctrl 1,
       Rd Dclkstat 0, Wr Dclkcnt 4, Rd Dclkstat 1, Wr Dclkstat 1, Rd Stat 84, Rd Stat 84], out = [], fetched = []\<rparr>)"
  by (simp add: upto_step16_def slow_upto_step14) (simp add: slow_dev_def eval_defs)

lemma slow_run:
  "loadFPGA slow_dev rbf_data 0 False start =
    (EXIT_SUCCESS,
     \<lparr>hw =
      [Rd Stat 82, Wr Module 0, Rd Ctrl 0, Wr Ctrl 1, Rd Ctrl 1, Wr Ctrl 1, Rd Ctrl 1,
       Wr Ctrl 1, Rd Ctrl 1, Wr Ctrl 5, Rd Stat 81, Rd Stat 81, Rd Ctrl 5, Wr Ctrl 1,
       Rd Stat 82, Rd Stat 82, Wr Gpio_porta_eoi 4095, Rd Ctrl 1, Wr Ctrl 257,
       Rd Gpio_ext_porta 1, Usleep 10, Rd Gpio_ext_porta 3, Rd Ctrl 257, Wr Ctrl 1,
       Rd Dclkstat 0, Wr Dclkcnt 4, Rd Dclkstat 1, Wr Dclkstat 1, Rd Stat 84, Rd Stat 84,
       Rd Ctrl 1, Wr Ctrl 0], out = [], fetched = []\<rparr>)"
  by (simp add: loadFPGA_exits slow_upto_step16 slow_upto_step14 slow_upto_step11
        sim_upto_step7 [of "[ns, cd OR ns]", folded slow_dev_def]
        sim_upto_step5 [of "[ns, cd OR ns]", folded slow_dev_def])
     (simp add: slow_dev_def eval_defs)

lemma rejecting_upto_step11:
  "upto_step11 rejecting_dev rbf_data 0 False start =
    (Some EXIT_FAILURE, 0,
     \<lparr>hw =
      [Rd Stat 82, Wr Module 0, Rd Ctrl 0, Wr Ctrl 1, Rd Ctrl 1, Wr Ctrl 1, Rd Ctrl 1,
       Wr Ctrl 1, Rd Ctrl 1, Wr Ctrl 5, Rd Stat 81, Rd Stat 81, Rd Ctrl 5, Wr Ctrl 1,
       Rd Stat 82, Rd Stat 82, Wr Gpio_porta_eoi 4095, Rd Ctrl 1, Wr Ctrl 257,
       Rd Gpio_ext_porta 0], out = [(Stdout, init_failed)], fetched = []\<rparr>)"
  by (simp add: upto_step11_def rejecting_dev_def sim_upto_step10 eval_defs)

lemma rejecting_run:
  "loadFPGA rejecting_dev rbf_data 0 False start =
    (EXIT_FAILURE,
     \<lparr>hw =
      [Rd Stat 82, Wr Module 0, Rd Ctrl 0, Wr Ctrl 1, Rd Ctrl 1, Wr Ctrl 1, Rd Ctrl 1,
       Wr Ctrl 1, Rd Ctrl 1, Wr Ctrl 5, Rd Stat 81, Rd Stat 81, Rd Ctrl 5, Wr Ctrl 1,
       Rd Stat 82, Rd Stat 82, Wr Gpio_porta_eoi 4095, Rd Ctrl 1, Wr Ctrl 257,
       Rd Gpio_ext_porta 0], out = [(Stdout, init_failed)], fetched = []\<rparr>)"
  by (simp add: loadFPGA_exits rejecting_upto_step11
        sim_upto_step7 [of "[0]", folded rejecting_dev_def]
        sim_upto_step5 [of "[0]", folded rejecting_dev_def])

section \<open>Lines already printed do not steer the run\<close>

lemma with_lines_simps [simp]:
  "hw (with_lines pre s) = hw s"
  "out (with_lines pre s) = pre @ out s"
  "fetched (with_lines pre s) = fetched s"
  by (simp_all add: with_lines_def)

lemma prim_with_lines:
  "read32 dev r (with_lines pre s) = (fst (read32 dev r s), with_lines pre (snd (read32 dev r s)))"
  "write32 r v (with_lines pre s) = with_lines pre (write32 r v s)"
  "usleep n (with_lines pre s) = with_lines pre (usleep n s)"
  "fprintf f l (with_lines pre s) = with_lines pre (fprintf f l s)"
  "printf l (with_lines pre s) = with_lines pre (printf l s)"
  "fetch rbf_data p (with_lines pre s) = (fst (fetch rbf_data p s), with_lines pre (snd (fetch rbf_data p s)))"
  by (simp_all add: read32_def write32_def usleep_def fprintf_def printf_def fetch_def with_lines_def)

lemma helper_with_lines:
  "get_state dev (with_lines pre s) = (fst (get_state dev s), with_lines pre (snd (get_state dev s)))"
  "get_msel dev (with_lines pre s) = (fst (get_msel dev s), with_lines pre (snd (get_msel dev s)))"
  "print_state_name dev (with_lines pre s) =
     (fst (print_state_name dev s), with_lines pre (snd (print_state_name dev s)))"
  "debug_state dev debug (with_lines pre s) = with_lines pre (debug_state dev debug s)"
  by (simp_all add: get_state_def get_msel_def print_state_name_def debug_state_def split_beta
        prim_with_lines)

lemma step_with_lines:
  "step0a (with_lines pre s) = with_lines pre (step0a s)"
  "step1 dev (with_lines pre s) = with_lines pre (step1 dev s)"
  "step2 dev (with_lines pre s) = with_lines pre (step2 dev s)"
  "step3 dev (with_lines pre s) = with_lines pre (step3 dev s)"
  "step4 dev (with_lines pre s) = with_lines pre (step4 dev s)"
  "step6 dev (with_lines pre s) = with_lines pre (step6 dev s)"
  "step8 (with_lines pre s) = with_lines pre (step8 s)"
  "step9 dev (with_lines pre s) = with_lines pre (step9 dev s)"
  "step12 dev (with_lines pre s) = with_lines pre (step12 dev s)"
  "step13a dev (with_lines pre s) = with_lines pre (step13a dev s)"
  "step13b (with_lines pre s) = with_lines pre (step13b s)"
  "step15 (with_lines pre s) = with_lines pre (step15 s)"
  "step17 dev (with_lines pre s) = with_lines pre (step17 dev s)"
  by (simp_all add: step0a_def step1_def step2_def step3_def step4_def step6_def step8_def
        step9_def step12_def step13a_def step13b_def step15_def step17_def split_beta
        prim_with_lines)

lemma wait_mode_with_lines:
  "wait_mode dev mode i (with_lines pre s) = with_lines pre (wait_mode dev mode i s)"
proof (induction i s rule: wait_mode_induct [of _ dev mode])
  case (over i s)
  then show ?case by (simp add: wait_mode_over)
next
  case (hit i s)
  then show ?case by (simp add: wait_mode_hit helper_with_lines)
next
  case (miss i s)
  then show ?case by (simp add: wait_mode_miss helper_with_lines prim_with_lines)
qed

lemma step10_with_lines:
  "step10 rbf_data p rbf_size i (with_lines pre s) = with_lines pre (step10 rbf_data p rbf_size i s)"
proof (induction p i s rule: step10_induct [where rbf_size = rbf_size and rbf_data = rbf_data])
  case (stop p i s)
  then show ?case by (simp add: step10_stop)
next
  case (go p i s)
  then show ?case by (simp add: step10_go prim_with_lines)
qed

lemma step11_loop_with_lines:
  "step11_loop dev i status (with_lines pre s) =
     (fst (step11_loop dev i status s), fst (snd (step11_loop dev i status s)),
      with_lines pre (snd (snd (step11_loop dev i status s))))"
proof (induction i status s rule: step11_loop_induct [where dev = dev])
  case (over i status s)
  then show ?case by (simp add: step11_loop_over)
next
  case (reject i status s)
  then show ?case by (simp add: step11_loop_reject prim_with_lines)
next
  case (both i status s)
  then show ?case by (simp add: step11_loop_done prim_with_lines)
next
  case (again i status s)
  then show ?case by (simp add: step11_loop_again prim_with_lines)
qed

lemma step14_loop_with_lines:
  "step14_loop dev i status (with_lines pre s) =
     (fst (step14_loop dev i status s), with_lines pre (snd (step14_loop dev i status s)))"
proof (induction i status s rule: step14_loop_induct [where dev = dev])
  case (over i status s)
  then show ?case by (simp add: step14_loop_over)
next
  case (hit i status s)
  then show ?case by (simp add: step14_loop_done prim_with_lines)
next
  case (again i status s)
  then show ?case by (simp add: step14_loop_again prim_with_lines)
qed

lemma poll_with_lines:
  "step5 dev debug (with_lines pre s) = (fst (step5 dev debug s), with_lines pre (snd (step5 dev debug s)))"
  "step7 dev debug (with_lines pre s) = (fst (step7 dev debug s), with_lines pre (snd (step7 dev debug s)))"
  "step16 dev debug (with_lines pre s) = (fst (step16 dev debug s), with_lines pre (snd (step16 dev debug s)))"
  "step14 dev status (with_lines pre s) = (fst (step14 dev status s), with_lines pre (snd (step14 dev status s)))"
  "step11 dev debug (with_lines pre s) =
     (fst (step11 dev debug s), fst (snd (step11 dev debug s)), with_lines pre (snd (snd (step11 dev debug s))))"
  by (simp_all add: step5_def step7_def step16_def step14_def step11_def Let_def split_beta
        wait_mode_with_lines helper_with_lines prim_with_lines step11_loop_with_lines
        step14_loop_with_lines split: option.splits)

lemma configure_with_lines:
  "configure dev rbf_data rbf_size debug (with_lines pre s) =
     (fst (configure dev rbf_data rbf_size debug s),
      with_lines pre (snd (configure dev rbf_data rbf_size debug s)))"
  by (simp add: configure_def Let_def split_beta step_with_lines poll_with_lines step10_with_lines
        split: option.splits)

lemma check_msel_with_lines:
  "check_msel dev s =
     with_lines [] (if fst (get_msel dev s) \<noteq> 0x0a then fprintf Stderr msel_warning (snd (get_msel dev s)) else snd (get_msel dev s))"
  by (simp add: check_msel_def split_beta with_lines_def)

section \<open>The enable bit\<close>

lemma en_bit:
  "(x OR en) AND en = en"
  "(x OR nconfigpull) AND en = x AND en"
  "(x AND NOT nconfigpull) AND en = x AND en"
  "(x OR axicfgen) AND en = x AND en"
  "(x AND NOT axicfgen) AND en = x AND en"
  "(x AND NOT en) AND en = 0"
  by (simp_all add: en_def nconfigpull_def axicfgen_def bit.conj_disj_distrib2 word_bw_assocs)

lemma en_held_upto_step4:
  assumes "ctrl_latches dev"
  shows "en_held (hw (upto_step4 dev start))"
proof -
  define s2 where "s2 = step2 dev (step1 dev (step0a (check_msel dev start)))"
  have w3: "writes_to Ctrl (hw (step3 dev s2)) = writes_to Ctrl (hw s2) @ [dev (hw s2) Ctrl OR en]"
    by simp
  with assms have "dev (hw (step3 dev s2)) Ctrl = dev (hw s2) Ctrl OR en"
    by (simp add: ctrl_latches_def)
  then have "writes_to Ctrl (hw (step4 dev (step3 dev s2))) =
      writes_to Ctrl (hw s2) @ [dev (hw s2) Ctrl OR en, (dev (hw s2) Ctrl OR en) OR nconfigpull]"
    using w3 by simp
  then show ?thesis
    by (simp add: en_held_def upto_step4_def s2_def [symmetric] en_bit)
qed

lemma en_held_rmw:
  assumes "ctrl_latches dev" and "en_held (hw s)"
  shows "en_held (hw (step6 dev s))" and "en_held (hw (step9 dev s))" and "en_held (hw (step12 dev s))"
proof -
  from assms have "dev (hw s) Ctrl = last (writes_to Ctrl (hw s))"
    by (simp add: ctrl_latches_def en_held_def)
  with assms(2) have "dev (hw s) Ctrl AND en = en" by (simp add: en_held_def)
  then show "en_held (hw (step6 dev s))" and "en_held (hw (step9 dev s))"
    and "en_held (hw (step12 dev s))"
    by (simp_all add: en_held_def en_bit)
qed

lemma en_held_others [simp]:
  "en_held (hw (snd (step5 dev debug s))) = en_held (hw s)"
  "en_held (hw (snd (step7 dev debug s))) = en_held (hw s)"
  "en_held (hw (snd (snd (step11 dev debug s)))) = en_held (hw s)"
  "en_held (hw (snd (step14 dev status s))) = en_held (hw s)"
  "en_held (hw (snd (step16 dev debug s))) = en_held (hw s)"
  "en_held (hw (step8 s)) = en_held (hw s)"
  "en_held (hw (step10 rbf_data 0 rbf_size 0 s)) = en_held (hw s)"
  "en_held (hw (step13a dev s)) = en_held (hw s)"
  "en_held (hw (step13b s)) = en_held (hw s)"
  "en_held (hw (step15 s)) = en_held (hw s)"
  by (simp_all add: en_held_def step10_from_start)

lemma en_held_upto:
  assumes "ctrl_latches dev"
  shows "en_held (hw (snd (upto_step5 dev debug start)))"
    and "en_held (hw (snd (upto_step7 dev debug start)))"
    and "en_held (hw (snd (snd (upto_step11 dev rbf_data rbf_size debug start))))"
    and "en_held (hw (snd (upto_step14 dev rbf_data rbf_size debug start)))"
    and "en_held (hw (snd (upto_step16 dev rbf_data rbf_size debug start)))"
proof -
  show 5: "en_held (hw (snd (upto_step5 dev debug start)))"
    using en_held_upto_step4 [OF assms] by (simp add: upto_step5_def)
  show 7: "en_held (hw (snd (upto_step7 dev debug start)))"
    using en_held_rmw(1) [OF assms 5] by (simp add: upto_step7_def)
  show 11: "en_held (hw (snd (snd (upto_step11 dev rbf_data rbf_size debug start))))"
    using en_held_rmw(2) [OF assms, of "step8 (snd (upto_step7 dev debug start))"] 7
    by (simp add: upto_step11_def upto_step10_def)
  show 14: "en_held (hw (snd (upto_step14 dev rbf_data rbf_size debug start)))"
    using en_held_rmw(3) [OF assms 11] by (simp add: upto_step14_def)
  show "en_held (hw (snd (upto_step16 dev rbf_data rbf_size debug start)))"
    using 14 by (simp add: upto_step16_def)
qed

section \<open>The last access of a run\<close>

lemma mode_poll_fail_last:
  "fst (step5 dev debug s) = Some EXIT_FAILURE \<Longrightarrow> \<not> is_write (last (hw (snd (step5 dev debug s))))"
  "fst (step7 dev debug s) = Some EXIT_FAILURE \<Longrightarrow> \<not> is_write (last (hw (snd (step7 dev debug s))))"
  "fst (step16 dev debug s) = Some EXIT_FAILURE \<Longrightarrow> \<not> is_write (last (hw (snd (step16 dev debug s))))"
  by (simp_all add: step5_def step7_def step16_def Let_def split_beta split: if_splits)

lemma step11_loop_last:
  "i < 1000 \<or> \<not> is_write (last (hw s)) \<Longrightarrow>
   \<not> is_write (last (hw (snd (snd (step11_loop dev i status s)))))"
  by (induction i status s rule: step11_loop_induct [where dev = dev])
     (simp_all add: step11_loop_turn)

lemma step14_loop_last:
  "i < 100 \<or> \<not> is_write (last (hw s)) \<Longrightarrow>
   \<not> is_write (last (hw (snd (step14_loop dev i status s))))"
  by (induction i status s rule: step14_loop_induct [where dev = dev])
     (simp_all add: step14_loop_turn)

lemma step11_fail_last:
  "fst (step11 dev debug s) = Some EXIT_FAILURE \<Longrightarrow>
   \<not> is_write (last (hw (snd (snd (step11 dev debug s)))))"
  using step11_loop_last [of 0 s dev 0]
  by (auto simp add: step11_def Let_def split_beta split: option.splits if_splits)

lemma step14_fail_last:
  "fst (step14 dev status s) = Some EXIT_FAILURE \<Longrightarrow>
   \<not> is_write (last (hw (snd (step14 dev status s))))"
  using step14_loop_last [of 0 s dev status]
  by (auto simp add: step14_def Let_def split_beta split: if_splits)

lemma step17_hw:
  "hw (step17 dev s) = hw s @ [Rd Ctrl (dev (hw s) Ctrl), Wr Ctrl (dev (hw s) Ctrl AND NOT en)]"
  by (simp add: step17_def split_beta)

lemma exit_codes_differ: "EXIT_SUCCESS \<noteq> EXIT_FAILURE"
  by (simp add: EXIT_SUCCESS_def EXIT_FAILURE_def)

lemma sim_dev_latches: "ctrl_latches (sim_dev c0 porta)"
  by (simp add: ctrl_latches_def sim_dev_def)

section \<open>What a run prints\<close>

lemma upto_failures:
  "fst (upto_step5 dev debug start) = None \<Longrightarrow>
   failures (out (snd (upto_step5 dev debug start))) = []"
  "fst (upto_step5 dev debug start) = None \<Longrightarrow> fst (upto_step7 dev debug start) = None \<Longrightarrow>
   failures (out (snd (upto_step7 dev debug start))) = []"
  "fst (upto_step5 dev debug start) = None \<Longrightarrow> fst (upto_step7 dev debug start) = None \<Longrightarrow>
   failures (out (upto_step10 dev rbf_data rbf_size debug start)) = []"
  by (simp_all add: upto_step5_def upto_step7_def upto_step10_def step_failures_ok)

lemma upto_failures_late:
  assumes "fst (upto_step5 dev debug start) = None" and "fst (upto_step7 dev debug start) = None"
    and "fst (upto_step11 dev rbf_data rbf_size debug start) = None"
  shows "failures (out (snd (snd (upto_step11 dev rbf_data rbf_size debug start)))) = []"
    and "fst (upto_step14 dev rbf_data rbf_size debug start) = None \<Longrightarrow>
         failures (out (snd (upto_step14 dev rbf_data rbf_size debug start))) = []"
    and "fst (upto_step14 dev rbf_data rbf_size debug start) = None \<Longrightarrow>
         fst (upto_step16 dev rbf_data rbf_size debug start) = None \<Longrightarrow>
         failures (out (snd (upto_step16 dev rbf_data rbf_size debug start))) = []"
proof -
  show 11: "failures (out (snd (snd (upto_step11 dev rbf_data rbf_size debug start)))) = []"
    using assms upto_failures(3) [of dev debug rbf_data rbf_size]
    by (simp add: upto_step11_def step11_failures_ok)
  show 14: "failures (out (snd (upto_step14 dev rbf_data rbf_size debug start))) = []"
    if "fst (upto_step14 dev rbf_data rbf_size debug start) = None"
    using that 11 by (simp add: upto_step14_def step_failures_ok)
  show "failures (out (snd (upto_step16 dev rbf_data rbf_size debug start))) = []"
    if "fst (upto_step14 dev rbf_data rbf_size debug start) = None"
      and "fst (upto_step16 dev rbf_data rbf_size debug start) = None"
    using that 14 by (simp add: upto_step16_def step_failures_ok)
qed

lemma upto_out_fail:
  "fst (upto_step5 dev debug start) = Some EXIT_FAILURE \<Longrightarrow>
   out (snd (upto_step5 dev debug start)) = out (upto_step4 dev start) @ [(Stderr, reset_failed)]"
  "fst (upto_step7 dev debug start) = Some EXIT_FAILURE \<Longrightarrow>
   out (snd (upto_step7 dev debug start)) =
     out (snd (upto_step5 dev debug start)) @ [(Stdout, config_failed)]"
  "fst (upto_step11 dev rbf_data rbf_size debug start) = Some EXIT_FAILURE \<Longrightarrow>
   out (snd (snd (upto_step11 dev rbf_data rbf_size debug start))) =
     out (upto_step10 dev rbf_data rbf_size debug start) @ [(Stdout, init_failed)]"
  "fst (upto_step14 dev rbf_data rbf_size debug start) = Some EXIT_FAILURE \<Longrightarrow>
   out (snd (upto_step14 dev rbf_data rbf_size debug start)) =
     out (snd (snd (upto_step11 dev rbf_data rbf_size debug start))) @ [(Stdout, dclk_failed)]"
  "fst (upto_step16 dev rbf_data rbf_size debug start) = Some EXIT_FAILURE \<Longrightarrow>
   out (snd (upto_step16 dev rbf_data rbf_size debug start)) =
     out (snd (upto_step14 dev rbf_data rbf_size debug start)) @ [(Stdout, user_failed)]"
  by (simp_all add: upto_step5_def upto_step7_def upto_step11_def upto_step14_def upto_step16_def
        step5_out_fail step7_out_fail step11_out_fail step14_out_fail step16_out_fail)

lemma step16_reads_user:
  "fst (step16 dev debug s) = None \<Longrightarrow>
   \<exists>v \<in> set (reads_of Stat (hw (snd (step16 dev debug s)))). drop_bit 0 v AND 0x07 = mode_user"
  by (auto simp add: step16_def Let_def split_beta split: if_splits)

lemma failure_line_inj: "failure_line p = failure_line q \<Longrightarrow> p = q"
  using failure_lines_distinct
  by (cases p; cases q) (simp_all add: failure_lines_def)

lemma never_reset_exit:
  assumes "never_reset dev"
  shows "loadFPGA dev rbf_data rbf_size debug start = (EXIT_FAILURE, snd (upto_step5 dev debug start))"
    and "out (snd (upto_step5 dev debug start)) = out (upto_step4 dev start) @ [(Stderr, reset_failed)]"
proof -
  from assms have "fst (upto_step5 dev debug start) = Some EXIT_FAILURE"
    by (simp add: never_reset_def upto_step5_def step5_code)
  then show "loadFPGA dev rbf_data rbf_size debug start = (EXIT_FAILURE, snd (upto_step5 dev debug start))"
    and "out (snd (upto_step5 dev debug start)) = out (upto_step4 dev start) @ [(Stderr, reset_failed)]"
    by (cases rule: loadFPGA_cases [of dev debug start rbf_data rbf_size]; simp add: upto_out_fail)+
qed

lemma dead_dev_never_reset: "never_reset dead_dev"
  by (simp add: never_reset_def dead_dev_def mode_reset_def)

section \<open>The accesses of the polls\<close>

lemma added_eq: "hw s' = hw s @ evs \<Longrightarrow> added s s' = evs"
  by (simp add: added_def)

lemma step11_loop_shape:
  "i < 1000 \<longrightarrow>
   (\<exists>evs. hw (snd (snd (step11_loop dev i status s))) = hw s @ evs \<and>
          shape11 i (fst (step11_loop dev i status s)) (fst (snd (step11_loop dev i status s))) evs)"
proof (induction i status s rule: step11_loop_induct [where dev = dev])
  case (over i status s)
  then show ?case by simp
next
  case (reject i status s)
  then have "shape11 i (Some EXIT_FAILURE) 0 [Rd Gpio_ext_porta (dev (hw s) Gpio_ext_porta)]"
    by (simp add: shape11_def)
  with reject show ?case by (simp add: step11_loop_reject)
next
  case (both i status s)
  then have "shape11 i None (cd OR ns) [Rd Gpio_ext_porta (dev (hw s) Gpio_ext_porta)]"
    by (simp add: shape11_def cd_def ns_def)
  with both show ?case by (simp add: step11_loop_done)
next
  case (again i status s)
  define x where "x = dev (hw s) Gpio_ext_porta AND (cd OR ns)"
  define s1 where "s1 = usleep 10 (snd (read32 dev Gpio_ext_porta s))"
  have hw1: "hw s1 = hw s @ [Rd Gpio_ext_porta (dev (hw s) Gpio_ext_porta), Usleep 10]"
    by (simp add: s1_def)
  from again have x: "x \<noteq> 0" "x \<noteq> (cd OR ns)" by (simp_all add: x_def)
  from again have turn: "step11_loop dev i status s = step11_loop dev (i + 1) x s1"
    by (simp add: step11_loop_again x_def s1_def)
  show ?case
  proof (cases "i + 1 < 1000")
    case False
    with again(1) have i: "i = 999" by simp
    from False have "step11_loop dev (i + 1) x s1 = (None, x, s1)"
      by (simp add: step11_loop_over)
    moreover have "shape11 i None x [Rd Gpio_ext_porta (dev (hw s) Gpio_ext_porta), Usleep 10]"
      using x by (simp add: shape11_def i x_def [symmetric])
    ultimately show ?thesis by (simp add: turn hw1)
  next
    case True
    with again(4) obtain evs where evs: "hw (snd (snd (step11_loop dev (i + 1) x s1))) = hw s1 @ evs"
      and shape: "shape11 (i + 1) (fst (step11_loop dev (i + 1) x s1))
          (fst (snd (step11_loop dev (i + 1) x s1))) evs"
      by (auto simp add: x_def s1_def)
    define xs where "xs = map (\<lambda>v. v AND (cd OR ns)) (reads_of Gpio_ext_porta evs)"
    from shape have ne: "xs \<noteq> []" by (simp add: shape11_def xs_def Let_def)
    then have "evs \<noteq> []" by (auto simp add: xs_def)
    from True have n: "nat (1000 - i) = Suc (nat (1000 - (i + 1)))" by simp
    have "shape11 i (fst (step11_loop dev (i + 1) x s1)) (fst (snd (step11_loop dev (i + 1) x s1)))
        ([Rd Gpio_ext_porta (dev (hw s) Gpio_ext_porta), Usleep 10] @ evs)"
      using shape ne \<open>evs \<noteq> []\<close> x
      unfolding shape11_def Let_def xs_def [symmetric] n
      by (simp add: xs_def [symmetric] x_def [symmetric] butlast_append split: if_splits)
    with evs show ?thesis by (simp add: turn hw1)
  qed
qed


lemma step14_loop_shape:
  "i < 100 \<longrightarrow>
   (\<exists>evs. hw (snd (step14_loop dev i status s)) = hw s @ evs \<and>
          shape14 i (fst (step14_loop dev i status s)) evs)"
proof (induction i status s rule: step14_loop_induct [where dev = dev])
  case (over i status s)
  then show ?case by simp
next
  case (hit i status s)
  then have "shape14 i dcntdone [Rd Dclkstat (dev (hw s) Dclkstat)]"
    by (simp add: shape14_def)
  with hit show ?case by (simp add: step14_loop_done)
next
  case (again i status s)
  define x where "x = dev (hw s) Dclkstat AND dcntdone"
  define s1 where "s1 = usleep 10 (snd (read32 dev Dclkstat s))"
  have hw1: "hw s1 = hw s @ [Rd Dclkstat (dev (hw s) Dclkstat), Usleep 10]"
    by (simp add: s1_def)
  from again have x: "x \<noteq> dcntdone" by (simp add: x_def)
  from again have turn: "step14_loop dev i status s = step14_loop dev (i + 1) x s1"
    by (simp add: step14_loop_again x_def s1_def)
  show ?case
  proof (cases "i + 1 < 100")
    case False
    with again(1) have i: "i = 99" by simp
    from False have "step14_loop dev (i + 1) x s1 = (x, s1)"
      by (simp add: step14_loop_over)
    moreover have "shape14 i x [Rd Dclkstat (dev (hw s) Dclkstat), Usleep 10]"
      using x by (simp add: shape14_def i x_def [symmetric])
    ultimately show ?thesis by (simp add: turn hw1)
  next
    case True
    with again(3) obtain evs where evs: "hw (snd (step14_loop dev (i + 1) x s1)) = hw s1 @ evs"
      and shape: "shape14 (i + 1) (fst (step14_loop dev (i + 1) x s1)) evs"
      by (auto simp add: x_def s1_def)
    define xs where "xs = map (\<lambda>v. v AND dcntdone) (reads_of Dclkstat evs)"
    from shape have ne: "xs \<noteq> []" by (simp add: shape14_def xs_def Let_def)
    then have "evs \<noteq> []" by (auto simp add: xs_def)
    from True have n: "nat (100 - i) = Suc (nat (100 - (i + 1)))" by simp
    have "shape14 i (fst (step14_loop dev (i + 1) x s1))
        ([Rd Dclkstat (dev (hw s) Dclkstat), Usleep 10] @ evs)"
      using shape ne \<open>evs \<noteq> []\<close> x
      unfolding shape14_def Let_def xs_def [symmetric] n
      by (simp add: xs_def [symmetric] x_def [symmetric] butlast_append split: if_splits)
    with evs show ?thesis by (simp add: turn hw1)
  qed
qed


lemma step_mode_hw:
  "hw (snd (step5 dev False s)) =
     hw (wait_mode dev mode_reset 0 s) @ [Rd Stat (dev (hw (wait_mode dev mode_reset 0 s)) Stat)]"
  "hw (snd (step7 dev False s)) =
     hw (wait_mode dev mode_config 0 s) @ [Rd Stat (dev (hw (wait_mode dev mode_config 0 s)) Stat)]"
  "hw (snd (step16 dev False s)) =
     hw (wait_mode dev mode_user 0 s) @ [Rd Stat (dev (hw (wait_mode dev mode_user 0 s)) Stat)]"
  by (simp_all add: step5_def step7_def step16_def Let_def split_beta)

lemma step11_accesses:
  "\<exists>evs. hw (snd (snd (step11 dev debug s))) =
            hw s @ evs @ (if debug \<and> fst (step11 dev debug s) = None
                          then [Rd Stat (dev (hw s @ evs) Stat)] else []) \<and>
          shape11 0 (fst (step11_loop dev 0 0 s)) (fst (snd (step11_loop dev 0 0 s))) evs \<and>
          (fst (step11 dev debug s) = None \<longleftrightarrow> fst (snd (step11_loop dev 0 0 s)) = (cd OR ns)) \<and>
          (fst (step11 dev debug s) = Some EXIT_FAILURE \<longleftrightarrow>
             fst (snd (step11_loop dev 0 0 s)) \<noteq> (cd OR ns))"
proof -
  obtain evs where evs: "hw (snd (snd (step11_loop dev 0 0 s))) = hw s @ evs"
    and shape: "shape11 0 (fst (step11_loop dev 0 0 s)) (fst (snd (step11_loop dev 0 0 s))) evs"
    using step11_loop_shape [of 0 dev 0 s] by auto
  from shape have code: "fst (step11_loop dev 0 0 s) = Some EXIT_FAILURE \<longleftrightarrow>
      fst (snd (step11_loop dev 0 0 s)) = 0"
    "fst (step11_loop dev 0 0 s) = None \<longleftrightarrow> fst (snd (step11_loop dev 0 0 s)) \<noteq> 0"
    by (simp_all add: shape11_def Let_def)
  have z: "(0::32 word) \<noteq> (cd OR ns)" by (simp add: cd_def ns_def)
  show ?thesis
    using evs shape code z step11_loop_code [of dev 0 0 s]
    by (intro exI [of _ evs])
       (auto simp add: step11_def Let_def split_beta split: option.splits)
qed

lemma step14_accesses:
  "\<exists>evs. hw (snd (step14 dev status s)) = hw s @ evs \<and>
          shape14 0 (fst (step14_loop dev 0 status s)) evs \<and>
          (fst (step14 dev status s) = None \<longleftrightarrow> fst (step14_loop dev 0 status s) = dcntdone) \<and>
          (fst (step14 dev status s) = Some EXIT_FAILURE \<longleftrightarrow>
             fst (step14_loop dev 0 status s) \<noteq> dcntdone)"
proof -
  obtain evs where "hw (snd (step14_loop dev 0 status s)) = hw s @ evs"
    and "shape14 0 (fst (step14_loop dev 0 status s)) evs"
    using step14_loop_shape [of 0 dev status s] by auto
  then show ?thesis
    by (intro exI [of _ evs]) (simp add: step14_def Let_def split_beta)
qed


section \<open>Polls that run out of budget\<close>

lemma step11_loop_stuck:
  assumes "\<forall>tr. length (reads_of Gpio_ext_porta tr) < 1000 \<longrightarrow>
             dev tr Gpio_ext_porta AND (cd OR ns) = ns"
  shows "0 \<le> i \<and> i < 1000 \<and> length (reads_of Gpio_ext_porta (hw s)) = nat i \<longrightarrow>
         fst (step11_loop dev i status s) = None \<and>
         fst (snd (step11_loop dev i status s)) = ns \<and>
         length (reads_of Gpio_ext_porta (hw (snd (snd (step11_loop dev i status s))))) = 1000"
proof (induction i status s rule: step11_loop_induct [where dev = dev])
  case (over i status s)
  then show ?case by simp
next
  case (reject i status s)
  show ?case
  proof (intro impI, elim conjE)
    assume "0 \<le> i" and "length (reads_of Gpio_ext_porta (hw s)) = nat i"
    with reject(1) assms have "dev (hw s) Gpio_ext_porta AND (cd OR ns) = ns" by simp
    with reject(2) have False by (simp add: ns_def)
    then show "fst (step11_loop dev i status s) = None \<and>
         fst (snd (step11_loop dev i status s)) = ns \<and>
         length (reads_of Gpio_ext_porta (hw (snd (snd (step11_loop dev i status s))))) = 1000" ..
  qed
next
  case (both i status s)
  show ?case
  proof (intro impI, elim conjE)
    assume "0 \<le> i" and "length (reads_of Gpio_ext_porta (hw s)) = nat i"
    with both(1) assms have "dev (hw s) Gpio_ext_porta AND (cd OR ns) = ns" by simp
    with both(2) have False by (simp add: ns_def cd_def)
    then show "fst (step11_loop dev i status s) = None \<and>
         fst (snd (step11_loop dev i status s)) = ns \<and>
         length (reads_of Gpio_ext_porta (hw (snd (snd (step11_loop dev i status s))))) = 1000" ..
  qed
next
  case (again i status s)
  show ?case
  proof (intro impI, elim conjE)
    assume i: "0 \<le> i" and len: "length (reads_of Gpio_ext_porta (hw s)) = nat i"
    with again(1) assms have x: "dev (hw s) Gpio_ext_porta AND (cd OR ns) = ns" by simp
    define s1 where "s1 = usleep 10 (snd (read32 dev Gpio_ext_porta s))"
    from again(1,2,3) have turn: "step11_loop dev i status s = step11_loop dev (i + 1) ns s1"
      by (simp add: step11_loop_again x s1_def)
    from i len have len1: "length (reads_of Gpio_ext_porta (hw s1)) = nat (i + 1)"
      by (simp add: s1_def)
    show "fst (step11_loop dev i status s) = None \<and>
         fst (snd (step11_loop dev i status s)) = ns \<and>
         length (reads_of Gpio_ext_porta (hw (snd (snd (step11_loop dev i status s))))) = 1000"
    proof (cases "i + 1 < 1000")
      case True
      with again(4) i len1 show ?thesis by (simp add: turn x s1_def)
    next
      case False
      with again(1) have "nat (i + 1) = 1000" by simp
      moreover from False have "step11_loop dev i status s = (None, ns, s1)"
        unfolding turn by (rule step11_loop_over)
      ultimately show ?thesis using len1 by simp
    qed
  qed
qed

lemma stuck_dev_porta:
  "stuck_dev tr Gpio_ext_porta =
     (if length (reads_of Gpio_ext_porta tr) < 1000 then ns else cd OR ns)"
  by (simp add: stuck_dev_def sim_dev_def)

lemma stuck_step11:
  assumes "reads_of Gpio_ext_porta (hw s) = []"
  shows "fst (step11 stuck_dev debug s) = Some EXIT_FAILURE"
    and "fst (snd (step11 stuck_dev debug s)) = ns"
    and "length (reads_of Gpio_ext_porta (hw (snd (snd (step11 stuck_dev debug s))))) = 1000"
proof -
  have "\<forall>tr. length (reads_of Gpio_ext_porta tr) < 1000 \<longrightarrow>
      stuck_dev tr Gpio_ext_porta AND (cd OR ns) = ns"
    by (simp add: stuck_dev_porta cd_def ns_def)
  with step11_loop_stuck [where dev = stuck_dev and i = 0 and s = s and status = 0] assms
  have loop: "fst (step11_loop stuck_dev 0 0 s) = None"
    "fst (snd (step11_loop stuck_dev 0 0 s)) = ns"
    "length (reads_of Gpio_ext_porta (hw (snd (snd (step11_loop stuck_dev 0 0 s))))) = 1000"
    by simp_all
  have "ns \<noteq> (cd OR ns)" by (simp add: cd_def ns_def)
  with loop show "fst (step11 stuck_dev debug s) = Some EXIT_FAILURE"
    and "fst (snd (step11 stuck_dev debug s)) = ns"
    and "length (reads_of Gpio_ext_porta (hw (snd (snd (step11 stuck_dev debug s))))) = 1000"
    by (simp_all add: step11_def Let_def split_beta)
qed

lemma stuck_run:
  "loadFPGA stuck_dev rbf_data rbf_size False start =
     (EXIT_FAILURE, snd (snd (upto_step11 stuck_dev rbf_data rbf_size False start)))"
  "length (reads_of Gpio_ext_porta
     (hw (snd (snd (upto_step11 stuck_dev rbf_data rbf_size False start))))) = 1000"
proof -
  have "fst (upto_step5 stuck_dev False start) = None" "fst (upto_step7 stuck_dev False start) = None"
    by (simp_all add: stuck_dev_def sim_upto_step5 sim_upto_step7)
  moreover have "fst (upto_step11 stuck_dev rbf_data rbf_size False start) = Some EXIT_FAILURE"
    by (simp add: upto_step11_def stuck_step11)
  ultimately show "loadFPGA stuck_dev rbf_data rbf_size False start =
     (EXIT_FAILURE, snd (snd (upto_step11 stuck_dev rbf_data rbf_size False start)))"
    by (simp add: loadFPGA_exits)
  show "length (reads_of Gpio_ext_porta
     (hw (snd (snd (upto_step11 stuck_dev rbf_data rbf_size False start))))) = 1000"
    by (simp add: upto_step11_def stuck_step11)
qed

lemma step11_last_sample:
  "last (samples Gpio_ext_porta (cd OR ns) s (snd (snd (step11 dev debug s)))) =
   fst (snd (step11 dev debug s))"
proof -
  obtain evs where hw: "hw (snd (snd (step11 dev debug s))) =
      hw s @ evs @ (if debug \<and> fst (step11 dev debug s) = None
                    then [Rd Stat (dev (hw s @ evs) Stat)] else [])"
    and shape: "shape11 0 (fst (step11_loop dev 0 0 s)) (fst (snd (step11_loop dev 0 0 s))) evs"
    using step11_accesses by blast
  from hw have "samples Gpio_ext_porta (cd OR ns) s (snd (snd (step11 dev debug s))) =
      map (\<lambda>v. v AND (cd OR ns)) (reads_of Gpio_ext_porta evs)"
    by (simp add: samples_def added_eq)
  moreover have "fst (snd (step11 dev debug s)) = fst (snd (step11_loop dev 0 0 s))"
    by (simp add: step11_def Let_def split_beta split: option.splits)
  ultimately show ?thesis using shape by (simp add: shape11_def Let_def)
qed

lemma step11_exhausted:
  assumes "fst (snd (step11 dev debug s)) \<noteq> 0" and "fst (snd (step11 dev debug s)) \<noteq> (cd OR ns)"
  shows "length (sleeps (added s (snd (snd (step11 dev debug s))))) = 1000"
proof -
  obtain evs where hw: "hw (snd (snd (step11 dev debug s))) =
      hw s @ evs @ (if debug \<and> fst (step11 dev debug s) = None
                    then [Rd Stat (dev (hw s @ evs) Stat)] else [])"
    and shape: "shape11 0 (fst (step11_loop dev 0 0 s)) (fst (snd (step11_loop dev 0 0 s))) evs"
    using step11_accesses by blast
  from hw have "sleeps (added s (snd (snd (step11 dev debug s)))) = sleeps evs"
    by (simp add: added_eq)
  moreover have "fst (snd (step11 dev debug s)) = fst (snd (step11_loop dev 0 0 s))"
    by (simp add: step11_def Let_def split_beta split: option.splits)
  ultimately show ?thesis using shape assms by (auto simp add: shape11_def Let_def split: if_splits)
qed

lemma step14_exhausted:
  assumes "fst (step14 dev status s) = Some EXIT_FAILURE"
  shows "length (sleeps (added s (snd (step14 dev status s)))) = 100"
proof -
  obtain evs where hw: "hw (snd (step14 dev status s)) = hw s @ evs"
    and shape: "shape14 0 (fst (step14_loop dev 0 status s)) evs"
    and ko: "fst (step14 dev status s) = Some EXIT_FAILURE \<longleftrightarrow>
             fst (step14_loop dev 0 status s) \<noteq> dcntdone"
    using step14_accesses by blast
  from hw have "sleeps (added s (snd (step14 dev status s))) = sleeps evs"
    by (simp add: added_eq)
  with shape assms ko show ?thesis by (auto simp add: shape14_def Let_def split: if_splits)
qed

lemma step14_loop_never:
  assumes "\<forall>tr. dev tr Dclkstat AND dcntdone \<noteq> dcntdone"
  shows "i < 100 \<longrightarrow> fst (step14_loop dev i status s) \<noteq> dcntdone"
proof (induction i status s rule: step14_loop_induct [where dev = dev])
  case (over i status s)
  then show ?case by simp
next
  case (hit i status s)
  with assms show ?case by simp
next
  case (again i status s)
  show ?case
  proof (cases "i + 1 < 100")
    case True
    with again show ?thesis by (simp add: step14_loop_again)
  next
    case False
    with again show ?thesis by (simp add: step14_loop_again step14_loop_over)
  qed
qed

lemma dead_dev_polls:
  "length (sleeps (added start (snd (step5 dead_dev False start)))) = 1000"
  "length (sleeps (added start (snd (step7 dead_dev False start)))) = 1000"
  "length (sleeps (added start (snd (step16 dead_dev False start)))) = 1000"
  "length (sleeps (added start (snd (step14 dead_dev 0 start)))) = 100"
proof -
  have never: "\<forall>tr. drop_bit 0 (dead_dev tr Stat) AND 0x07 \<noteq> mode" if "mode \<noteq> 0" for mode
    using that by (simp add: dead_dev_def)
  have a: "added start s = hw s" for s by (simp add: added_def start_def)
  have z: "hw start = []" by (simp add: start_def)
  show "length (sleeps (added start (snd (step5 dead_dev False start)))) = 1000"
    using wait_mode_never [where dev = dead_dev and mode = mode_reset and i = 0 and s = start]
      never [of mode_reset]
    by (simp add: a step_mode_hw z mode_reset_def)
  show "length (sleeps (added start (snd (step7 dead_dev False start)))) = 1000"
    using wait_mode_never [where dev = dead_dev and mode = mode_config and i = 0 and s = start]
      never [of mode_config]
    by (simp add: a step_mode_hw z mode_config_def)
  show "length (sleeps (added start (snd (step16 dead_dev False start)))) = 1000"
    using wait_mode_never [where dev = dead_dev and mode = mode_user and i = 0 and s = start]
      never [of mode_user]
    by (simp add: a step_mode_hw z mode_user_def)
  have "\<forall>tr. dead_dev tr Dclkstat AND dcntdone \<noteq> dcntdone"
    by (simp add: dead_dev_def dcntdone_def)
  with step14_loop_never [where dev = dead_dev and i = 0 and status = 0 and s = start]
  have "fst (step14 dead_dev 0 start) = Some EXIT_FAILURE"
    by (simp add: step14_def Let_def split_beta)
  then show "length (sleeps (added start (snd (step14 dead_dev 0 start)))) = 100"
    by (rule step14_exhausted)
qed


section \<open>The turns of the polls\<close>

lemma turns_simps [simp]:
  "turns r [] = []"
  "turns r (v # vs) = Rd r v # Usleep 10 # turns r vs"
  by (simp_all add: turns_def)

lemma answers_append:
  "answers dev tr (xs @ ys) \<longleftrightarrow> answers dev tr xs \<and> answers dev (tr @ xs) ys"
  by (induction dev tr xs rule: answers.induct) simp_all

lemma poll_loop_over: "sleeps after = [] \<Longrightarrow> poll_loop r 0 stop after after"
  by (simp add: poll_loop_def)

lemma poll_loop_stop:
  "sleeps after = [] \<Longrightarrow> stop v \<Longrightarrow> 0 < b \<Longrightarrow> poll_loop r b stop (Rd r v # after) after"
  by (simp add: poll_loop_def)

lemma poll_loop_turn:
  "\<not> stop v \<Longrightarrow> poll_loop r b stop evs after \<Longrightarrow>
   poll_loop r (Suc b) stop (Rd r v # Usleep 10 # evs) after"
  by (auto simp add: poll_loop_def Let_def split: if_splits)

lemma wait_mode_poll:
  assumes "sleeps after = []"
  shows "i \<le> 1000 \<longrightarrow>
    (\<exists>evs. hw (wait_mode dev mode i s) = hw s @ evs \<and>
           poll_loop Stat (nat (1000 - i)) (\<lambda>v. v AND 0x07 = mode) (evs @ after) after \<and>
           answers dev (hw s) evs)"
proof (induction i s rule: wait_mode_induct [of _ dev mode])
  case (over i s)
  show ?case
  proof
    assume "i \<le> 1000"
    with over have "nat (1000 - i) = 0" by simp
    with assms show "\<exists>evs. hw (wait_mode dev mode i s) = hw s @ evs \<and>
           poll_loop Stat (nat (1000 - i)) (\<lambda>v. v AND 0x07 = mode) (evs @ after) after \<and>
           answers dev (hw s) evs"
      using over by (intro exI [of _ "[]"]) (simp add: wait_mode_over poll_loop_over)
  qed
next
  case (hit i s)
  then have "hw (wait_mode dev mode i s) = hw s @ [Rd Stat (dev (hw s) Stat)]"
    by (simp add: wait_mode_hit)
  moreover from hit assms
  have "poll_loop Stat (nat (1000 - i)) (\<lambda>v. v AND 0x07 = mode)
          ([Rd Stat (dev (hw s) Stat)] @ after) after"
    by (simp add: poll_loop_stop)
  ultimately show ?case by (intro impI exI [of _ "[Rd Stat (dev (hw s) Stat)]"]) simp
next
  case (miss i s)
  show ?case
  proof
    assume "i \<le> 1000"
    with miss(1) have b: "nat (1000 - i) = Suc (nat (1000 - (i + 1)))" and "i + 1 \<le> 1000"
      by simp_all
    with miss(3) obtain evs where
      evs: "hw (wait_mode dev mode (i + 1) (usleep 10 (snd (get_state dev s)))) =
            hw (usleep 10 (snd (get_state dev s))) @ evs"
      and poll: "poll_loop Stat (nat (1000 - (i + 1))) (\<lambda>v. v AND 0x07 = mode) (evs @ after) after"
      and ans: "answers dev (hw (usleep 10 (snd (get_state dev s)))) evs"
      by blast
    from miss(2) have no: "\<not> dev (hw s) Stat AND 0x07 = mode" by simp
    let ?evs = "Rd Stat (dev (hw s) Stat) # Usleep 10 # evs"
    from miss(1,2) evs have "hw (wait_mode dev mode i s) = hw s @ ?evs"
      by (simp add: wait_mode_miss)
    moreover from poll_loop_turn [OF no poll]
    have "poll_loop Stat (nat (1000 - i)) (\<lambda>v. v AND 0x07 = mode) (?evs @ after) after"
      by (simp add: b)
    moreover from ans have "answers dev (hw s) ?evs" by simp
    ultimately show "\<exists>evs. hw (wait_mode dev mode i s) = hw s @ evs \<and>
           poll_loop Stat (nat (1000 - i)) (\<lambda>v. v AND 0x07 = mode) (evs @ after) after \<and>
           answers dev (hw s) evs"
      by blast
  qed
qed

lemma mode_poll_accesses:
  assumes "hw s' = hw (wait_mode dev mode 0 s) @ after" and "sleeps after = []"
    and "answers dev (hw (wait_mode dev mode 0 s)) after"
  shows "poll_loop Stat 1000 (\<lambda>v. v AND 0x07 = mode) (added s s') after \<and>
         answers dev (hw s) (added s s')"
proof -
  from wait_mode_poll [OF assms(2), of 0 dev mode s]
  obtain evs where evs: "hw (wait_mode dev mode 0 s) = hw s @ evs"
    and poll: "poll_loop Stat 1000 (\<lambda>v. v AND 0x07 = mode) (evs @ after) after"
    and ans: "answers dev (hw s) evs"
    by auto
  from assms(1) evs have "added s s' = evs @ after" by (simp add: added_eq)
  with poll ans assms(3) evs show ?thesis by (simp add: answers_append)
qed


lemma step11_loop_poll:
  assumes "sleeps after = []"
  shows "i \<le> 1000 \<longrightarrow>
    (\<exists>evs. hw (snd (snd (step11_loop dev i status s))) = hw s @ evs \<and>
           poll_loop Gpio_ext_porta (nat (1000 - i))
             (\<lambda>v. v AND (cd OR ns) = 0 \<or> v AND (cd OR ns) = (cd OR ns)) (evs @ after) after \<and>
           answers dev (hw s) evs)"
proof (induction i status s rule: step11_loop_induct [where dev = dev])
  case (over i status s)
  show ?case
  proof
    assume "i \<le> 1000"
    with over have "nat (1000 - i) = 0" by simp
    with assms over show "\<exists>evs. hw (snd (snd (step11_loop dev i status s))) = hw s @ evs \<and>
           poll_loop Gpio_ext_porta (nat (1000 - i))
             (\<lambda>v. v AND (cd OR ns) = 0 \<or> v AND (cd OR ns) = (cd OR ns)) (evs @ after) after \<and>
           answers dev (hw s) evs"
      by (intro exI [of _ "[]"]) (simp add: step11_loop_over poll_loop_over)
  qed
next
  case (reject i status s)
  then have "hw (snd (snd (step11_loop dev i status s))) =
      hw s @ [Rd Gpio_ext_porta (dev (hw s) Gpio_ext_porta)]"
    by (simp add: step11_loop_reject)
  moreover from reject assms
  have "poll_loop Gpio_ext_porta (nat (1000 - i))
          (\<lambda>v. v AND (cd OR ns) = 0 \<or> v AND (cd OR ns) = (cd OR ns))
          ([Rd Gpio_ext_porta (dev (hw s) Gpio_ext_porta)] @ after) after"
    by (simp add: poll_loop_stop)
  ultimately show ?case
    by (intro impI exI [of _ "[Rd Gpio_ext_porta (dev (hw s) Gpio_ext_porta)]"]) simp
next
  case (both i status s)
  then have "hw (snd (snd (step11_loop dev i status s))) =
      hw s @ [Rd Gpio_ext_porta (dev (hw s) Gpio_ext_porta)]"
    by (simp add: step11_loop_done)
  moreover from both assms
  have "poll_loop Gpio_ext_porta (nat (1000 - i))
          (\<lambda>v. v AND (cd OR ns) = 0 \<or> v AND (cd OR ns) = (cd OR ns))
          ([Rd Gpio_ext_porta (dev (hw s) Gpio_ext_porta)] @ after) after"
    by (simp add: poll_loop_stop)
  ultimately show ?case
    by (intro impI exI [of _ "[Rd Gpio_ext_porta (dev (hw s) Gpio_ext_porta)]"]) simp
next
  case (again i status s)
  let ?s1 = "usleep 10 (snd (read32 dev Gpio_ext_porta s))"
  let ?st = "dev (hw s) Gpio_ext_porta AND (cd OR ns)"
  show ?case
  proof
    assume "i \<le> 1000"
    with again(1) have b: "nat (1000 - i) = Suc (nat (1000 - (i + 1)))" and "i + 1 \<le> 1000"
      by simp_all
    with again(4) obtain evs where
      evs: "hw (snd (snd (step11_loop dev (i + 1) ?st ?s1))) = hw ?s1 @ evs"
      and poll: "poll_loop Gpio_ext_porta (nat (1000 - (i + 1)))
         (\<lambda>v. v AND (cd OR ns) = 0 \<or> v AND (cd OR ns) = (cd OR ns)) (evs @ after) after"
      and ans: "answers dev (hw ?s1) evs"
      by blast
    from again(2,3) have no: "\<not> (dev (hw s) Gpio_ext_porta AND (cd OR ns) = 0 \<or>
        dev (hw s) Gpio_ext_porta AND (cd OR ns) = (cd OR ns))" by simp
    let ?evs = "Rd Gpio_ext_porta (dev (hw s) Gpio_ext_porta) # Usleep 10 # evs"
    from again(1,2,3) evs have "hw (snd (snd (step11_loop dev i status s))) = hw s @ ?evs"
      by (simp add: step11_loop_again)
    moreover from poll_loop_turn [where stop = "\<lambda>v. v AND (cd OR ns) = 0 \<or> v AND (cd OR ns) = (cd OR ns)", OF no poll]
    have "poll_loop Gpio_ext_porta (nat (1000 - i))
        (\<lambda>v. v AND (cd OR ns) = 0 \<or> v AND (cd OR ns) = (cd OR ns)) (?evs @ after) after"
      by (simp add: b)
    moreover from ans have "answers dev (hw s) ?evs" by simp
    ultimately show "\<exists>evs. hw (snd (snd (step11_loop dev i status s))) = hw s @ evs \<and>
           poll_loop Gpio_ext_porta (nat (1000 - i))
             (\<lambda>v. v AND (cd OR ns) = 0 \<or> v AND (cd OR ns) = (cd OR ns)) (evs @ after) after \<and>
           answers dev (hw s) evs"
      by blast
  qed
qed

lemma step14_loop_poll:
  "i \<le> 100 \<longrightarrow>
    (\<exists>evs. hw (snd (step14_loop dev i status s)) = hw s @ evs \<and>
           poll_loop Dclkstat (nat (100 - i)) (\<lambda>v. v AND dcntdone = dcntdone) evs [] \<and>
           answers dev (hw s) evs)"
proof (induction i status s rule: step14_loop_induct [where dev = dev])
  case (over i status s)
  show ?case
  proof
    assume "i \<le> 100"
    with over have "nat (100 - i) = 0" by simp
    with over show "\<exists>evs. hw (snd (step14_loop dev i status s)) = hw s @ evs \<and>
           poll_loop Dclkstat (nat (100 - i)) (\<lambda>v. v AND dcntdone = dcntdone) evs [] \<and>
           answers dev (hw s) evs"
      by (intro exI [of _ "[]"]) (simp add: step14_loop_over poll_loop_over)
  qed
next
  case (hit i status s)
  then have "hw (snd (step14_loop dev i status s)) = hw s @ [Rd Dclkstat (dev (hw s) Dclkstat)]"
    by (simp add: step14_loop_done)
  moreover from hit
  have "poll_loop Dclkstat (nat (100 - i)) (\<lambda>v. v AND dcntdone = dcntdone)
          [Rd Dclkstat (dev (hw s) Dclkstat)] []"
    by (simp add: poll_loop_stop)
  ultimately show ?case
    by (intro impI exI [of _ "[Rd Dclkstat (dev (hw s) Dclkstat)]"]) simp
next
  case (again i status s)
  let ?s1 = "usleep 10 (snd (read32 dev Dclkstat s))"
  let ?st = "dev (hw s) Dclkstat AND dcntdone"
  show ?case
  proof
    assume "i \<le> 100"
    with again(1) have b: "nat (100 - i) = Suc (nat (100 - (i + 1)))" and "i + 1 \<le> 100"
      by simp_all
    with again(3) obtain evs where
      evs: "hw (snd (step14_loop dev (i + 1) ?st ?s1)) = hw ?s1 @ evs"
      and poll: "poll_loop Dclkstat (nat (100 - (i + 1))) (\<lambda>v. v AND dcntdone = dcntdone) evs []"
      and ans: "answers dev (hw ?s1) evs"
      by blast
    let ?evs = "Rd Dclkstat (dev (hw s) Dclkstat) # Usleep 10 # evs"
    from again(1,2) evs have "hw (snd (step14_loop dev i status s)) = hw s @ ?evs"
      by (simp add: step14_loop_again)
    moreover from poll_loop_turn [where stop = "\<lambda>v. v AND dcntdone = dcntdone", OF again(2) poll]
    have "poll_loop Dclkstat (nat (100 - i)) (\<lambda>v. v AND dcntdone = dcntdone) ?evs []"
      by (simp add: b)
    moreover from ans have "answers dev (hw s) ?evs" by simp
    ultimately show "\<exists>evs. hw (snd (step14_loop dev i status s)) = hw s @ evs \<and>
           poll_loop Dclkstat (nat (100 - i)) (\<lambda>v. v AND dcntdone = dcntdone) evs [] \<and>
           answers dev (hw s) evs"
      by blast
  qed
qed

lemma step_mode_accesses:
  "hw (snd (step5 dev debug s)) = hw (wait_mode dev mode_reset 0 s) @
     [Rd Stat (dev (hw (wait_mode dev mode_reset 0 s)) Stat)] @
     (if debug \<and> dev (hw (wait_mode dev mode_reset 0 s)) Stat AND 0x07 = mode_reset
      then [Rd Stat (dev (hw (wait_mode dev mode_reset 0 s) @
              [Rd Stat (dev (hw (wait_mode dev mode_reset 0 s)) Stat)]) Stat)] else [])"
  "hw (snd (step7 dev debug s)) = hw (wait_mode dev mode_config 0 s) @
     [Rd Stat (dev (hw (wait_mode dev mode_config 0 s)) Stat)] @
     (if debug \<and> dev (hw (wait_mode dev mode_config 0 s)) Stat AND 0x07 = mode_config
      then [Rd Stat (dev (hw (wait_mode dev mode_config 0 s) @
              [Rd Stat (dev (hw (wait_mode dev mode_config 0 s)) Stat)]) Stat)] else [])"
  "hw (snd (step16 dev debug s)) = hw (wait_mode dev mode_user 0 s) @
     [Rd Stat (dev (hw (wait_mode dev mode_user 0 s)) Stat)] @
     (if debug \<and> dev (hw (wait_mode dev mode_user 0 s)) Stat AND 0x07 = mode_user
      then [Rd Stat (dev (hw (wait_mode dev mode_user 0 s) @
              [Rd Stat (dev (hw (wait_mode dev mode_user 0 s)) Stat)]) Stat)] else [])"
  by (simp_all add: step5_def step7_def step16_def Let_def split_beta)

lemma mode_poll_decides:
  assumes hw: "hw s' = hw (wait_mode dev mode 0 s) @
      [Rd Stat (dev (hw (wait_mode dev mode 0 s)) Stat)] @
      (if debug \<and> dev (hw (wait_mode dev mode 0 s)) Stat AND 0x07 = mode
       then [Rd Stat (dev (hw (wait_mode dev mode 0 s) @
               [Rd Stat (dev (hw (wait_mode dev mode 0 s)) Stat)]) Stat)] else [])"
    and code: "r = (if drop_bit 0 (dev (hw (wait_mode dev mode 0 s)) Stat) AND 0x07 \<noteq> mode
                    then Some EXIT_FAILURE else None)"
  shows "(\<exists>d x. poll_loop Stat 1000 (\<lambda>v. v AND 0x07 = mode) (added s s')
              ([Rd Stat d] @ (if debug \<and> d AND 0x07 = mode then [Rd Stat x] else [])) \<and>
            (r = None \<longleftrightarrow> d AND 0x07 = mode) \<and>
            (r = Some EXIT_FAILURE \<longleftrightarrow> d AND 0x07 \<noteq> mode)) \<and>
         answers dev (hw s) (added s s')"
proof -
  let ?wm = "wait_mode dev mode 0 s"
  let ?d = "dev (hw ?wm) Stat"
  let ?x = "dev (hw ?wm @ [Rd Stat ?d]) Stat"
  let ?after = "[Rd Stat ?d] @ (if debug \<and> ?d AND 0x07 = mode then [Rd Stat ?x] else [])"
  have "sleeps ?after = []" by simp
  moreover have "answers dev (hw ?wm) ?after" by simp
  ultimately have "poll_loop Stat 1000 (\<lambda>v. v AND 0x07 = mode) (added s s') ?after \<and>
      answers dev (hw s) (added s s')"
    using hw by (intro mode_poll_accesses) simp_all
  moreover from code have "r = None \<longleftrightarrow> ?d AND 0x07 = mode"
    "r = Some EXIT_FAILURE \<longleftrightarrow> ?d AND 0x07 \<noteq> mode"
    by simp_all
  ultimately show ?thesis by blast
qed

lemma step11_decides:
  "samples Gpio_ext_porta (cd OR ns) s (snd (snd (step11 dev debug s))) \<noteq> [] \<and>
   (fst (step11 dev debug s) = None \<longleftrightarrow>
      last (samples Gpio_ext_porta (cd OR ns) s (snd (snd (step11 dev debug s)))) = (cd OR ns)) \<and>
   (fst (step11 dev debug s) = Some EXIT_FAILURE \<longleftrightarrow>
      last (samples Gpio_ext_porta (cd OR ns) s (snd (snd (step11 dev debug s)))) \<noteq> (cd OR ns))"
proof -
  obtain evs where hw: "hw (snd (snd (step11 dev debug s))) =
      hw s @ evs @ (if debug \<and> fst (step11 dev debug s) = None
                    then [Rd Stat (dev (hw s @ evs) Stat)] else [])"
    and shape: "shape11 0 (fst (step11_loop dev 0 0 s)) (fst (snd (step11_loop dev 0 0 s))) evs"
    and ok: "fst (step11 dev debug s) = None \<longleftrightarrow> fst (snd (step11_loop dev 0 0 s)) = (cd OR ns)"
    and ko: "fst (step11 dev debug s) = Some EXIT_FAILURE \<longleftrightarrow>
             fst (snd (step11_loop dev 0 0 s)) \<noteq> (cd OR ns)"
    using step11_accesses by blast
  from hw have "samples Gpio_ext_porta (cd OR ns) s (snd (snd (step11 dev debug s))) =
      map (\<lambda>v. v AND (cd OR ns)) (reads_of Gpio_ext_porta evs)"
    by (simp add: samples_def added_eq)
  with shape show ?thesis unfolding ok ko by (simp add: shape11_def Let_def)
qed

lemma step14_decides:
  "samples Dclkstat dcntdone s (snd (step14 dev status s)) \<noteq> [] \<and>
   (fst (step14 dev status s) = None \<longleftrightarrow>
      last (samples Dclkstat dcntdone s (snd (step14 dev status s))) = dcntdone) \<and>
   (fst (step14 dev status s) = Some EXIT_FAILURE \<longleftrightarrow>
      last (samples Dclkstat dcntdone s (snd (step14 dev status s))) \<noteq> dcntdone)"
proof -
  obtain evs where hw: "hw (snd (step14 dev status s)) = hw s @ evs"
    and shape: "shape14 0 (fst (step14_loop dev 0 status s)) evs"
    and ok: "fst (step14 dev status s) = None \<longleftrightarrow> fst (step14_loop dev 0 status s) = dcntdone"
    and ko: "fst (step14 dev status s) = Some EXIT_FAILURE \<longleftrightarrow>
             fst (step14_loop dev 0 status s) \<noteq> dcntdone"
    using step14_accesses by blast
  from hw have "samples Dclkstat dcntdone s (snd (step14 dev status s)) =
      map (\<lambda>v. v AND dcntdone) (reads_of Dclkstat evs)"
    by (simp add: samples_def added_eq)
  with shape show ?thesis unfolding ok ko by (simp add: shape14_def Let_def)
qed

lemma step11_polls:
  "(\<exists>x. poll_loop Gpio_ext_porta 1000
          (\<lambda>v. v AND (cd OR ns) = 0 \<or> v AND (cd OR ns) = (cd OR ns))
          (added s (snd (snd (step11 dev debug s))))
          (if debug \<and> fst (step11 dev debug s) = None then [Rd Stat x] else [])) \<and>
   answers dev (hw s) (added s (snd (snd (step11 dev debug s))))"
proof -
  let ?loop = "snd (snd (step11_loop dev 0 0 s))"
  let ?after = "if debug \<and> fst (step11 dev debug s) = None
                then [Rd Stat (dev (hw ?loop) Stat)] else []"
  have after: "sleeps ?after = []" by simp
  from step11_loop_poll [OF after, of 0 dev 0 s]
  obtain evs where evs: "hw ?loop = hw s @ evs"
    and poll: "poll_loop Gpio_ext_porta 1000
        (\<lambda>v. v AND (cd OR ns) = 0 \<or> v AND (cd OR ns) = (cd OR ns)) (evs @ ?after) ?after"
    and ans: "answers dev (hw s) evs"
    by auto
  have "hw (snd (snd (step11 dev debug s))) = hw ?loop @ ?after"
    by (simp add: step11_def Let_def split_beta split: option.splits)
  with evs have added: "added s (snd (snd (step11 dev debug s))) = evs @ ?after"
    by (simp add: added_eq)
  have "answers dev (hw ?loop) ?after" by simp
  with ans evs have "answers dev (hw s) (evs @ ?after)" by (simp add: answers_append)
  with poll show ?thesis unfolding added by blast
qed

lemma step14_polls:
  "poll_loop Dclkstat 100 (\<lambda>v. v AND dcntdone = dcntdone) (added s (snd (step14 dev status s))) [] \<and>
   answers dev (hw s) (added s (snd (step14 dev status s)))"
proof -
  from step14_loop_poll [of 0 dev status s]
  obtain evs where evs: "hw (snd (step14_loop dev 0 status s)) = hw s @ evs"
    and poll: "poll_loop Dclkstat 100 (\<lambda>v. v AND dcntdone = dcntdone) evs []"
    and ans: "answers dev (hw s) evs"
    by auto
  have "hw (snd (step14 dev status s)) = hw (snd (step14_loop dev 0 status s))"
    by (simp add: step14_def Let_def split_beta)
  with evs have "added s (snd (step14 dev status s)) = evs" by (simp add: added_eq)
  with poll ans show ?thesis by simp
qed

lemma turns_observed [simp]:
  "reads_of r (turns r vs) = vs"
  "length (sleeps (turns r vs)) = length vs"
  by (induction vs) simp_all

lemma poll_loop_exhausted:
  assumes "poll_loop r b stop evs after" and "length (sleeps evs) = b"
  shows "length (reads_of r evs) = b + length (reads_of r after)"
    and "evs = turns r (take b (reads_of r evs)) @ after"
proof -
  from assms have evs: "evs = turns r (take b (reads_of r evs)) @ after"
    and len: "b \<le> length (reads_of r evs)"
    by (simp_all add: poll_loop_def Let_def)
  show "evs = turns r (take b (reads_of r evs)) @ after" by (rule evs)
  from len show "length (reads_of r evs) = b + length (reads_of r after)"
    by (subst evs) simp
qed


section \<open>The claims\<close>

text \<open>
  Claim C3. For an image of exactly N words (\<open>rbf_size\<close> = N = the length of the buffer),
  a run that reaches the streaming step writes exactly the N words of the image to the
  configuration data port, in the order of the image, and fetches the buffer positions
  0, 1, ..., N - 1 once each in that order; a run that does not reach it writes nothing to
  the port and fetches nothing. The run reaches the streaming step exactly when it executes
  step 8, the write to the end-of-interrupt register. The only stores of the model go to
  device registers: the buffer is an argument that no step updates, as the
  \<^verbatim>\<open>const uint32_t *\<close> of the source.
\<close>

theorem streaming_writes_image_in_order:
  assumes "length rbf_data = unat rbf_size"
  shows "writes_to Fpgamgr_data (hw (snd (loadFPGA dev rbf_data rbf_size debug start))) =
           (if reaches_streaming dev debug start then rbf_data else []) \<and>
         fetched (snd (loadFPGA dev rbf_data rbf_size debug start)) =
           (if reaches_streaming dev debug start then [0 ..< length rbf_data] else []) \<and>
         (reaches_streaming dev debug start \<longleftrightarrow>
          writes_to Gpio_porta_eoi (hw (snd (loadFPGA dev rbf_data rbf_size debug start))) \<noteq> [])"
proof -
  from assms have image: "map (\<lambda>k. rbf_data ! k) [0 ..< unat rbf_size] = rbf_data"
    using map_nth [of rbf_data] by simp
  show ?thesis
    by (cases rule: loadFPGA_cases [of dev debug start rbf_data rbf_size])
       (simp_all add: reaches_streaming_def image assms)
qed

theorem streaming_writes_image_in_order_witness:
  "length [5, 6 :: 32 word] = unat (2 :: 32 word) \<and>
   writes_to Fpgamgr_data (hw (snd (loadFPGA slow_dev [5, 6] 2 False start))) = [5, 6] \<and>
   fetched (snd (loadFPGA slow_dev [5, 6] 2 False start)) = [0, 1]"
  using streaming_writes_image_in_order [of "[5, 6]" 2 slow_dev False]
    sim_reaches_streaming [of "[ns, cd OR ns]"]
  by (simp add: slow_dev_def upt_rec)

text \<open>
  Claim C5, evaluated on the code. Step 1 writes \<open>0x01 OR (ctrl AND 0x02c0)\<close>: the cdratio
  and cfgwdth fields go back as they were read. With a control register that reads 0 before
  the run, the first write of the control register is 0x001 and both fields are 0; with one
  that reads 0x2c0 it is 0x2c1 and both fields are all ones. The MSEL straps read 0x0a in
  both runs.
\<close>

theorem step1_writes_cdratio_cfgwdth_as_read:
  "hd (writes_to Ctrl (hw (snd (loadFPGA (sim_dev 0 []) [] 0 False start)))) = 0x001 \<and>
   hd (writes_to Ctrl (hw (snd (loadFPGA (sim_dev 0 []) [] 0 False start)))) AND (cdratio OR cfgwdth) = 0 \<and>
   hd (writes_to Ctrl (hw (snd (loadFPGA (sim_dev 0x2c0 []) [] 0 False start)))) = 0x2c1 \<and>
   hd (writes_to Ctrl (hw (snd (loadFPGA (sim_dev 0x2c0 []) [] 0 False start)))) AND (cdratio OR cfgwdth) =
     cdratio OR cfgwdth"
  by (simp add: first_ctrl_write sim_dev_def cdratio_def cfgwdth_def)

text \<open>
  Claim C6. On a device whose status register never shows the Reset mode, every run fails:
  it returns EXIT_FAILURE, the one failure line it prints is the reset line, and that line
  is the last line printed. The run has read the status register 1002 times (the MSEL check,
  the 1000 polls of step 5 and the check after the loop) and slept 1000 times. Its only
  writes are those of steps 0.a to 4 (the module register and four writes of the control
  register): nothing is written to the configuration data port and no word of the image is
  fetched.
\<close>

theorem never_reset_fails_before_streaming:
  assumes "never_reset dev"
  shows "fst (loadFPGA dev rbf_data rbf_size debug start) = EXIT_FAILURE \<and>
         failures (out (snd (loadFPGA dev rbf_data rbf_size debug start))) = [reset_failed] \<and>
         last (out (snd (loadFPGA dev rbf_data rbf_size debug start))) = (Stderr, reset_failed) \<and>
         length (reads_of Stat (hw (snd (loadFPGA dev rbf_data rbf_size debug start)))) = 1002 \<and>
         sleeps (hw (snd (loadFPGA dev rbf_data rbf_size debug start))) = replicate 1000 10 \<and>
         map fst (writes (hw (snd (loadFPGA dev rbf_data rbf_size debug start)))) =
           [Module, Ctrl, Ctrl, Ctrl, Ctrl] \<and>
         writes_to Fpgamgr_data (hw (snd (loadFPGA dev rbf_data rbf_size debug start))) = [] \<and>
         fetched (snd (loadFPGA dev rbf_data rbf_size debug start)) = []"
proof -
  from assms have never: "\<forall>tr. drop_bit 0 (dev tr Stat) AND 0x07 \<noteq> mode_reset"
    by (simp add: never_reset_def)
  then have fail: "fst (upto_step5 dev debug start) = Some EXIT_FAILURE"
    by (simp add: upto_step5_def step5_code)
  then have run: "loadFPGA dev rbf_data rbf_size debug start =
      (EXIT_FAILURE, snd (upto_step5 dev debug start))"
    by (cases rule: loadFPGA_cases [of dev debug start rbf_data rbf_size]) simp_all
  from fail have out: "out (snd (upto_step5 dev debug start)) =
      out (upto_step4 dev start) @ [(Stderr, reset_failed)]"
    by (simp add: upto_step5_def step5_out_fail)
  have hw: "hw (snd (upto_step5 dev debug start)) =
      hw (wait_mode dev mode_reset 0 (upto_step4 dev start)) @
      [Rd Stat (dev (hw (wait_mode dev mode_reset 0 (upto_step4 dev start))) Stat)]"
    using never by (simp add: upto_step5_def step5_def Let_def split_beta)
  from wait_mode_never [where dev = dev and mode = mode_reset and i = 0
      and s = "upto_step4 dev start"] never
  have polled: "length (reads_of Stat (hw (wait_mode dev mode_reset 0 (upto_step4 dev start)))) = 1001"
    "sleeps (hw (wait_mode dev mode_reset 0 (upto_step4 dev start))) = replicate 1000 10"
    by (simp_all add: upto_step4_observed)
  show ?thesis
    by (simp add: run out hw polled upto_step4_observed)
qed

theorem never_reset_fails_before_streaming_witness:
  "never_reset dead_dev \<and>
   fst (loadFPGA dead_dev [5, 6] 2 False start) = EXIT_FAILURE \<and>
   writes_to Fpgamgr_data (hw (snd (loadFPGA dead_dev [5, 6] 2 False start))) = []"
  using never_reset_fails_before_streaming [of dead_dev "[5, 6]" 2 False]
  by (simp add: never_reset_def dead_dev_def mode_reset_def)

text \<open>
  Claim C8. The label that \<^verbatim>\<open>print_state\<close> returns is read off the low three bits of
  the status register alone: the mode values 0, 1, 2, 3, 4 give "Off", "Reset",
  "Configuration", "Initialization", "User", and 5, 6, 7 give "Undetermined". The mode that
  \<^verbatim>\<open>get_state\<close> returns is the status word modulo 8, and decoding writes no register.
\<close>

theorem print_state_decodes_mode:
  "fst (print_state_name dev s) =
     [''Off'', ''Reset'', ''Configuration'', ''Initialization'', ''User'',
      ''Undetermined'', ''Undetermined'', ''Undetermined''] ! (unat (dev (hw s) Stat) mod 8) \<and>
   unat (fst (get_state dev s)) = unat (dev (hw s) Stat) mod 8 \<and>
   writes (hw (snd (print_state_name dev s))) = writes (hw s)"
proof -
  define m where "m = dev (hw s) Stat AND 7"
  have u: "unat m = unat (dev (hw s) Stat) mod 8" by (simp add: m_def low3)
  then have "unat m < 8" by simp
  then have "fst (print_state_name dev s) =
     [''Off'', ''Reset'', ''Configuration'', ''Initialization'', ''User'',
      ''Undetermined'', ''Undetermined'', ''Undetermined''] ! unat m"
    by (cases m rule: low3_cases)
       (simp_all add: print_state_name_def split_beta m_def [symmetric])
  with u show ?thesis by (simp add: m_def)
qed

text \<open>
  Claim C10. With \<open>rbf_size = 0\<close> no word is written to the configuration data port and no
  word of the buffer is fetched, on any device. Step 10 leaves the run as step 9 left it, so
  a run that reaches the streaming step goes on to the poll of step 11: port A is read, and
  its first sample is taken in the history that ends with the write of step 9.
\<close>

theorem empty_image_goes_straight_to_the_poll:
  "writes_to Fpgamgr_data (hw (snd (loadFPGA dev rbf_data 0 debug start))) = [] \<and>
   fetched (snd (loadFPGA dev rbf_data 0 debug start)) = [] \<and>
   upto_step10 dev rbf_data 0 debug start = step9 dev (step8 (snd (upto_step7 dev debug start))) \<and>
   (reaches_streaming dev debug start \<longrightarrow>
      reads_of Gpio_ext_porta (hw (snd (loadFPGA dev rbf_data 0 debug start))) \<noteq> [] \<and>
      hd (reads_of Gpio_ext_porta (hw (snd (loadFPGA dev rbf_data 0 debug start)))) =
        dev (hw (step9 dev (step8 (snd (upto_step7 dev debug start))))) Gpio_ext_porta)"
proof -
  have same: "upto_step10 dev rbf_data 0 debug start = step9 dev (step8 (snd (upto_step7 dev debug start)))"
    by (simp add: upto_step10_def step10_stop)
  obtain rest where first: "reads_of Gpio_ext_porta (hw (snd (snd (upto_step11 dev rbf_data 0 debug start)))) =
      dev (hw (upto_step10 dev rbf_data 0 debug start)) Gpio_ext_porta # rest"
    using upto_step11_first_sample by blast
  show ?thesis
    by (cases rule: loadFPGA_cases [of dev debug start rbf_data 0])
       (simp_all add: reaches_streaming_def same [symmetric] first upto_step14_def upto_step16_def)
qed

theorem empty_image_goes_straight_to_the_poll_witness:
  "reaches_streaming slow_dev False start \<and>
   reads_of Gpio_ext_porta (hw (snd (loadFPGA slow_dev [] 0 False start))) \<noteq> [] \<and>
   fst (loadFPGA slow_dev [] 0 False start) = EXIT_SUCCESS"
  using empty_image_goes_straight_to_the_poll [of slow_dev "[]" False]
    sim_reaches_streaming [of "[ns, cd OR ns]"]
  by (simp add: slow_dev_def [symmetric] slow_run)

text \<open>
  Claim C2, as amended. loadFPGA returns EXIT_SUCCESS or EXIT_FAILURE, two different values.
  A run that returns EXIT_SUCCESS printed no failure line, has read the User mode from the
  status register, and its last write of the control register has \<open>en\<close> cleared. A run
  that returns EXIT_FAILURE printed exactly one failure line, as its last line, and this
  line is the line of exactly one of the five phases; the return value itself is the same
  for all five.
\<close>

theorem outcome_is_exit_code_and_one_failure_line:
  "(fst (loadFPGA dev rbf_data rbf_size debug start) = EXIT_SUCCESS \<or>
    fst (loadFPGA dev rbf_data rbf_size debug start) = EXIT_FAILURE) \<and>
   EXIT_SUCCESS \<noteq> EXIT_FAILURE \<and>
   (fst (loadFPGA dev rbf_data rbf_size debug start) = EXIT_SUCCESS \<longrightarrow>
      failures (out (snd (loadFPGA dev rbf_data rbf_size debug start))) = [] \<and>
      (\<exists>v \<in> set (reads_of Stat (hw (snd (loadFPGA dev rbf_data rbf_size debug start)))).
         drop_bit 0 v AND 0x07 = mode_user) \<and>
      last (writes_to Ctrl (hw (snd (loadFPGA dev rbf_data rbf_size debug start)))) AND en = 0) \<and>
   (fst (loadFPGA dev rbf_data rbf_size debug start) = EXIT_FAILURE \<longrightarrow>
      (\<exists>p. failures (out (snd (loadFPGA dev rbf_data rbf_size debug start))) = [failure_line p] \<and>
           snd (last (out (snd (loadFPGA dev rbf_data rbf_size debug start)))) = failure_line p)) \<and>
   (\<forall>p q. failure_line p = failure_line q \<longrightarrow> p = q)"
proof -
  have inj: "\<forall>p q. failure_line p = failure_line q \<longrightarrow> p = q"
    using failure_line_inj by blast
  have failing: ?thesis
    if "loadFPGA dev rbf_data rbf_size debug start = (EXIT_FAILURE, s')"
      and "failures (out s') = [failure_line p]" and "snd (last (out s')) = failure_line p"
    for s' p
  proof -
    from that have "\<exists>p. failures (out (snd (loadFPGA dev rbf_data rbf_size debug start))) =
          [failure_line p] \<and>
        snd (last (out (snd (loadFPGA dev rbf_data rbf_size debug start)))) = failure_line p"
      by auto
    with that(1) inj show ?thesis
      by (simp add: exit_codes_differ exit_codes_differ [symmetric])
  qed
  show ?thesis
  proof (cases rule: loadFPGA_cases [of dev debug start rbf_data rbf_size])
    case reset
    then show ?thesis
      by (intro failing [of "snd (upto_step5 dev debug start)" Reset_phase]) (simp_all add: upto_out_fail)
  next
    case config
    then show ?thesis
      by (intro failing [of "snd (upto_step7 dev debug start)" Configuration_phase]) (simp_all add: upto_out_fail upto_failures)
  next
    case accept
    then show ?thesis
      by (intro failing [of "snd (snd (upto_step11 dev rbf_data rbf_size debug start))" Data_accept_phase]) (simp_all add: upto_out_fail upto_failures)
  next
    case dclk
    then show ?thesis
      by (intro failing [of "snd (upto_step14 dev rbf_data rbf_size debug start)" Initialization_phase]) (simp_all add: upto_out_fail upto_failures_late)
  next
    case user
    then show ?thesis
      by (intro failing [of "snd (upto_step16 dev rbf_data rbf_size debug start)" User_phase]) (simp_all add: upto_out_fail upto_failures_late)
  next
    case success
    then have "failures (out (snd (loadFPGA dev rbf_data rbf_size debug start))) = []"
      by (simp add: upto_failures_late)
    moreover have "\<exists>v \<in> set (reads_of Stat (hw (snd (loadFPGA dev rbf_data rbf_size debug start)))).
         drop_bit 0 v AND 0x07 = mode_user"
      using success(5) step16_reads_user [of dev debug "step15 (snd (upto_step14 dev rbf_data rbf_size debug start))"]
      by (simp add: success(6) upto_step16_def)
    moreover have "last (writes_to Ctrl (hw (snd (loadFPGA dev rbf_data rbf_size debug start)))) AND en = 0"
      by (simp add: success(6) en_bit)
    ultimately show ?thesis using success(6) inj by (simp add: exit_codes_differ)
  qed
qed

theorem outcome_is_exit_code_and_one_failure_line_witness:
  "fst (loadFPGA slow_dev [] 0 False start) = EXIT_SUCCESS \<and>
   failures (out (snd (loadFPGA slow_dev [] 0 False start))) = [] \<and>
   fst (loadFPGA rejecting_dev [] 0 False start) = EXIT_FAILURE \<and>
   (\<exists>p. failures (out (snd (loadFPGA rejecting_dev [] 0 False start))) = [failure_line p])"
proof -
  have ok: "fst (loadFPGA slow_dev [] 0 False start) = EXIT_SUCCESS"
    by (simp add: slow_run)
  have failed: "fst (loadFPGA rejecting_dev [] 0 False start) = EXIT_FAILURE"
    by (simp add: rejecting_run)
  from ok failed
    outcome_is_exit_code_and_one_failure_line [of slow_dev "[]" 0 False]
    outcome_is_exit_code_and_one_failure_line [of rejecting_dev "[]" 0 False]
  show ?thesis by blast
qed

text \<open>
  Claim C2 as stated fails: the value loadFPGA returns is the same when the Reset phase
  fails (a board on which every register reads 0) and when the Data-accept phase fails (a
  board that answers the first port A sample with CONF_DONE = nSTATUS = 0). Only the
  printed lines differ.
\<close>

theorem exit_code_does_not_tell_the_phase:
  "fst (loadFPGA dead_dev [] 0 False start) = fst (loadFPGA rejecting_dev [] 0 False start) \<and>
   failures (out (snd (loadFPGA dead_dev [] 0 False start))) = [failure_line Reset_phase] \<and>
   failures (out (snd (loadFPGA rejecting_dev [] 0 False start))) = [failure_line Data_accept_phase] \<and>
   failure_line Reset_phase \<noteq> failure_line Data_accept_phase"
proof -
  have "failure_line Reset_phase \<noteq> failure_line Data_accept_phase"
    using failure_line_inj [of Reset_phase Data_accept_phase] by auto
  then show ?thesis
    by (simp add: never_reset_exit [OF dead_dev_never_reset] rejecting_run)
qed

text \<open>
  Claim C7. A run that returns EXIT_SUCCESS ends with the read and write of step 17: its last
  access, and so its last register write, stores the control register with the \<open>en\<close> bit
  cleared. A run that returns EXIT_FAILURE ends with a read or a sleep of the poll that
  failed, not with a write: nothing follows the failed check. On a device whose control
  register reads back what was written to it last, the control register has been written
  and its last written value still has \<open>en\<close> set.
\<close>

theorem handback_on_success_only:
  "(fst (loadFPGA dev rbf_data rbf_size debug start) = EXIT_SUCCESS \<longrightarrow>
      (\<exists>tr v. hw (snd (loadFPGA dev rbf_data rbf_size debug start)) =
                 tr @ [Rd Ctrl v, Wr Ctrl (v AND NOT en)] \<and>
               last (writes (hw (snd (loadFPGA dev rbf_data rbf_size debug start)))) =
                 (Ctrl, v AND NOT en)) \<and>
      last (writes_to Ctrl (hw (snd (loadFPGA dev rbf_data rbf_size debug start)))) AND en = 0) \<and>
   (fst (loadFPGA dev rbf_data rbf_size debug start) = EXIT_FAILURE \<longrightarrow>
      \<not> is_write (last (hw (snd (loadFPGA dev rbf_data rbf_size debug start)))) \<and>
      (ctrl_latches dev \<longrightarrow>
         writes_to Ctrl (hw (snd (loadFPGA dev rbf_data rbf_size debug start))) \<noteq> [] \<and>
         last (writes_to Ctrl (hw (snd (loadFPGA dev rbf_data rbf_size debug start)))) AND en = en))"
proof (cases rule: loadFPGA_cases [of dev debug start rbf_data rbf_size])
  case reset
  then show ?thesis
    using en_held_upto(1) [of dev debug] mode_poll_fail_last(1) [of dev debug "upto_step4 dev start"]
    by (simp add: exit_codes_differ [symmetric] en_held_def upto_step5_def)
next
  case config
  then show ?thesis
    using en_held_upto(2) [of dev debug]
      mode_poll_fail_last(2) [of dev debug "step6 dev (snd (upto_step5 dev debug start))"]
    by (simp add: exit_codes_differ [symmetric] en_held_def upto_step7_def)
next
  case accept
  then show ?thesis
    using en_held_upto(3) [of dev rbf_data rbf_size debug]
      step11_fail_last [of dev debug "upto_step10 dev rbf_data rbf_size debug start"]
    by (simp add: exit_codes_differ [symmetric] en_held_def upto_step11_def)
next
  case dclk
  then show ?thesis
    using en_held_upto(4) [of dev rbf_data rbf_size debug]
      step14_fail_last [of dev "fst (snd (upto_step11 dev rbf_data rbf_size debug start))"
        "step13b (step13a dev (step12 dev (snd (snd (upto_step11 dev rbf_data rbf_size debug start)))))"]
    by (simp add: exit_codes_differ [symmetric] en_held_def upto_step14_def)
next
  case user
  then show ?thesis
    using en_held_upto(5) [of dev rbf_data rbf_size debug]
      mode_poll_fail_last(3) [of dev debug "step15 (snd (upto_step14 dev rbf_data rbf_size debug start))"]
    by (simp add: exit_codes_differ [symmetric] en_held_def upto_step16_def)
next
  case success
  then show ?thesis
    by (simp add: exit_codes_differ step17_hw en_bit)
qed

theorem handback_on_success_only_witness:
  "fst (loadFPGA slow_dev [] 0 False start) = EXIT_SUCCESS \<and>
   last (writes_to Ctrl (hw (snd (loadFPGA slow_dev [] 0 False start)))) AND en = 0 \<and>
   fst (loadFPGA rejecting_dev [] 0 False start) = EXIT_FAILURE \<and>
   ctrl_latches rejecting_dev \<and>
   \<not> is_write (last (hw (snd (loadFPGA rejecting_dev [] 0 False start)))) \<and>
   last (writes_to Ctrl (hw (snd (loadFPGA rejecting_dev [] 0 False start)))) AND en = en"
proof -
  have ok: "fst (loadFPGA slow_dev [] 0 False start) = EXIT_SUCCESS"
    by (simp add: slow_run)
  have failed: "fst (loadFPGA rejecting_dev [] 0 False start) = EXIT_FAILURE"
    by (simp add: rejecting_run)
  have latch: "ctrl_latches rejecting_dev"
    by (simp add: rejecting_dev_def sim_dev_latches)
  from ok failed latch
    handback_on_success_only [of slow_dev "[]" 0 False]
    handback_on_success_only [of rejecting_dev "[]" 0 False]
  show ?thesis by blast
qed

text \<open>
  Claim C9. Whatever the MSEL straps read, a run is the configuration sequence of steps 0.a
  to 17 started in the history that holds the one status read of the MSEL check: the return
  value, the accesses and the fetches are those of that sequence, and when the straps differ
  from 0x0a the warning is put in front of the lines the sequence prints, on stderr. The
  check itself leaves no other trace, and in every run the first five writes are those of
  steps 0.a to 4.
\<close>

theorem msel_mismatch_only_warns:
  "loadFPGA dev rbf_data rbf_size debug start =
     (fst (configure dev rbf_data rbf_size debug (snd (get_msel dev start))),
      with_lines (if fst (get_msel dev start) \<noteq> 0x0a then [(Stderr, msel_warning)] else [])
        (snd (configure dev rbf_data rbf_size debug (snd (get_msel dev start))))) \<and>
   fst (get_msel dev start) = drop_bit 3 (dev [] Stat) AND 0x1f \<and>
   snd (get_msel dev start) = \<lparr>hw = [Rd Stat (dev [] Stat)], out = [], fetched = []\<rparr> \<and>
   take 5 (map fst (writes (hw (snd (loadFPGA dev rbf_data rbf_size debug start))))) =
     [Module, Ctrl, Ctrl, Ctrl, Ctrl]"
proof -
  have msel: "snd (get_msel dev start) = \<lparr>hw = [Rd Stat (dev [] Stat)], out = [], fetched = []\<rparr>"
    by (simp add: get_msel_def read32_def start_def)
  have "check_msel dev start =
      with_lines (if fst (get_msel dev start) \<noteq> 0x0a then [(Stderr, msel_warning)] else [])
        (snd (get_msel dev start))"
    by (simp add: check_msel_def split_beta msel with_lines_def fprintf_def)
  then have run: "loadFPGA dev rbf_data rbf_size debug start =
     (fst (configure dev rbf_data rbf_size debug (snd (get_msel dev start))),
      with_lines (if fst (get_msel dev start) \<noteq> 0x0a then [(Stderr, msel_warning)] else [])
        (snd (configure dev rbf_data rbf_size debug (snd (get_msel dev start)))))"
    by (simp only: loadFPGA_def configure_with_lines)
  have "length (map fst (writes (hw (upto_step4 dev start)))) = 5"
    by (simp only: upto_step4_observed) simp
  then have len: "length (writes (hw (upto_step4 dev start))) = 5" by simp
  have "take 5 (map fst (writes (hw (snd (loadFPGA dev rbf_data rbf_size debug start))))) =
     [Module, Ctrl, Ctrl, Ctrl, Ctrl]"
    by (cases rule: loadFPGA_cases [of dev debug start rbf_data rbf_size])
       (simp_all add: upto_step5_def upto_step7_def upto_step10_def upto_step11_def
          upto_step14_def upto_step16_def step10_writes len upto_step4_observed)
  moreover have "fst (get_msel dev start) = drop_bit 3 (dev [] Stat) AND 0x1f"
    by (simp add: start_def)
  ultimately show ?thesis using run msel by (simp only: simp_thms)
qed

text \<open>
  Claim C1, as amended. The data-accept poll of step 11 reads port A at least once and at
  most 1000 times, each sample masked to CONF_DONE and nSTATUS. It lets the run continue
  exactly when the last sample has both bits 1, and returns EXIT_FAILURE otherwise. No
  sample before the last has both bits 0 or both bits 1: the poll stops at the first such
  sample. A sample with both bits 0 ends the poll at once: its read is the last access,
  and no sleep follows it. A sample with CONF_DONE = 0 and nSTATUS = 1 does not end the
  poll: if it is the last one, the budget is used up, with 1000 samples and 1000 sleeps.
\<close>

theorem data_accept_poll_outcomes:
  "samples Gpio_ext_porta (cd OR ns) s (snd (snd (step11 dev debug s))) \<noteq> [] \<and>
   length (samples Gpio_ext_porta (cd OR ns) s (snd (snd (step11 dev debug s)))) \<le> 1000 \<and>
   (fst (step11 dev debug s) = None \<longleftrightarrow>
      last (samples Gpio_ext_porta (cd OR ns) s (snd (snd (step11 dev debug s)))) = (cd OR ns)) \<and>
   (fst (step11 dev debug s) = Some EXIT_FAILURE \<longleftrightarrow>
      last (samples Gpio_ext_porta (cd OR ns) s (snd (snd (step11 dev debug s)))) \<noteq> (cd OR ns)) \<and>
   (\<forall>x \<in> set (butlast (samples Gpio_ext_porta (cd OR ns) s (snd (snd (step11 dev debug s))))).
      x \<noteq> 0 \<and> x \<noteq> (cd OR ns)) \<and>
   (last (samples Gpio_ext_porta (cd OR ns) s (snd (snd (step11 dev debug s)))) = 0 \<longrightarrow>
      (\<exists>v. last (hw (snd (snd (step11 dev debug s)))) = Rd Gpio_ext_porta v) \<and>
      length (sleeps (added s (snd (snd (step11 dev debug s))))) + 1 =
        length (samples Gpio_ext_porta (cd OR ns) s (snd (snd (step11 dev debug s))))) \<and>
   (last (samples Gpio_ext_porta (cd OR ns) s (snd (snd (step11 dev debug s)))) = ns \<longrightarrow>
      length (samples Gpio_ext_porta (cd OR ns) s (snd (snd (step11 dev debug s)))) = 1000 \<and>
      length (sleeps (added s (snd (snd (step11 dev debug s))))) = 1000)"
proof -
  obtain evs where hw: "hw (snd (snd (step11 dev debug s))) =
      hw s @ evs @ (if debug \<and> fst (step11 dev debug s) = None
                    then [Rd Stat (dev (hw s @ evs) Stat)] else [])"
    and shape: "shape11 0 (fst (step11_loop dev 0 0 s)) (fst (snd (step11_loop dev 0 0 s))) evs"
    and ok: "fst (step11 dev debug s) = None \<longleftrightarrow> fst (snd (step11_loop dev 0 0 s)) = (cd OR ns)"
    and ko: "fst (step11 dev debug s) = Some EXIT_FAILURE \<longleftrightarrow>
             fst (snd (step11_loop dev 0 0 s)) \<noteq> (cd OR ns)"
    using step11_accesses by blast
  define xs where "xs = map (\<lambda>v. v AND (cd OR ns)) (reads_of Gpio_ext_porta evs)"
  from hw have added: "added s (snd (snd (step11 dev debug s))) =
      evs @ (if debug \<and> fst (step11 dev debug s) = None
             then [Rd Stat (dev (hw s @ evs) Stat)] else [])"
    by (simp add: added_eq)
  then have samples: "samples Gpio_ext_porta (cd OR ns) s (snd (snd (step11 dev debug s))) = xs"
    and sleeps: "sleeps (added s (snd (snd (step11 dev debug s)))) = sleeps evs"
    by (simp_all add: samples_def xs_def)
  from shape have ne: "xs \<noteq> []" by (simp add: shape11_def xs_def Let_def)
  then have evs: "evs \<noteq> []" by (auto simp add: xs_def)
  have z: "(0::32 word) \<noteq> (cd OR ns)" "ns \<noteq> (0::32 word)" "ns \<noteq> (cd OR ns)"
    by (simp_all add: cd_def ns_def)
  have last_hw: "last (hw (snd (snd (step11 dev debug s)))) = last evs" if "last xs = 0"
  proof -
    from that shape have "fst (snd (step11_loop dev 0 0 s)) = 0"
      by (simp add: shape11_def xs_def Let_def)
    with ok z have "fst (step11 dev debug s) \<noteq> None" by simp
    with hw evs show ?thesis by simp
  qed
  from shape ne z show ?thesis
    unfolding samples sleeps
    by (auto simp add: shape11_def Let_def xs_def [symmetric] ok ko last_hw)
qed

theorem data_accept_poll_outcomes_witness:
  "samples Gpio_ext_porta (cd OR ns) (upto_step10 slow_dev [] 0 False start)
     (snd (snd (step11 slow_dev False (upto_step10 slow_dev [] 0 False start)))) = [ns, cd OR ns] \<and>
   fst (step11 slow_dev False (upto_step10 slow_dev [] 0 False start)) = None \<and>
   last (samples Gpio_ext_porta (cd OR ns) (upto_step10 rejecting_dev [] 0 False start)
     (snd (snd (step11 rejecting_dev False (upto_step10 rejecting_dev [] 0 False start))))) = 0 \<and>
   fst (step11 rejecting_dev False (upto_step10 rejecting_dev [] 0 False start)) = Some EXIT_FAILURE \<and>
   length (sleeps (added (upto_step10 rejecting_dev [] 0 False start)
     (snd (snd (step11 rejecting_dev False (upto_step10 rejecting_dev [] 0 False start)))))) + 1 =
   length (samples Gpio_ext_porta (cd OR ns) (upto_step10 rejecting_dev [] 0 False start)
     (snd (snd (step11 rejecting_dev False (upto_step10 rejecting_dev [] 0 False start))))) \<and>
   last (samples Gpio_ext_porta (cd OR ns) start (snd (snd (step11 stuck_dev False start)))) = ns \<and>
   fst (step11 stuck_dev False start) = Some EXIT_FAILURE \<and>
   length (samples Gpio_ext_porta (cd OR ns) start (snd (snd (step11 stuck_dev False start)))) = 1000"
proof -
  have slow: "samples Gpio_ext_porta (cd OR ns) (upto_step10 slow_dev [] 0 False start)
     (snd (snd (step11 slow_dev False (upto_step10 slow_dev [] 0 False start)))) = [ns, cd OR ns]"
    using slow_upto_step11 [of "[]"]
    by (simp add: upto_step11_def)
       (simp add: slow_dev_def sim_upto_step10 samples_def added_def ns_def cd_def)
  have rejecting: "last (samples Gpio_ext_porta (cd OR ns) (upto_step10 rejecting_dev [] 0 False start)
     (snd (snd (step11 rejecting_dev False (upto_step10 rejecting_dev [] 0 False start))))) = 0"
    using rejecting_upto_step11 [of "[]"]
    by (simp add: upto_step11_def)
       (simp add: rejecting_dev_def sim_upto_step10 samples_def added_def ns_def cd_def)
  have "reads_of Gpio_ext_porta (hw start) = []" by (simp add: start_def)
  then have "fst (snd (step11 stuck_dev False start)) = ns" by (rule stuck_step11(2))
  then have stuck: "last (samples Gpio_ext_porta (cd OR ns) start
      (snd (snd (step11 stuck_dev False start)))) = ns"
    by (simp add: step11_last_sample)
  have z: "(0::32 word) \<noteq> (cd OR ns)" "ns \<noteq> (cd OR ns)" by (simp_all add: cd_def ns_def)
  from slow have slow_last: "last (samples Gpio_ext_porta (cd OR ns) (upto_step10 slow_dev [] 0 False start)
     (snd (snd (step11 slow_dev False (upto_step10 slow_dev [] 0 False start))))) = (cd OR ns)"
    by simp
  from data_accept_poll_outcomes [of "upto_step10 slow_dev [] 0 False start" slow_dev False] slow_last
  have a: "fst (step11 slow_dev False (upto_step10 slow_dev [] 0 False start)) = None"
    by (elim conjE) (simp only: simp_thms)
  from data_accept_poll_outcomes [of "upto_step10 rejecting_dev [] 0 False start" rejecting_dev False]
    rejecting z(1)
  have b: "fst (step11 rejecting_dev False (upto_step10 rejecting_dev [] 0 False start)) = Some EXIT_FAILURE \<and>
   length (sleeps (added (upto_step10 rejecting_dev [] 0 False start)
     (snd (snd (step11 rejecting_dev False (upto_step10 rejecting_dev [] 0 False start)))))) + 1 =
   length (samples Gpio_ext_porta (cd OR ns) (upto_step10 rejecting_dev [] 0 False start)
     (snd (snd (step11 rejecting_dev False (upto_step10 rejecting_dev [] 0 False start)))))"
    by (elim conjE) (simp only: simp_thms)
  from data_accept_poll_outcomes [of start stuck_dev False] stuck z(2)
  have c: "fst (step11 stuck_dev False start) = Some EXIT_FAILURE \<and>
   length (samples Gpio_ext_porta (cd OR ns) start (snd (snd (step11 stuck_dev False start)))) = 1000"
    by (elim conjE) (simp only: simp_thms)
  from slow a rejecting b stuck c show ?thesis by (simp only: simp_thms)
qed

text \<open>
  Claim C1 as stated fails: on a board whose port A first shows CONF_DONE = 0 with
  nSTATUS = 1 and then both bits 1, a sample with a bit at 0 has been taken, and the run
  goes on polling and returns EXIT_SUCCESS.
\<close>

theorem conf_done_low_sample_does_not_fail:
  "fst (loadFPGA slow_dev [] 0 False start) = EXIT_SUCCESS \<and>
   reads_of Gpio_ext_porta (hw (snd (loadFPGA slow_dev [] 0 False start))) = [ns, cd OR ns] \<and>
   ns AND cd = 0"
  by (simp add: slow_run ns_def cd_def)

text \<open>
  Claim C4, as amended. In every poll each turn of the loop reads the register once, and
  every value read is the answer of the device at that moment. The loop goes on, with a
  sleep of 10 microseconds, exactly on the values that do not meet its exit condition, and
  leaves without sleeping on the first value that does, or after its budget of turns (1000
  for steps 5, 7, 11 and 16, 100 for step 14); it makes no other access.

  After the loop of steps 5, 7 and 16 comes one more read of the status register, and the
  step lets the run continue exactly when the mode in this read is the mode waited for, and
  returns EXIT_FAILURE otherwise; with \<open>debug\<close> on, a step that lets the run continue reads
  the status register once more for the line it prints.

  After the loop of steps 11 and 14 comes no further read of the polled register (step 11
  with \<open>debug\<close> on reads the status register for the line it prints, when the run
  continues): the step lets the run continue exactly when the last sample of the loop meets
  the condition waited for (both CONF_DONE and nSTATUS at 1, respectively \<open>dcntdone\<close> at
  1), and returns EXIT_FAILURE otherwise.
\<close>

theorem polls_read_per_iteration_and_decide:
  "(\<exists>d x. poll_loop Stat 1000 (\<lambda>v. v AND 0x07 = mode_reset) (added s (snd (step5 dev debug s)))
            ([Rd Stat d] @ (if debug \<and> d AND 0x07 = mode_reset then [Rd Stat x] else [])) \<and>
          (fst (step5 dev debug s) = None \<longleftrightarrow> d AND 0x07 = mode_reset) \<and>
          (fst (step5 dev debug s) = Some EXIT_FAILURE \<longleftrightarrow> d AND 0x07 \<noteq> mode_reset)) \<and>
   answers dev (hw s) (added s (snd (step5 dev debug s))) \<and>
   (\<exists>d x. poll_loop Stat 1000 (\<lambda>v. v AND 0x07 = mode_config) (added s (snd (step7 dev debug s)))
            ([Rd Stat d] @ (if debug \<and> d AND 0x07 = mode_config then [Rd Stat x] else [])) \<and>
          (fst (step7 dev debug s) = None \<longleftrightarrow> d AND 0x07 = mode_config) \<and>
          (fst (step7 dev debug s) = Some EXIT_FAILURE \<longleftrightarrow> d AND 0x07 \<noteq> mode_config)) \<and>
   answers dev (hw s) (added s (snd (step7 dev debug s))) \<and>
   (\<exists>d x. poll_loop Stat 1000 (\<lambda>v. v AND 0x07 = mode_user) (added s (snd (step16 dev debug s)))
            ([Rd Stat d] @ (if debug \<and> d AND 0x07 = mode_user then [Rd Stat x] else [])) \<and>
          (fst (step16 dev debug s) = None \<longleftrightarrow> d AND 0x07 = mode_user) \<and>
          (fst (step16 dev debug s) = Some EXIT_FAILURE \<longleftrightarrow> d AND 0x07 \<noteq> mode_user)) \<and>
   answers dev (hw s) (added s (snd (step16 dev debug s))) \<and>
   (\<exists>x. poll_loop Gpio_ext_porta 1000
          (\<lambda>v. v AND (cd OR ns) = 0 \<or> v AND (cd OR ns) = (cd OR ns))
          (added s (snd (snd (step11 dev debug s))))
          (if debug \<and> fst (step11 dev debug s) = None then [Rd Stat x] else [])) \<and>
   answers dev (hw s) (added s (snd (snd (step11 dev debug s)))) \<and>
   samples Gpio_ext_porta (cd OR ns) s (snd (snd (step11 dev debug s))) \<noteq> [] \<and>
   (fst (step11 dev debug s) = None \<longleftrightarrow>
      last (samples Gpio_ext_porta (cd OR ns) s (snd (snd (step11 dev debug s)))) = (cd OR ns)) \<and>
   (fst (step11 dev debug s) = Some EXIT_FAILURE \<longleftrightarrow>
      last (samples Gpio_ext_porta (cd OR ns) s (snd (snd (step11 dev debug s)))) \<noteq> (cd OR ns)) \<and>
   poll_loop Dclkstat 100 (\<lambda>v. v AND dcntdone = dcntdone) (added s (snd (step14 dev status s))) [] \<and>
   answers dev (hw s) (added s (snd (step14 dev status s))) \<and>
   samples Dclkstat dcntdone s (snd (step14 dev status s)) \<noteq> [] \<and>
   (fst (step14 dev status s) = None \<longleftrightarrow>
      last (samples Dclkstat dcntdone s (snd (step14 dev status s))) = dcntdone) \<and>
   (fst (step14 dev status s) = Some EXIT_FAILURE \<longleftrightarrow>
      last (samples Dclkstat dcntdone s (snd (step14 dev status s))) \<noteq> dcntdone)"
proof -
  note reset = mode_poll_decides [OF step_mode_accesses(1) [where s = s and dev = dev and debug = debug]
    step5_code [where s = s and dev = dev and debug = debug]]
  note config = mode_poll_decides [OF step_mode_accesses(2) [where s = s and dev = dev and debug = debug]
    step7_code [where s = s and dev = dev and debug = debug]]
  note user = mode_poll_decides [OF step_mode_accesses(3) [where s = s and dev = dev and debug = debug]
    step16_code [where s = s and dev = dev and debug = debug]]
  note accept = step11_polls [where s = s and dev = dev and debug = debug]
    step11_decides [where s = s and dev = dev and debug = debug]
  note dclk = step14_polls [where s = s and dev = dev and status = status]
    step14_decides [where s = s and dev = dev and status = status]
  from reset config user accept dclk show ?thesis
    by (elim conjE, intro conjI) assumption+
qed

theorem polls_read_per_iteration_and_decide_witness:
  "length (sleeps (added start (snd (step5 dead_dev False start)))) = 1000 \<and>
   length (samples Stat 0x07 start (snd (step5 dead_dev False start))) = 1001 \<and>
   length (sleeps (added start (snd (step7 dead_dev False start)))) = 1000 \<and>
   length (samples Stat 0x07 start (snd (step7 dead_dev False start))) = 1001 \<and>
   length (sleeps (added start (snd (step16 dead_dev False start)))) = 1000 \<and>
   length (samples Stat 0x07 start (snd (step16 dead_dev False start))) = 1001 \<and>
   length (sleeps (added start (snd (snd (step11 stuck_dev False start))))) = 1000 \<and>
   length (samples Gpio_ext_porta (cd OR ns) start (snd (snd (step11 stuck_dev False start)))) = 1000 \<and>
   fst (step11 stuck_dev False start) = Some EXIT_FAILURE \<and>
   length (sleeps (added start (snd (step14 dead_dev 0 start)))) = 100 \<and>
   length (samples Dclkstat dcntdone start (snd (step14 dead_dev 0 start))) = 100 \<and>
   fst (step14 dead_dev 0 start) = Some EXIT_FAILURE \<and>
   samples Gpio_ext_porta (cd OR ns) (upto_step10 slow_dev [] 0 False start)
     (snd (snd (step11 slow_dev False (upto_step10 slow_dev [] 0 False start)))) = [ns, cd OR ns] \<and>
   poll_loop Gpio_ext_porta 1000 (\<lambda>v. v AND (cd OR ns) = 0 \<or> v AND (cd OR ns) = (cd OR ns))
     (added (upto_step10 slow_dev [] 0 False start)
        (snd (snd (step11 slow_dev False (upto_step10 slow_dev [] 0 False start))))) [] \<and>
   fst (step11 slow_dev False (upto_step10 slow_dev [] 0 False start)) = None"
proof -
  have slow: "samples Gpio_ext_porta (cd OR ns) (upto_step10 slow_dev [] 0 False start)
     (snd (snd (step11 slow_dev False (upto_step10 slow_dev [] 0 False start)))) = [ns, cd OR ns]"
    using slow_upto_step11 [of "[]"]
    by (simp add: upto_step11_def)
       (simp add: slow_dev_def sim_upto_step10 samples_def added_def ns_def cd_def)
  then have slow_last: "last (samples Gpio_ext_porta (cd OR ns) (upto_step10 slow_dev [] 0 False start)
     (snd (snd (step11 slow_dev False (upto_step10 slow_dev [] 0 False start))))) = (cd OR ns)"
    by simp
  note slow_polls = polls_read_per_iteration_and_decide [where dev = slow_dev and s = "upto_step10 slow_dev [] 0 False start"
      and debug = False and status = 0]
  from slow_polls slow_last
  have slow_ok: "fst (step11 slow_dev False (upto_step10 slow_dev [] 0 False start)) = None"
    by (elim conjE exE) (simp only: simp_thms)
  from slow_polls
  have slow_loop: "poll_loop Gpio_ext_porta 1000
     (\<lambda>v. v AND (cd OR ns) = 0 \<or> v AND (cd OR ns) = (cd OR ns))
     (added (upto_step10 slow_dev [] 0 False start)
        (snd (snd (step11 slow_dev False (upto_step10 slow_dev [] 0 False start))))) []"
    by (elim conjE exE) (simp only: simp_thms if_False)
  have "reads_of Gpio_ext_porta (hw start) = []" by (simp add: start_def)
  then have status: "fst (snd (step11 stuck_dev False start)) = ns" by (rule stuck_step11(2))
  then have stuck: "length (sleeps (added start (snd (snd (step11 stuck_dev False start))))) = 1000"
    by (intro step11_exhausted) (simp_all add: ns_def cd_def)
  note dead = polls_read_per_iteration_and_decide [where dev = dead_dev and s = start and debug = False and status = 0]
  note stuck_polls = polls_read_per_iteration_and_decide [where dev = stuck_dev and s = start and debug = False and status = 0]
  from dead obtain d x where
    "poll_loop Stat 1000 (\<lambda>v. v AND 0x07 = mode_reset) (added start (snd (step5 dead_dev False start)))
       ([Rd Stat d] @ (if False \<and> d AND 0x07 = mode_reset then [Rd Stat x] else []))"
    by (elim conjE exE)
  with dead_dev_polls(1)
  have reset: "length (samples Stat 0x07 start (snd (step5 dead_dev False start))) = 1001"
    by (simp add: samples_def poll_loop_exhausted(1))
  from dead obtain d x where
    "poll_loop Stat 1000 (\<lambda>v. v AND 0x07 = mode_config) (added start (snd (step7 dead_dev False start)))
       ([Rd Stat d] @ (if False \<and> d AND 0x07 = mode_config then [Rd Stat x] else []))"
    by (elim conjE exE)
  with dead_dev_polls(2)
  have config: "length (samples Stat 0x07 start (snd (step7 dead_dev False start))) = 1001"
    by (simp add: samples_def poll_loop_exhausted(1))
  from dead obtain d x where
    "poll_loop Stat 1000 (\<lambda>v. v AND 0x07 = mode_user) (added start (snd (step16 dead_dev False start)))
       ([Rd Stat d] @ (if False \<and> d AND 0x07 = mode_user then [Rd Stat x] else []))"
    by (elim conjE exE)
  with dead_dev_polls(3)
  have user: "length (samples Stat 0x07 start (snd (step16 dead_dev False start))) = 1001"
    by (simp add: samples_def poll_loop_exhausted(1))
  from dead have
    "poll_loop Dclkstat 100 (\<lambda>v. v AND dcntdone = dcntdone) (added start (snd (step14 dead_dev 0 start))) []"
    by (elim conjE exE)
  with dead_dev_polls(4)
  have dclk: "length (samples Dclkstat dcntdone start (snd (step14 dead_dev 0 start))) = 100"
    by (simp add: samples_def poll_loop_exhausted(1))
  have "\<forall>tr. dead_dev tr Dclkstat AND dcntdone \<noteq> dcntdone"
    by (simp add: dead_dev_def dcntdone_def)
  with step14_loop_never [where dev = dead_dev and i = 0 and status = 0 and s = start]
  have dclk_fails: "fst (step14 dead_dev 0 start) = Some EXIT_FAILURE"
    by (simp add: step14_def Let_def split_beta)
  from stuck_polls obtain x where
    "poll_loop Gpio_ext_porta 1000 (\<lambda>v. v AND (cd OR ns) = 0 \<or> v AND (cd OR ns) = (cd OR ns))
       (added start (snd (snd (step11 stuck_dev False start))))
       (if False \<and> fst (step11 stuck_dev False start) = None then [Rd Stat x] else [])"
    by (elim conjE exE)
  with stuck
  have accept: "length (samples Gpio_ext_porta (cd OR ns) start
      (snd (snd (step11 stuck_dev False start)))) = 1000"
    by (simp add: samples_def poll_loop_exhausted(1))
  have accept_fails: "fst (step11 stuck_dev False start) = Some EXIT_FAILURE"
    by (simp add: stuck_step11(1) start_def)
  from reset config user dclk accept stuck dead_dev_polls dclk_fails accept_fails
    slow slow_loop slow_ok show ?thesis
    by (simp only: simp_thms)
qed

text \<open>
  Claim C4 as stated fails: on a board whose port A shows CONF_DONE = 0 and nSTATUS = 1 for
  the first 1000 reads and both bits 1 from then on, the run returns EXIT_FAILURE after
  exactly 1000 reads of port A, although a read of port A at the time of the decision shows
  both bits 1. The decision is taken on the sample of the last turn.
\<close>

theorem decision_after_budget_uses_last_sample:
  "fst (loadFPGA stuck_dev [] 0 False start) = EXIT_FAILURE \<and>
   length (reads_of Gpio_ext_porta (hw (snd (loadFPGA stuck_dev [] 0 False start)))) = 1000 \<and>
   stuck_dev (hw (snd (loadFPGA stuck_dev [] 0 False start))) Gpio_ext_porta AND (cd OR ns) =
     (cd OR ns)"
  by (simp add: stuck_run stuck_dev_porta)

end
